(* ===== verification/Prelude.thy ===== *)
theory Prelude
  imports
    Complex_Main
    "HOL-Library.Word"
    "HOL-Library.Char_ord"
    "HOL-Library.List_Lexorder"
    "HOL-Library.Sublist"
    "HOL-Library.Multiset"
begin

text \<open>
  Shared ground of the development: the outcome of a Go call (a value, an error value or a
  panic), error values with their \<^verbatim>\<open>Error()\<close> text, fixed-width integers, and the generic lemmas the
  components share.

  A Go string is a byte string and is modelled by \<^typ>\<open>string\<close> (8-bit characters).
  A Go map with string keys is an association list with distinct keys: its order stands for
  the iteration order, which Go leaves open, so a statement for every list holds for every
  iteration order.
\<close>

section \<open>Theorem collections\<close>

named_theorems go_split \<open>case splits for the outcomes of Go calls\<close>
named_theorems svc_defs \<open>definitions of service operations, for unfolding in proofs\<close>


section \<open>Error values and outcomes\<close>

text \<open>
  Errors of the Kubernetes API, classified the way \<^verbatim>\<open>apierrors\<close> does (\<^verbatim>\<open>IsAlreadyExists\<close>,
  \<^verbatim>\<open>IsNotFound\<close>, \<^verbatim>\<open>IsConflict\<close>), each with its message.
\<close>

datatype api_error =
    AlreadyExists string
  | NotFound string
  | Conflict string
  | OtherApi string

primrec api_text :: "api_error \<Rightarrow> string" where
  "api_text (AlreadyExists m) = m"
| "api_text (NotFound m) = m"
| "api_text (Conflict m) = m"
| "api_text (OtherApi m) = m"

primrec IsAlreadyExists :: "api_error \<Rightarrow> bool" where
  "IsAlreadyExists (AlreadyExists m) = True"
| "IsAlreadyExists (NotFound m) = False"
| "IsAlreadyExists (Conflict m) = False"
| "IsAlreadyExists (OtherApi m) = False"

primrec IsNotFound :: "api_error \<Rightarrow> bool" where
  "IsNotFound (AlreadyExists m) = False"
| "IsNotFound (NotFound m) = True"
| "IsNotFound (Conflict m) = False"
| "IsNotFound (OtherApi m) = False"

lemma IsAlreadyExists_iff: "IsAlreadyExists e \<longleftrightarrow> (\<exists>m. e = AlreadyExists m)"
  by (cases e) auto

lemma IsNotFound_iff: "IsNotFound e \<longleftrightarrow> (\<exists>m. e = NotFound m)"
  by (cases e) auto

text \<open>
  Go error values: an API error, a message, a wrapped error (\<^verbatim>\<open>fmt.Errorf("p: %w", err)\<close>) and
  a joined list (\<^verbatim>\<open>errors.Join\<close>).
\<close>

datatype go_err =
    EApi api_error
  | EMsg string
  | EWrap string go_err
  | EJoin "go_err list"

text \<open>The text of an error, Go's \<^verbatim>\<open>Error()\<close>: joined errors are separated by newlines.\<close>

fun join_with :: "string \<Rightarrow> string list \<Rightarrow> string" where
  "join_with sep [] = []"
| "join_with sep [x] = x"
| "join_with sep (x # y # xs) = x @ sep @ join_with sep (y # xs)"

fun Error :: "go_err \<Rightarrow> string" where
  "Error (EApi e) = api_text e"
| "Error (EMsg m) = m"
| "Error (EWrap p e) = p @ '': '' @ Error e"
| "Error (EJoin es) = join_with [CHR 0x0A] (map Error es)"

text \<open>The outcome of a Go call: a value, an error, or a panic.\<close>

datatype 'a go = Ok 'a | Err go_err | Panic

primrec bind_go :: "'a go \<Rightarrow> ('a \<Rightarrow> 'b go) \<Rightarrow> 'b go" where
  "bind_go (Ok x) f = f x"
| "bind_go (Err e) f = Err e"
| "bind_go Panic f = Panic"

primrec of_sum :: "go_err + 'a \<Rightarrow> 'a go" where
  "of_sum (Inl e) = Err e"
| "of_sum (Inr x) = Ok x"

text \<open>Dereferencing a pointer: a nil pointer panics.\<close>

primrec deref :: "'a option \<Rightarrow> 'a go" where
  "deref None = Panic"
| "deref (Some x) = Ok x"

declare go.splits [go_split] option.splits [go_split] sum.splits [go_split] if_splits [go_split]
  prod.splits [go_split]

lemma bind_go_eq_Ok: "bind_go m f = Ok y \<longleftrightarrow> (\<exists>x. m = Ok x \<and> f x = Ok y)"
  by (cases m) auto

lemma of_sum_eq_Ok: "of_sum s = Ok x \<longleftrightarrow> s = Inr x"
  by (cases s) auto

lemma deref_eq_Ok [simp]: "deref p = Ok x \<longleftrightarrow> p = Some x"
  by (cases p) auto

lemma deref_not_Err [simp]: "deref p \<noteq> Err e"
  by (cases p) auto


section \<open>Integers of fixed width\<close>

type_synonym int32 = "32 word"
type_synonym int64 = "64 word"

text \<open>Conversions \<^verbatim>\<open>int32(x)\<close> of an \<^verbatim>\<open>int\<close> (truncation) and \<^verbatim>\<open>int(x)\<close> of an \<^verbatim>\<open>int32\<close>.\<close>

definition to_int32 :: "int64 \<Rightarrow> int32" where
  "to_int32 x = ucast x"

definition to_int :: "int32 \<Rightarrow> int64" where
  "to_int x = scast x"

lemma sint32_bounds: "- (2 ^ 31) \<le> sint (x :: int32)" "sint (x :: int32) < 2 ^ 31"
  using sint_range_size [of x] by (simp_all add: word_size)

lemma sint64_bounds: "- (2 ^ 63) \<le> sint (x :: int64)" "sint (x :: int64) < 2 ^ 63"
  using sint_range_size [of x] by (simp_all add: word_size)

lemma sint32_of_int:
  "- (2 ^ 31) \<le> i \<Longrightarrow> i < 2 ^ 31 \<Longrightarrow> sint (word_of_int i :: int32) = i"
  by (simp add: signed_take_bit_int_eq_self sint_sbintrunc')

text \<open>A natural number that is cut to 32 bits becomes smaller or stays.\<close>

lemma sint32_of_nat_le: "sint (of_nat n :: int32) \<le> int n"
  using sint_sbintrunc' [where 'a = 32, of "int n"] by (simp add: signed_take_bit_int_less_eq_self_iff)

lemma sint64_of_int:
  "- (2 ^ 63) \<le> i \<Longrightarrow> i < 2 ^ 63 \<Longrightarrow> sint (word_of_int i :: int64) = i"
  by (simp add: signed_take_bit_int_eq_self sint_sbintrunc')

lemma sint32_plus:
  fixes a b :: int32
  assumes "- (2 ^ 31) \<le> sint a + sint b" "sint a + sint b < 2 ^ 31"
  shows "sint (a + b) = sint a + sint b"
proof -
  have eq: "a + b = word_of_int (sint a + sint b)"
    by (simp add: wi_hom_add)
  show ?thesis unfolding eq using assms by (rule sint32_of_int)
qed

lemma sint32_minus:
  fixes a b :: int32
  assumes "- (2 ^ 31) \<le> sint a - sint b" "sint a - sint b < 2 ^ 31"
  shows "sint (a - b) = sint a - sint b"
proof -
  have eq: "a - b = word_of_int (sint a - sint b)"
    by (simp add: wi_hom_sub)
  show ?thesis unfolding eq using assms by (rule sint32_of_int)
qed

lemma sint_to_int: "sint (to_int x) = sint x"
  by (simp add: to_int_def sint_up_scast is_up)

lemma sint_to_int32:
  assumes "- (2 ^ 31) \<le> sint x" "sint x < 2 ^ 31"
  shows "sint (to_int32 x) = sint x"
proof -
  have eq: "to_int32 x = word_of_int (sint x)"
    unfolding to_int32_def
    by (rule bit_word_eqI) (simp add: bit_ucast_iff bit_signed_iff bit_word_of_int_iff bit_sint_iff)
  show ?thesis unfolding eq using assms by (rule sint32_of_int)
qed

end
