(* ===== verification/Kube_Types.thy ===== *)
theory Kube_Types
  imports Go_Strings
begin

text \<open>
  The data the program works on: the fields it reads of the Kubernetes objects (pods, owner
  references, leases, label selectors, int-or-percent values) and the program's own resource,
  \<^verbatim>\<open>XPodDisruptionBudget\<close> of \<^verbatim>\<open>api/v1alpha1\<close>. A pointer field is an \<^typ>\<open>'a option\<close>, a time is a
  number of nanoseconds.
\<close>

section \<open>Pods\<close>

type_synonym dict = "(string \<times> string) list"

record pod_condition =
  cond_type :: string
  cond_status :: string
  cond_reason :: string
  cond_message :: string

record owner_reference =
  or_apiVersion :: string
  or_kind :: string
  or_name :: string
  or_uid :: string
  or_controller :: "bool option"

record pod =
  pod_name :: string
  pod_namespace :: string
  pod_labels :: dict
  pod_annotations :: dict
  pod_owners :: "owner_reference list"
  pod_deletionTimestamp :: "int option"
  pod_conditions :: "pod_condition list"
  pod_reason :: string

text \<open>\<^verbatim>\<open>corev1.PodReady\<close>, \<^verbatim>\<open>corev1.DisruptionTarget\<close>, \<^verbatim>\<open>corev1.ConditionTrue\<close>.\<close>

definition PodReady :: string where "PodReady = ''Ready''"
definition DisruptionTarget :: string where "DisruptionTarget = ''DisruptionTarget''"
definition ConditionTrue :: string where "ConditionTrue = ''True''"


section \<open>Label selectors\<close>

record label_selector_requirement =
  lsr_key :: string
  lsr_operator :: string
  lsr_values :: "string list"

record label_selector =
  match_labels :: dict
  match_expressions :: "label_selector_requirement list"

text \<open>The messages of \<^verbatim>\<open>pkg/proto/state/v1\<close>: optional scalar fields are pointers.\<close>

record pb_label_selector_requirement =
  pb_key :: "string option"
  pb_operator :: "string option"
  pb_values :: "string list"

record pb_label_selector =
  pb_match_labels :: dict
  pb_match_expressions :: "pb_label_selector_requirement list"

record lock_request =
  lrq_leaseHolderIdentity :: string
  lrq_namespace :: string
  lrq_labelSelector :: "pb_label_selector option"

record lock_response =
  lrs_acquired :: bool
  lrs_error :: string

record unlock_request =
  urq_leaseHolderIdentity :: string
  urq_namespace :: string
  urq_labelSelector :: "pb_label_selector option"

record unlock_response =
  urs_unlocked :: bool
  urs_error :: string

record get_state_request =
  grq_namespace :: string
  grq_labelSelector :: "pb_label_selector option"

record get_state_response =
  grs_desiredHealthy :: int32
  grs_healthy :: int32


section \<open>XPodDisruptionBudget\<close>

datatype intstr_type = IntType | StringType | UnknownType

record int_or_string =
  is_type :: intstr_type
  is_int :: int32
  is_str :: string

record probe_spec =
  probe_enabled :: "bool option"
  probe_endpoint :: string

record xpdb_spec =
  spec_suspend :: "bool option"
  spec_minAvailable :: "int_or_string option"
  spec_selector :: label_selector
  spec_maxUnavailable :: "int_or_string option"
  spec_probe :: "probe_spec option"

record xpdb =
  xpdb_name :: string
  xpdb_namespace :: string
  xpdb_spec :: xpdb_spec


section \<open>Leases\<close>

record lease =
  lease_name :: string
  lease_namespace :: string
  lease_resourceVersion :: string
  lease_annotations :: dict
  lease_labels :: dict
  lease_holderIdentity :: "string option"
  lease_acquireTime :: "int option"
  lease_durationSeconds :: "int32 option"

type_synonym object_key = "string \<times> string"

text \<open>\<^verbatim>\<open>client.ObjectKeyFromObject\<close>.\<close>

definition ObjectKeyFromObject :: "lease \<Rightarrow> object_key" where
  "ObjectKeyFromObject l = (lease_namespace l, lease_name l)"

lemma ObjectKeyFromObject_update [simp]:
  "ObjectKeyFromObject (l\<lparr>lease_resourceVersion := rv\<rparr>) = ObjectKeyFromObject l"
  "ObjectKeyFromObject (l\<lparr>lease_acquireTime := t\<rparr>) = ObjectKeyFromObject l"
  "ObjectKeyFromObject (l\<lparr>lease_holderIdentity := h\<rparr>) = ObjectKeyFromObject l"
  by (simp_all add: ObjectKeyFromObject_def)

end
