(* ===== verification/Intstr.thy ===== *)
theory Intstr
  imports Kube_Types "HOL-Library.Log_Nat"
begin

text \<open>
  \<^verbatim>\<open>intstr.GetScaledValueFromIntOrPercent\<close> of the vendored \<^verbatim>\<open>k8s.io/apimachinery\<close>: an absolute
  number, or a percentage of a total, scaled in double precision and rounded. Double precision
  arithmetic is modelled by rounding rationals to 53 significant bits, and the result is shown to
  be the exact quotient rounded up for all percentages and totals that occur.
\<close>

section \<open>Double precision\<close>

definition round_half_even :: "rat \<Rightarrow> int" where
  "round_half_even m =
     (let f = \<lfloor>m\<rfloor>; d = m - of_int f
      in if d < 1 / 2 then f else if d > 1 / 2 then f + 1 else if even f then f else f + 1)"

text \<open>The binary exponent of a number that is not zero.\<close>

definition f64_exp :: "rat \<Rightarrow> int" where
  "f64_exp x =
     (if 1 \<le> \<bar>x\<bar> then bitlen \<lfloor>\<bar>x\<bar>\<rfloor> - 1 else - bitlen (\<lceil>1 / \<bar>x\<bar>\<rceil> - 1))"

text \<open>
  The nearest double, ties to even. Overflow and underflow do not occur here: the values are
  zero or between one hundredth and the product of two 64-bit integers.
\<close>

definition f64_round :: "rat \<Rightarrow> rat" where
  "f64_round x =
     (if x = 0 then 0
      else let e = f64_exp x
           in of_int (round_half_even (x * 2 powi (52 - e))) * 2 powi (e - 52))"

lemma round_half_even_error: "\<bar>of_int (round_half_even m) - m\<bar> \<le> 1 / 2"
proof -
  have "of_int \<lfloor>m\<rfloor> \<le> m" "m < of_int \<lfloor>m\<rfloor> + 1" by linarith+
  then show ?thesis by (auto simp: round_half_even_def Let_def abs_le_iff)
qed

lemma round_half_even_int [simp]: "round_half_even (of_int n) = n"
  by (simp add: round_half_even_def)

lemma bitlen_pos: "0 < n \<Longrightarrow> 1 \<le> bitlen n"
  by (simp add: bitlen_ge_iff_power)

lemma f64_exp_lower: "x \<noteq> 0 \<Longrightarrow> 2 powi f64_exp x \<le> \<bar>x\<bar>"
proof (cases "1 \<le> \<bar>x\<bar>")
  case True
  define n where "n = \<lfloor>\<bar>x\<bar>\<rfloor>"
  have "0 < n" using True by (simp add: n_def)
  then have "2 ^ nat (bitlen n - 1) \<le> n" using bitlen_bounds [of n] by simp
  then have "(2::rat) ^ nat (bitlen n - 1) \<le> of_int n" by (metis of_int_le_iff of_int_numeral of_int_power)
  also have "\<dots> \<le> \<bar>x\<bar>" unfolding n_def by simp
  finally show ?thesis using True bitlen_pos [OF \<open>0 < n\<close>]
    by (simp add: f64_exp_def n_def [symmetric] power_int_def)
next
  case False
  assume "x \<noteq> 0"
  define n where "n = \<lceil>1 / \<bar>x\<bar>\<rceil> - 1"
  have pos: "0 < \<bar>x\<bar>" using \<open>x \<noteq> 0\<close> by simp
  then have "1 < 1 / \<bar>x\<bar>" using False by simp
  then have "0 < n" by (simp add: n_def less_ceiling_iff)
  then have "n + 1 \<le> 2 ^ nat (bitlen n)" using bitlen_bounds [of n] by simp
  then have "of_int (n + 1) \<le> (2::rat) ^ nat (bitlen n)" by (metis of_int_le_iff of_int_numeral of_int_power)
  moreover have "1 / \<bar>x\<bar> \<le> of_int (n + 1)" by (simp add: n_def)
  ultimately have "1 / \<bar>x\<bar> \<le> 2 ^ nat (bitlen n)" by linarith
  then have "1 / 2 ^ nat (bitlen n) \<le> \<bar>x\<bar>" using pos by (simp add: field_simps)
  then show ?thesis using False bitlen_pos [OF \<open>0 < n\<close>]
    by (simp add: f64_exp_def n_def [symmetric] power_int_def field_simps)
qed

lemma f64_round_error: "\<bar>f64_round x - x\<bar> \<le> \<bar>x\<bar> / 2 ^ 53"
proof (cases "x = 0")
  case False
  define e where "e = f64_exp x"
  define m where "m = x * 2 powi (52 - e)"
  have "2 powi (52 - e) * 2 powi (e - 52) = (1::rat)"
    by (simp add: power_int_add [symmetric])
  then have x: "x = m * 2 powi (e - 52)" by (simp add: m_def mult.assoc)
  have "f64_round x = of_int (round_half_even m) * 2 powi (e - 52)"
    using False by (simp add: f64_round_def Let_def e_def m_def)
  then have "f64_round x - x = (of_int (round_half_even m) - m) * 2 powi (e - 52)"
    using x by (simp add: left_diff_distrib)
  then have "\<bar>f64_round x - x\<bar> = \<bar>of_int (round_half_even m) - m\<bar> * 2 powi (e - 52)"
    by (simp add: abs_mult)
  also have "\<dots> \<le> 1 / 2 * 2 powi (e - 52)"
    by (intro mult_right_mono round_half_even_error) simp
  also have "\<dots> = 2 powi e / 2 ^ 53"
    by (simp add: power_int_diff power_int_numeral)
  also have "\<dots> \<le> \<bar>x\<bar> / 2 ^ 53"
    using f64_exp_lower [OF False] by (simp add: e_def divide_right_mono)
  finally show ?thesis .
qed (simp add: f64_round_def)

text \<open>Integers of at most 53 bits are represented exactly.\<close>

lemma f64_round_int: "\<bar>n\<bar> < 2 ^ 53 \<Longrightarrow> f64_round (of_int n) = of_int n"
proof (cases "n = 0")
  case False
  assume n: "\<bar>n\<bar> < 2 ^ 53"
  define e where "e = f64_exp (of_int n)"
  have "(2::rat) powi e \<le> \<bar>of_int n\<bar>" unfolding e_def using False by (intro f64_exp_lower) simp
  also have "\<dots> = of_int \<bar>n\<bar>" by simp
  also have "\<dots> < of_int (2 ^ 53)" using n by (simp only: of_int_less_iff)
  also have "\<dots> = (2::rat) powi 53" by (simp add: power_int_numeral)
  finally have "(2::rat) powi e < 2 powi 53" .
  then have "e < 53" using power_int_increasing [of 53 e "2::rat"] by force
  then have "(of_int n :: rat) * 2 powi (52 - e) = of_int (n * 2 ^ nat (52 - e))"
    by (simp add: power_int_def)
  moreover have "(of_int n :: rat) * 2 powi (52 - e) * 2 powi (e - 52) = of_int n"
    by (simp add: mult.assoc power_int_add [symmetric])
  ultimately show ?thesis using False
    by (simp only: f64_round_def Let_def e_def [symmetric] of_int_eq_0_iff if_False round_half_even_int)
qed (simp add: f64_round_def)


text \<open>
  One rounding of a quotient by a hundred does not change its ceiling: a value that is no whole
  number is at least a hundredth away from the next one.
\<close>

lemma ceiling_f64_round_percent:
  assumes "\<bar>p\<bar> < 2 ^ 45"
  shows "\<lceil>f64_round (of_int p / 100)\<rceil> = \<lceil>of_int p / (100::rat)\<rceil>"
proof (cases "100 dvd p")
  case True
  then obtain k where p: "p = 100 * k" by blast
  have "\<bar>k\<bar> < 2 ^ 53" using assms p by simp
  then have "f64_round (of_int k) = of_int k" by (rule f64_round_int)
  then show ?thesis by (simp add: p)
next
  case False
  define x where "x = of_int p / (100::rat)"
  define q where "q = p div 100"
  define r where "r = p mod 100"
  have r: "1 \<le> r" "r \<le> 99" using False by (auto simp: r_def dvd_eq_mod_eq_0 intro: order_neq_le_trans)
  have p: "p = 100 * q + r" by (simp add: q_def r_def)
  then have x: "x = of_int q + of_int r / 100" by (simp add: x_def add_divide_distrib)
  have "\<bar>x\<bar> = of_int \<bar>p\<bar> / 100" by (simp add: x_def)
  also have "of_int \<bar>p\<bar> < (of_int (2 ^ 45) :: rat)" using assms by (simp only: of_int_less_iff)
  finally have "\<bar>x\<bar> < 2 ^ 45 / 100" by simp
  then have "\<bar>f64_round x - x\<bar> < 1 / 100" using f64_round_error [of x] by simp
  moreover have "of_int q + 1 / 100 \<le> x" "x \<le> of_int q + 99 / 100"
    using r by (simp_all add: x divide_right_mono)
  ultimately have "of_int q < f64_round x" "f64_round x \<le> of_int q + 1" "of_int q < x" "x \<le> of_int q + 1"
    by linarith+
  then have "\<lceil>f64_round x\<rceil> = q + 1" "\<lceil>x\<rceil> = q + 1" by (simp_all add: ceiling_unique)
  then show ?thesis by (simp add: x_def)
qed


section \<open>Scaled values\<close>

definition IntValue :: "int_or_string \<Rightarrow> int64" where
  "IntValue i =
     (if is_type i = StringType then (case parse_int64 (is_str i) of Inl _ \<Rightarrow> 0 | Inr v \<Rightarrow> v)
      else to_int (is_int i))"

definition getIntOrPercentValueSafely :: "int_or_string \<Rightarrow> go_err + int64 \<times> bool" where
  "getIntOrPercentValueSafely i =
     (case is_type i of
        IntType \<Rightarrow> Inr (IntValue i, False)
      | StringType \<Rightarrow>
          if suffix ''%'' (is_str i) then
            (case parse_int64 (TrimSuffix ''%'' (is_str i)) of
               Inl e \<Rightarrow> Inl (EMsg (''invalid value '' @ Quote (is_str i) @ '': '' @
                          atoi_error (TrimSuffix ''%'' (is_str i)) e))
             | Inr v \<Rightarrow> Inr (v, True))
          else Inl (EMsg ''invalid type: string is not a percentage'')
      | UnknownType \<Rightarrow> Inl (EMsg ''invalid type: neither int nor percentage''))"

text \<open>
  \<^verbatim>\<open>int(f)\<close> of a double that is a whole number. Outside the range of \<^verbatim>\<open>int64\<close> the language leaves the
  result to the implementation: the parameter \<open>f2i\<close>.
\<close>

definition f64_to_int :: "(rat \<Rightarrow> int64) \<Rightarrow> rat \<Rightarrow> int64" where
  "f64_to_int f2i x =
     (if - (2 ^ 63) \<le> \<lfloor>x\<rfloor> \<and> \<lfloor>x\<rfloor> < 2 ^ 63 then word_of_int \<lfloor>x\<rfloor> else f2i x)"

definition GetScaledValueFromIntOrPercent ::
    "(rat \<Rightarrow> int64) \<Rightarrow> int_or_string option \<Rightarrow> int64 \<Rightarrow> bool \<Rightarrow> go_err + int64" where
  "GetScaledValueFromIntOrPercent f2i intOrPercent tot roundUp =
     (case intOrPercent of
        None \<Rightarrow> Inl (EMsg ''nil value for IntOrString'')
      | Some i \<Rightarrow>
          (case getIntOrPercentValueSafely i of
             Inl e \<Rightarrow> Inl (EMsg (''invalid value for IntOrString: '' @ Error e))
           | Inr (value, isPercent) \<Rightarrow>
               if isPercent then
                 (let v = f64_round (of_int (sint value));
                      t = f64_round (of_int (sint tot));
                      q = f64_round (f64_round (v * t) / 100)
                  in if roundUp then Inr (f64_to_int f2i (of_int \<lceil>q\<rceil>))
                     else Inr (f64_to_int f2i (of_int \<lfloor>q\<rfloor>)))
               else Inr value))"

text \<open>The percentage a string denotes.\<close>

definition percent_of :: "int_or_string \<Rightarrow> int option" where
  "percent_of i =
     (if is_type i = StringType \<and> suffix ''%'' (is_str i) then
        (case parse_int64 (TrimSuffix ''%'' (is_str i)) of Inl _ \<Rightarrow> None | Inr v \<Rightarrow> Some (sint v))
      else None)"

text \<open>
  The scaled percentage is the exact share of the total, rounded up, as long as the product of
  the two numbers stays below two to the power 45: every percentage up to 16383 of any
  32-bit total.
\<close>

lemma GetScaledValue_percent:
  assumes "percent_of i = Some v" "\<bar>v\<bar> < 2 ^ 53" "\<bar>sint tot\<bar> < 2 ^ 53" "\<bar>v * sint tot\<bar> < 2 ^ 45"
  shows "\<exists>w. GetScaledValueFromIntOrPercent f2i (Some i) tot True = Inr w \<and>
             sint w = \<lceil>of_int (v * sint tot) / (100::rat)\<rceil>"
proof -
  let ?p = "v * sint tot"
  let ?c = "\<lceil>of_int ?p / (100::rat)\<rceil>"
  obtain w0 where i: "getIntOrPercentValueSafely i = Inr (w0, True)" "sint w0 = v"
    using assms(1) by (auto simp: percent_of_def getIntOrPercentValueSafely_def split: if_splits sum.splits)
  have "f64_round (of_int v) * f64_round (of_int (sint tot)) = of_int ?p"
    by (simp only: f64_round_int [OF assms(2)] f64_round_int [OF assms(3)] of_int_mult)
  moreover have "f64_round (of_int ?p) = of_int ?p" by (rule f64_round_int) (use assms(4) in simp)
  ultimately have q: "\<lceil>f64_round (f64_round (f64_round (of_int v) * f64_round (of_int (sint tot))) / 100)\<rceil> = ?c"
    by (simp only: ceiling_f64_round_percent [OF assms(4)])
  have "of_int ?p / 100 \<le> (of_int (2 ^ 45) :: rat)" "- of_int (2 ^ 45) \<le> (of_int ?p / 100 :: rat)"
  proof -
    have "?p \<le> 2 ^ 45" "- (2 ^ 45) \<le> ?p" using assms(4) by linarith+
    then have "of_int ?p \<le> (of_int (2 ^ 45) :: rat)" "- of_int (2 ^ 45) \<le> (of_int ?p :: rat)"
      by (simp_all only: of_int_le_iff of_int_minus [symmetric])
    then show "of_int ?p / 100 \<le> (of_int (2 ^ 45) :: rat)" "- of_int (2 ^ 45) \<le> (of_int ?p / 100 :: rat)"
      by (simp_all add: field_simps)
  qed
  then have "?c \<le> 2 ^ 45" "- (2 ^ 45) \<le> ?c"
    by (auto simp: ceiling_le_iff le_ceiling_iff)
  then have r: "- (2 ^ 63) \<le> ?c \<and> ?c < 2 ^ 63" by simp
  then have "f64_to_int f2i (of_int ?c) = word_of_int ?c" by (simp add: f64_to_int_def)
  moreover have "sint (word_of_int ?c :: int64) = ?c" by (rule sint64_of_int) (use r in simp_all)
  ultimately show ?thesis
    using i q by (simp add: GetScaledValueFromIntOrPercent_def Let_def)
qed

lemma GetScaledValue_int:
  "is_type i = IntType \<Longrightarrow>
     GetScaledValueFromIntOrPercent f2i (Some i) tot up = Inr (to_int (is_int i))"
  by (simp add: GetScaledValueFromIntOrPercent_def getIntOrPercentValueSafely_def IntValue_def)

section \<open>Properties\<close>

text \<open>
  C24. The percentage arithmetic is exact although it goes through floating point: for a percentage
  and a total whose product is below \<open>2 ^ 45\<close>, the scaled value is the share of the total, rounded up.
\<close>

theorem percentage_is_exact:
  assumes "percent_of i = Some v" "\<bar>v\<bar> < 2 ^ 53" "\<bar>sint tot\<bar> < 2 ^ 53" "\<bar>v * sint tot\<bar> < 2 ^ 45"
  shows "\<exists>w. GetScaledValueFromIntOrPercent f2i (Some i) tot True = Inr w \<and>
             sint w = \<lceil>of_int (v * sint tot) / (100::rat)\<rceil>"
  using assms by (rule GetScaledValue_percent)

theorem percentage_is_exact_witness:
  "\<exists>w. GetScaledValueFromIntOrPercent (\<lambda>q. 0) (Some \<lparr>is_type = StringType, is_int = 0, is_str = ''34%''\<rparr>) 10 True = Inr w \<and>
             sint w = \<lceil>of_int (34 * sint (10 :: int64)) / (100::rat)\<rceil>"
proof (rule percentage_is_exact)
  show "percent_of \<lparr>is_type = StringType, is_int = 0, is_str = ''34%''\<rparr> = Some 34" by code_simp
qed simp_all

end
