(* ===== verification/Budget.thy ===== *)
theory Budget
  imports Intstr
begin

text \<open>
  The verdict of a disruption budget: \<^verbatim>\<open>internal/pdb/pod_utils.go\<close> (pod readiness),
  \<^verbatim>\<open>countHealthyPods\<close> and \<^verbatim>\<open>disruptionAllowed\<close> of \<^verbatim>\<open>internal/pdb/service.go\<close>. The counts are 32-bit
  integers, as in the code. The specification \<open>required_healthy\<close> says in unbounded integers how many
  pods a budget wants healthy; the code decides exactly that for every budget with sensible values.
\<close>

section \<open>Pod readiness\<close>

text \<open>The first condition of a type, with its index; \<^verbatim>\<open>-1, nil\<close> when there is none.\<close>

fun find_condition :: "int \<Rightarrow> pod_condition list \<Rightarrow> string \<Rightarrow> int \<times> pod_condition option" where
  "find_condition i [] t = (- 1, None)"
| "find_condition i (x # xs) t =
     (if cond_type x = t then (i, Some x) else find_condition (i + 1) xs t)"

definition GetPodConditionFromList :: "pod_condition list \<Rightarrow> string \<Rightarrow> int \<times> pod_condition option" where
  "GetPodConditionFromList conditions t = find_condition 0 conditions t"

definition GetPodCondition :: "pod_condition list option \<Rightarrow> string \<Rightarrow> int \<times> pod_condition option" where
  "GetPodCondition status t =
     (case status of None \<Rightarrow> (- 1, None) | Some conditions \<Rightarrow> GetPodConditionFromList conditions t)"

definition GetPodReadyCondition :: "pod_condition list \<Rightarrow> pod_condition option" where
  "GetPodReadyCondition conditions = snd (GetPodCondition (Some conditions) PodReady)"

definition IsPodReadyConditionTrue :: "pod_condition list \<Rightarrow> bool" where
  "IsPodReadyConditionTrue conditions =
     (case GetPodReadyCondition conditions of
        None \<Rightarrow> False
      | Some condition \<Rightarrow> cond_status condition = ConditionTrue)"

definition IsPodReady :: "pod \<Rightarrow> bool" where
  "IsPodReady p = IsPodReadyConditionTrue (pod_conditions p)"

lemma find_condition_find: "snd (find_condition i cs t) = find (\<lambda>c. cond_type c = t) cs"
  by (induction cs arbitrary: i) auto

text \<open>The index is the position of the condition in the list, or -1.\<close>

lemma find_condition_index:
  "find_condition i cs t = (j, Some c) \<Longrightarrow>
     i \<le> j \<and> j < i + int (length cs) \<and> cs ! nat (j - i) = c \<and> cond_type c = t"
proof (induction cs arbitrary: i)
  case (Cons x xs)
  show ?case
  proof (cases "cond_type x = t")
    case True
    with Cons.prems show ?thesis by auto
  next
    case False
    with Cons have "i + 1 \<le> j \<and> j < i + 1 + int (length xs) \<and> xs ! nat (j - (i + 1)) = c \<and> cond_type c = t"
      by simp
    moreover from this have "nat (j - i) = Suc (nat (j - (i + 1)))" by linarith
    ultimately show ?thesis by simp
  qed
qed simp

lemma find_condition_None: "find_condition i cs t = (j, None) \<Longrightarrow> j = - 1 \<and> (\<forall>c\<in>set cs. cond_type c \<noteq> t)"
  by (induction cs arbitrary: i) (auto split: if_splits)

lemma IsPodReady_iff:
  "IsPodReady p \<longleftrightarrow>
     (\<exists>c. find (\<lambda>c. cond_type c = PodReady) (pod_conditions p) = Some c \<and> cond_status c = ConditionTrue)"
  by (auto simp: IsPodReady_def IsPodReadyConditionTrue_def GetPodReadyCondition_def GetPodCondition_def
      GetPodConditionFromList_def find_condition_find split: option.splits)


section \<open>Counting healthy pods\<close>

fun count_healthy :: "int32 \<Rightarrow> pod list \<Rightarrow> int32" where
  "count_healthy n [] = n"
| "count_healthy n (p # ps) =
     (if pod_deletionTimestamp p \<noteq> None then count_healthy n ps
      else if IsPodReady p then count_healthy (n + 1) ps
      else count_healthy n ps)"

definition countHealthyPods :: "pod list \<Rightarrow> int32" where
  "countHealthyPods pods = count_healthy 0 pods"

definition healthy_pod :: "pod \<Rightarrow> bool" where
  "healthy_pod p \<longleftrightarrow> pod_deletionTimestamp p = None \<and> IsPodReady p"

lemma count_healthy_eq: "count_healthy n ps = n + of_nat (length (filter healthy_pod ps))"
  by (induction ps arbitrary: n) (auto simp: healthy_pod_def)

lemma countHealthyPods_eq:
  assumes "length pods < 2 ^ 31"
  shows "sint (countHealthyPods pods) = int (length (filter healthy_pod pods))"
proof -
  have "length (filter healthy_pod pods) < 2 ^ 31" using assms length_filter_le le_less_trans by blast
  then have "sint (word_of_int (int (length (filter healthy_pod pods))) :: int32) =
      int (length (filter healthy_pod pods))"
    by (intro sint32_of_int) simp_all
  then show ?thesis by (simp add: countHealthyPods_def count_healthy_eq)
qed


section \<open>The verdict\<close>

definition desired_healthy :: "(rat \<Rightarrow> int64) \<Rightarrow> xpdb_spec \<Rightarrow> int32 \<Rightarrow> go_err + int32" where
  "desired_healthy f2i spec expectedCount =
     (case spec_maxUnavailable spec of
        Some mx \<Rightarrow>
          (case GetScaledValueFromIntOrPercent f2i (Some mx) (to_int expectedCount) True of
             Inl e \<Rightarrow> Inl e
           | Inr maxUnavailable \<Rightarrow> Inr (expectedCount - to_int32 maxUnavailable))
      | None \<Rightarrow>
          (case spec_minAvailable spec of
             Some mn \<Rightarrow>
               if is_type mn = IntType then Inr (is_int mn)
               else if is_type mn = StringType then
                 (case GetScaledValueFromIntOrPercent f2i (Some mn) (to_int expectedCount) True of
                    Inl e \<Rightarrow> Inl e
                  | Inr minAvailable \<Rightarrow> Inr (to_int32 minAvailable))
               else Inr 0
           | None \<Rightarrow> Inr 0))"

definition disruptionAllowed ::
    "(rat \<Rightarrow> int64) \<Rightarrow> xpdb option \<Rightarrow> pod \<Rightarrow> int32 \<Rightarrow> int32 \<Rightarrow> go_err + bool" where
  "disruptionAllowed f2i xp candidatePod expectedCount healthyCount =
     (case xp of
        None \<Rightarrow> Inr True
      | Some x \<Rightarrow>
          (case desired_healthy f2i (xpdb_spec x) expectedCount of
             Inl e \<Rightarrow> Inl e
           | Inr desiredHealthy \<Rightarrow>
               (let candidatePodReady = IsPodReady candidatePod;
                    healthyCompensation = (if candidatePodReady then 0 else 1)
                in Inr (sint (healthyCount + healthyCompensation - 1) \<ge> sint desiredHealthy))))"


section \<open>The specification\<close>

text \<open>How many pods a value asks for, given the total: a number, or a share of the total rounded up.\<close>

definition share_of :: "int_or_string \<Rightarrow> int \<Rightarrow> int" where
  "share_of i n =
     (case percent_of i of
        Some p \<Rightarrow> \<lceil>of_int (p * n) / (100::rat)\<rceil>
      | None \<Rightarrow> sint (is_int i))"

definition required_healthy :: "xpdb_spec \<Rightarrow> int \<Rightarrow> int" where
  "required_healthy spec n =
     (case spec_maxUnavailable spec of
        Some mx \<Rightarrow> n - share_of mx n
      | None \<Rightarrow> (case spec_minAvailable spec of Some mn \<Rightarrow> share_of mn n | None \<Rightarrow> 0))"

text \<open>Values that make sense in a budget: numbers that are not negative, and 0\% to 100\%.\<close>

definition sane_value :: "int_or_string \<Rightarrow> bool" where
  "sane_value i \<longleftrightarrow>
     (is_type i = IntType \<and> 0 \<le> sint (is_int i)) \<or>
     (\<exists>p. percent_of i = Some p \<and> 0 \<le> p \<and> p \<le> 100)"

definition sane_budget :: "xpdb_spec \<Rightarrow> bool" where
  "sane_budget spec \<longleftrightarrow>
     (\<forall>i. spec_maxUnavailable spec = Some i \<longrightarrow> sane_value i) \<and>
     (\<forall>i. spec_minAvailable spec = Some i \<longrightarrow> sane_value i)"

lemma percent_of_type: "percent_of i = Some p \<Longrightarrow> is_type i = StringType"
  by (auto simp: percent_of_def split: if_splits)

lemma share_bounds:
  assumes "0 \<le> p" "p \<le> 100" "0 \<le> n"
  shows "0 \<le> \<lceil>of_int (p * n) / (100::rat)\<rceil>" "\<lceil>of_int (p * n) / (100::rat)\<rceil> \<le> n"
proof -
  have "0 \<le> p * n" using assms by simp
  then have "(0::rat) \<le> of_int (p * n) / 100"
    by (metis divide_nonneg_pos of_int_0_le_iff zero_less_numeral)
  then show "0 \<le> \<lceil>of_int (p * n) / (100::rat)\<rceil>" by (simp add: le_ceiling_iff less_le_trans)
  have "p * n \<le> 100 * n" using assms by (simp add: mult_right_mono)
  then have "of_int (p * n) \<le> (of_int (100 * n) :: rat)" by (simp only: of_int_le_iff)
  then have "of_int (p * n) / (100::rat) \<le> of_int n" by simp
  then show "\<lceil>of_int (p * n) / (100::rat)\<rceil> \<le> n" by (simp only: ceiling_le_iff)
qed

lemma sane_value_cases [consumes 1, case_names number percent]:
  assumes "sane_value i"
  obtains "is_type i = IntType" "percent_of i = None" "0 \<le> sint (is_int i)"
  | p where "is_type i = StringType" "percent_of i = Some p" "0 \<le> p" "p \<le> 100"
proof (cases "is_type i = IntType")
  case True
  then have "percent_of i = None" by (simp add: percent_of_def)
  with True assms show thesis by (intro that(1)) (auto simp: sane_value_def)
next
  case False
  with assms obtain p where "percent_of i = Some p" "0 \<le> p" "p \<le> 100" by (auto simp: sane_value_def)
  then show thesis by (intro that(2)) (auto dest: percent_of_type)
qed

lemma share_of_bounds:
  assumes "sane_value i" "0 \<le> n" shows "0 \<le> share_of i n" "share_of i n < 2 ^ 31 \<or> share_of i n \<le> n"
proof -
  from assms(1) have "0 \<le> share_of i n \<and> (share_of i n < 2 ^ 31 \<or> share_of i n \<le> n)"
  proof (cases rule: sane_value_cases)
    case number
    then show ?thesis using sint32_bounds(2) [of "is_int i"] by (simp add: share_of_def)
  next
    case (percent p)
    then show ?thesis using share_bounds [OF percent(3,4) assms(2)] by (simp only: share_of_def option.case simp_thms)
  qed
  then show "0 \<le> share_of i n" "share_of i n < 2 ^ 31 \<or> share_of i n \<le> n" by auto
qed

text \<open>Scaling a sensible value: the code computes the share, exactly.\<close>

lemma scaled_sane:
  assumes "sane_value i" "0 \<le> sint n"
  shows "\<exists>w. GetScaledValueFromIntOrPercent f2i (Some i) (to_int n) True = Inr w \<and>
             sint (to_int32 w) = share_of i (sint n)"
  using assms(1)
proof (cases rule: sane_value_cases)
  case number
  then show ?thesis
    using sint32_bounds [of "is_int i"]
    by (auto simp: GetScaledValue_int share_of_def sint_to_int32 sint_to_int)
next
  case (percent p)
  note p = percent(2-4)
  have n: "0 \<le> sint n" "sint n < 2 ^ 31" using assms(2) sint32_bounds by auto
  then have "p * sint n \<le> 100 * 2 ^ 31" using p by (intro mult_mono) auto
  then have pn: "\<bar>p * sint (to_int n)\<bar> < 2 ^ 45" using p n by (simp add: sint_to_int)
  obtain w where w: "GetScaledValueFromIntOrPercent f2i (Some i) (to_int n) True = Inr w"
    "sint w = \<lceil>of_int (p * sint (to_int n)) / (100::rat)\<rceil>"
    using GetScaledValue_percent [OF p(1), of "to_int n" f2i] p n pn by (auto simp: sint_to_int)
  have "0 \<le> sint w" "sint w \<le> sint n"
    using share_bounds [OF p(2,3) n(1)] w(2) by (simp_all only: sint_to_int)
  then have "sint (to_int32 w) = sint w" using n by (intro sint_to_int32) auto
  then show ?thesis using w p(1) by (auto simp: share_of_def sint_to_int)
qed

lemma desired_healthy_exact:
  assumes "sane_budget spec" "0 \<le> sint expected"
  shows "\<exists>d. desired_healthy f2i spec expected = Inr d \<and> sint d = required_healthy spec (sint expected)"
proof (cases "spec_maxUnavailable spec")
  case (Some mx)
  then have sane: "sane_value mx" using assms(1) by (simp add: sane_budget_def)
  obtain w where w: "GetScaledValueFromIntOrPercent f2i (Some mx) (to_int expected) True = Inr w"
    "sint (to_int32 w) = share_of mx (sint expected)"
    using scaled_sane [OF sane assms(2)] by blast
  have "sint (expected - to_int32 w) = sint expected - sint (to_int32 w)"
    using w(2) share_of_bounds [OF sane assms(2)] assms(2) sint32_bounds [of expected]
      sint32_bounds [of "to_int32 w"]
    by (intro sint32_minus) auto
  then show ?thesis using Some w by (simp add: desired_healthy_def required_healthy_def)
next
  case None
  show ?thesis
  proof (cases "spec_minAvailable spec")
    case (Some mn)
    then have sane: "sane_value mn" using assms(1) by (simp add: sane_budget_def)
    then show ?thesis
    proof (cases rule: sane_value_cases)
      case number
      with None Some show ?thesis by (simp add: desired_healthy_def required_healthy_def share_of_def)
    next
      case (percent p)
      with None Some scaled_sane [OF sane assms(2), of f2i] show ?thesis
        by (auto simp: desired_healthy_def required_healthy_def)
    qed
  qed (use None in \<open>simp add: desired_healthy_def required_healthy_def\<close>)
qed

text \<open>
  The verdict is exact: the disruption is allowed iff the pods that stay healthy without the
  candidate are at least as many as the budget requires.
\<close>

lemma disruptionAllowed_exact:
  assumes "sane_budget (xpdb_spec x)" "0 \<le> sint expected" "0 \<le> sint healthy" "sint healthy < 2 ^ 31 - 1"
  shows "disruptionAllowed f2i (Some x) p expected healthy =
     Inr (required_healthy (xpdb_spec x) (sint expected) \<le> sint healthy - (if IsPodReady p then 1 else 0))"
proof -
  obtain d where d: "desired_healthy f2i (xpdb_spec x) expected = Inr d"
    "sint d = required_healthy (xpdb_spec x) (sint expected)"
    using desired_healthy_exact [OF assms(1,2)] by blast
  have "sint (healthy - 1) = sint healthy - 1"
    using sint32_minus [of healthy 1] assms(3,4) by simp
  then show ?thesis using d by (simp add: disruptionAllowed_def Let_def)
qed

section \<open>Properties\<close>

text \<open>
  C14. The verdict on the totals is the one of the budget: with sensible values in the budget, the
  disruption is allowed exactly when the pods that remain healthy without the candidate (a candidate
  that is not ready does not count) are at least as many as the budget requires of the expected pods.
  The specification is in unbounded integers, the code in 32-bit ones.
\<close>

theorem verdict_is_exact:
  assumes "sane_budget (xpdb_spec x)" "0 \<le> sint expected" "0 \<le> sint healthy" "sint healthy < 2 ^ 31 - 1"
  shows "disruptionAllowed f2i (Some x) p expected healthy =
     Inr (required_healthy (xpdb_spec x) (sint expected) \<le> sint healthy - (if IsPodReady p then 1 else 0))"
  using assms by (rule disruptionAllowed_exact)

definition half_available :: xpdb where
  "half_available =
     \<lparr>xpdb_name = ''db'', xpdb_namespace = ''shop'', xpdb_spec =
       \<lparr>spec_suspend = None,
        spec_minAvailable = Some \<lparr>is_type = StringType, is_int = 0, is_str = ''50%''\<rparr>,
        spec_selector = \<lparr>match_labels = [], match_expressions = []\<rparr>,
        spec_maxUnavailable = None, spec_probe = None\<rparr>\<rparr>"

definition pod_with_ready :: "string \<Rightarrow> pod" where
  "pod_with_ready status =
     \<lparr>pod_name = ''db-0'', pod_namespace = ''shop'', pod_labels = [], pod_annotations = [], pod_owners = [],
      pod_deletionTimestamp = None,
      pod_conditions = [\<lparr>cond_type = ''Ready'', cond_status = status, cond_reason = [], cond_message = []\<rparr>],
      pod_reason = []\<rparr>"

theorem verdict_is_exact_witness:
  "disruptionAllowed (\<lambda>q. 0) (Some half_available) (pod_with_ready ''True'') 5 3 =
     Inr (required_healthy (xpdb_spec half_available) (sint (5 :: int32)) \<le>
            sint (3 :: int32) - (if IsPodReady (pod_with_ready ''True'') then 1 else 0))"
proof (rule verdict_is_exact)
  have "percent_of \<lparr>is_type = StringType, is_int = 0, is_str = ''50%''\<rparr> = Some 50" by code_simp
  then show "sane_budget (xpdb_spec half_available)"
    by (simp add: sane_budget_def sane_value_def half_available_def)
qed simp_all

text \<open>
  The healthy pods are the ones that are ready and not being deleted, and the 32-bit counter does
  not overflow for a list that fits into an \<^verbatim>\<open>int32\<close>.
\<close>

theorem healthy_count_is_exact:
  assumes "length pods < 2 ^ 31"
  shows "sint (countHealthyPods pods) =
     int (length (filter (\<lambda>p. pod_deletionTimestamp p = None \<and> IsPodReady p) pods))"
  using countHealthyPods_eq [OF assms] by (simp add: healthy_pod_def [abs_def])

theorem healthy_count_is_exact_witness:
  "sint (countHealthyPods [pod_with_ready ''True'', pod_with_ready ''False'']) =
     int (length (filter (\<lambda>p. pod_deletionTimestamp p = None \<and> IsPodReady p)
       [pod_with_ready ''True'', pod_with_ready ''False'']))"
  by (rule healthy_count_is_exact) simp

end
