(* ===== verification/Scale_Finder.thy ===== *)
theory Scale_Finder
  imports Kube_Types "HOL-Library.AList"
begin

text \<open>
  \<^verbatim>\<open>internal/pdb/scale.go\<close>: how many pods the controllers of a set of pods want. The Kubernetes
  objects it reads (replica sets, stateful sets, deployments, replication controllers, scale
  subresources, discovery) are the parameter \<open>scale_api\<close>. The main fact is that every controller is
  counted exactly once, however many of its pods are in the list.
\<close>

section \<open>Group versions and controller references\<close>

text \<open>\<^verbatim>\<open>schema.ParseGroupVersion\<close> and \<^verbatim>\<open>GroupVersion.String\<close>.\<close>

definition ParseGroupVersion :: "string \<Rightarrow> go_err + string \<times> string" where
  "ParseGroupVersion gv =
     (if length gv = 0 \<or> gv = ''/'' then Inr ([], [])
      else case split_on CHR ''/'' gv of
          [v] \<Rightarrow> Inr ([], v)
        | [g, v] \<Rightarrow> Inr (g, v)
        | _ \<Rightarrow> Inl (EMsg (''unexpected GroupVersion string: '' @ gv)))"

definition GroupVersion_String :: "string \<times> string \<Rightarrow> string" where
  "GroupVersion_String gv = (case gv of (g, v) \<Rightarrow> if length g > 0 then g @ ''/'' @ v else v)"

text \<open>\<^verbatim>\<open>metav1.GetControllerOf\<close>: the first owner reference that is marked as controller.\<close>

definition GetControllerOf :: "owner_reference list \<Rightarrow> owner_reference option" where
  "GetControllerOf refs = find (\<lambda>r. or_controller r = Some True) refs"

definition verifyGroupKind :: "owner_reference \<Rightarrow> string \<Rightarrow> string list \<Rightarrow> go_err + bool" where
  "verifyGroupKind controllerRef expectedKind expectedGroups =
     (case ParseGroupVersion (or_apiVersion controllerRef) of
        Inl e \<Rightarrow> Inl e
      | Inr (g, v) \<Rightarrow>
          if or_kind controllerRef \<noteq> expectedKind then Inr False
          else Inr (list_ex (\<lambda>group. group = g) expectedGroups))"


section \<open>The objects read\<close>

record workload =
  wl_uid :: string
  wl_namespace :: string
  wl_owners :: "owner_reference list"
  wl_replicas :: "int32 option"

text \<open>\<^verbatim>\<open>unstructured.NestedInt64(obj, "spec", "replicas")\<close>.\<close>

datatype nested_int64 = NestedError | NestedMissing | NestedInt64 int64

record scale_object =
  so_uid :: string
  so_replicas :: nested_int64
  so_text :: string

record scale_api =
  sa_ReplicaSet :: "string \<Rightarrow> string \<Rightarrow> api_error + workload"
  sa_StatefulSet :: "string \<Rightarrow> string \<Rightarrow> api_error + workload"
  sa_Deployment :: "string \<Rightarrow> string \<Rightarrow> api_error + workload"
  sa_ReplicationController :: "string \<Rightarrow> string \<Rightarrow> api_error + workload"
  sa_Scale :: "string \<times> string \<Rightarrow> string \<Rightarrow> string \<Rightarrow> string \<Rightarrow> api_error + scale_object"
  sa_Resources :: "string \<Rightarrow> go_err + (string \<times> string) list"
  sa_podString :: "pod \<Rightarrow> string"

type_synonym controllerAndScale = "string \<times> int32"


section \<open>The finders\<close>

text \<open>The kinds of controllers, each with the group and the version of the package it is taken from.\<close>

record group_version_kind =
  gvk_group :: string
  gvk_version :: string
  gvk_kind :: string

definition controllerKindRS :: group_version_kind where
  "controllerKindRS = \<lparr>gvk_group = ''extensions'', gvk_version = ''v1beta1'', gvk_kind = ''ReplicaSet''\<rparr>"

definition controllerKindSS :: group_version_kind where
  "controllerKindSS = \<lparr>gvk_group = ''apps'', gvk_version = ''v1'', gvk_kind = ''StatefulSet''\<rparr>"

definition controllerKindRC :: group_version_kind where
  "controllerKindRC = \<lparr>gvk_group = [], gvk_version = ''v1'', gvk_kind = ''ReplicationController''\<rparr>"

definition controllerKindDep :: group_version_kind where
  "controllerKindDep = \<lparr>gvk_group = ''extensions'', gvk_version = ''v1beta1'', gvk_kind = ''Deployment''\<rparr>"

lemma controller_kinds [simp]:
  "gvk_kind controllerKindRS = ''ReplicaSet''" "gvk_kind controllerKindSS = ''StatefulSet''"
  "gvk_kind controllerKindRC = ''ReplicationController''" "gvk_kind controllerKindDep = ''Deployment''"
  by (simp_all add: controllerKindRS_def controllerKindSS_def controllerKindRC_def controllerKindDep_def)

text \<open>The end of most finders: the object must be the one referred to; its replicas are read.\<close>

definition replicas_of :: "workload \<Rightarrow> controllerAndScale option go" where
  "replicas_of w = bind_go (deref (wl_replicas w)) (\<lambda>n. Ok (Some (wl_uid w, n)))"

definition getPodReplicaSet ::
    "scale_api \<Rightarrow> owner_reference \<Rightarrow> string \<Rightarrow> controllerAndScale option go" where
  "getPodReplicaSet api controllerRef ns =
     (case verifyGroupKind controllerRef (gvk_kind controllerKindRS) [''apps'', ''extensions''] of
        Inl e \<Rightarrow> Err e
      | Inr False \<Rightarrow> Ok None
      | Inr True \<Rightarrow>
          (case sa_ReplicaSet api ns (or_name controllerRef) of
             Inl _ \<Rightarrow> Ok None
           | Inr rs \<Rightarrow>
               if wl_uid rs \<noteq> or_uid controllerRef then Ok None
               else
                 (case GetControllerOf (wl_owners rs) of
                    Some r \<Rightarrow> if or_kind r = gvk_kind controllerKindDep then Ok None else replicas_of rs
                  | None \<Rightarrow> replicas_of rs)))"

definition getPodStatefulSet ::
    "scale_api \<Rightarrow> owner_reference \<Rightarrow> string \<Rightarrow> controllerAndScale option go" where
  "getPodStatefulSet api controllerRef ns =
     (case verifyGroupKind controllerRef (gvk_kind controllerKindSS) [''apps''] of
        Inl e \<Rightarrow> Err e
      | Inr False \<Rightarrow> Ok None
      | Inr True \<Rightarrow>
          (case sa_StatefulSet api ns (or_name controllerRef) of
             Inl _ \<Rightarrow> Ok None
           | Inr ss \<Rightarrow> if wl_uid ss \<noteq> or_uid controllerRef then Ok None else replicas_of ss))"

definition getPodDeployment ::
    "scale_api \<Rightarrow> owner_reference \<Rightarrow> string \<Rightarrow> controllerAndScale option go" where
  "getPodDeployment api controllerRef ns =
     (case verifyGroupKind controllerRef (gvk_kind controllerKindRS) [''apps'', ''extensions''] of
        Inl e \<Rightarrow> Err e
      | Inr False \<Rightarrow> Ok None
      | Inr True \<Rightarrow>
          (case sa_ReplicaSet api ns (or_name controllerRef) of
             Inl _ \<Rightarrow> Ok None
           | Inr rs \<Rightarrow>
               if wl_uid rs \<noteq> or_uid controllerRef then Ok None
               else
                 (case GetControllerOf (wl_owners rs) of
                    None \<Rightarrow> Ok None
                  | Some r \<Rightarrow>
                      (case verifyGroupKind r (gvk_kind controllerKindDep) [''apps'', ''extensions''] of
                         Inl e \<Rightarrow> Err e
                       | Inr False \<Rightarrow> Ok None
                       | Inr True \<Rightarrow>
                           (case sa_Deployment api (wl_namespace rs) (or_name r) of
                              Inl _ \<Rightarrow> Ok None
                            | Inr deployment \<Rightarrow>
                                if wl_uid deployment \<noteq> or_uid r then Ok None
                                else replicas_of deployment)))))"

definition getPodReplicationController ::
    "scale_api \<Rightarrow> owner_reference \<Rightarrow> string \<Rightarrow> controllerAndScale option go" where
  "getPodReplicationController api controllerRef ns =
     (case verifyGroupKind controllerRef (gvk_kind controllerKindRC) [''''] of
        Inl e \<Rightarrow> Err e
      | Inr False \<Rightarrow> Ok None
      | Inr True \<Rightarrow>
          (case sa_ReplicationController api ns (or_name controllerRef) of
             Inl _ \<Rightarrow> Ok None
           | Inr rc \<Rightarrow> if wl_uid rc \<noteq> or_uid controllerRef then Ok None else replicas_of rc))"

definition implementsScale :: "scale_api \<Rightarrow> string \<times> string \<Rightarrow> string \<Rightarrow> go_err + bool" where
  "implementsScale api gv kind =
     (case sa_Resources api (GroupVersion_String gv) of
        Inl e \<Rightarrow> Inl e
      | Inr resources \<Rightarrow> Inr (list_ex (\<lambda>(k, name). k = kind \<and> suffix ''/scale'' name) resources))"

definition getScaleController ::
    "scale_api \<Rightarrow> owner_reference \<Rightarrow> string \<Rightarrow> controllerAndScale option go" where
  "getScaleController api controllerRef ns =
     (case ParseGroupVersion (or_apiVersion controllerRef) of
        Inl e \<Rightarrow> Err e
      | Inr gv \<Rightarrow>
          (case sa_Scale api gv (or_kind controllerRef) ns (or_name controllerRef) of
             Inl err \<Rightarrow>
               if IsNotFound err then
                 (case implementsScale api gv (or_kind controllerRef) of
                    Inl e \<Rightarrow> Err e
                  | Inr isScale \<Rightarrow>
                      if \<not> isScale then
                        Err (EMsg (GroupVersion_String gv @ '' does not implement the scale subresource''))
                      else Ok None)
               else
                 Err (EWrap (''cannot get scale subresource of '' @ fst gv @ ''/'' @ snd gv @ '', Kind='' @
                        or_kind controllerRef) (EApi err))
           | Inr scale \<Rightarrow>
               if so_uid scale \<noteq> or_uid controllerRef then Ok None
               else
                 (case so_replicas scale of
                    NestedInt64 replicas \<Rightarrow> Ok (Some (so_uid scale, to_int32 replicas))
                  | _ \<Rightarrow> Err (EMsg (''unable to find spec.replicas in scale subresource '' @ so_text scale)))))"

definition finders :: "scale_api \<Rightarrow> (owner_reference \<Rightarrow> string \<Rightarrow> controllerAndScale option go) list" where
  "finders api =
     [getPodReplicationController api, getPodDeployment api, getPodReplicaSet api,
      getPodStatefulSet api, getScaleController api]"


section \<open>FindExpectedScale\<close>

text \<open>The inner loop: the first finder that knows the controller.\<close>

fun first_controller ::
    "(owner_reference \<Rightarrow> string \<Rightarrow> controllerAndScale option go) list \<Rightarrow> owner_reference \<Rightarrow> string
     \<Rightarrow> controllerAndScale option go" where
  "first_controller [] ref ns = Ok None"
| "first_controller (f # fs) ref ns =
     (case f ref ns of
        Err e \<Rightarrow> Err e
      | Panic \<Rightarrow> Panic
      | Ok (Some cs) \<Rightarrow> Ok (Some cs)
      | Ok None \<Rightarrow> first_controller fs ref ns)"

text \<open>The outer loop: the scale by controller, and the names of the pods without one.\<close>

fun collect_scales ::
    "scale_api \<Rightarrow> pod list \<Rightarrow> (string \<times> int32) list \<Rightarrow> string list
     \<Rightarrow> ((string \<times> int32) list \<times> string list) go" where
  "collect_scales api [] m unmanaged = Ok (m, unmanaged)"
| "collect_scales api (p # ps) m unmanaged =
     (case GetControllerOf (pod_owners p) of
        None \<Rightarrow> collect_scales api ps m (unmanaged @ [pod_name p])
      | Some controllerRef \<Rightarrow>
          if map_of m (or_uid controllerRef) \<noteq> None then collect_scales api ps m unmanaged
          else
            (case first_controller (finders api) controllerRef (pod_namespace p) of
               Err e \<Rightarrow> Err e
             | Panic \<Rightarrow> Panic
             | Ok (Some (uid, scale)) \<Rightarrow> collect_scales api ps (AList.update uid scale m) unmanaged
             | Ok None \<Rightarrow>
                 Err (EMsg (''found no controllers for pod '' @ Quote (pod_name p) @ '': '' @ sa_podString api p))))"

definition FindExpectedScale :: "scale_api \<Rightarrow> pod list \<Rightarrow> (int32 \<times> string list) go" where
  "FindExpectedScale api pods =
     bind_go (collect_scales api pods [] []) (\<lambda>(m, unmanaged).
       Ok (foldl (\<lambda>n (uid, count). n + count) 0 m, unmanaged))"


section \<open>Every controller is counted once\<close>

definition controller_refs :: "pod list \<Rightarrow> owner_reference set" where
  "controller_refs pods = {r. \<exists>p\<in>set pods. GetControllerOf (pod_owners p) = Some r}"

definition unmanaged_names :: "pod list \<Rightarrow> string list" where
  "unmanaged_names pods = map pod_name (filter (\<lambda>p. GetControllerOf (pod_owners p) = None) pods)"

text \<open>
  A consistent cluster: \<open>rootOf r\<close> is the identity of the controller that counts for a reference
  (the deployment behind a replica set, say), \<open>scale\<close> its scale, and a reference to an object that
  counts itself is to that object.
\<close>

definition consistent_controllers ::
    "scale_api \<Rightarrow> pod list \<Rightarrow> (owner_reference \<Rightarrow> string) \<Rightarrow> (string \<Rightarrow> int32) \<Rightarrow> bool" where
  "consistent_controllers api pods rootOf scale \<longleftrightarrow>
     (\<forall>p\<in>set pods. \<forall>r. GetControllerOf (pod_owners p) = Some r \<longrightarrow>
        first_controller (finders api) r (pod_namespace p) = Ok (Some (rootOf r, scale (rootOf r)))) \<and>
     (\<forall>r\<in>controller_refs pods. \<forall>r'\<in>controller_refs pods. or_uid r = rootOf r' \<longrightarrow> rootOf r = or_uid r)"

lemma controller_refs_Cons:
  "controller_refs (p # ps) =
     (case GetControllerOf (pod_owners p) of None \<Rightarrow> {} | Some r \<Rightarrow> {r}) \<union> controller_refs ps"
  by (auto simp: controller_refs_def split: option.splits)

lemma unmanaged_names_Cons:
  "unmanaged_names (p # ps) =
     (case GetControllerOf (pod_owners p) of None \<Rightarrow> [pod_name p] | Some r \<Rightarrow> []) @ unmanaged_names ps"
  by (auto simp: unmanaged_names_def split: option.splits)

lemma foldl_scales:
  "foldl (\<lambda>n (uid, count). n + count) (k :: int32) m = k + sum_list (map snd m)"
  by (induction m arbitrary: k) auto

lemma scales_sum:
  assumes "distinct (map fst m)" "\<forall>(u, v)\<in>set m. v = scale u"
  shows "sum_list (map snd m) = (\<Sum>u\<in>fst ` set m. scale u :: int32)"
proof -
  have "map snd m = map scale (map fst m)" using assms(2) by (induction m) auto
  then have "sum_list (map snd m) = sum_list (map scale (map fst m))" by (rule arg_cong)
  also have "\<dots> = (\<Sum>u\<in>set (map fst m). scale u)"
    using assms(1) by (rule sum_list_distinct_conv_sum_set)
  finally show ?thesis by simp
qed

lemma update_respects:
  "\<forall>(u, v)\<in>set m. v = f u \<Longrightarrow> \<forall>(u, v)\<in>set (AList.update k (f k) m). v = f u"
  by (induction m) auto

lemma collect_scales_correct:
  assumes "consistent_controllers api all rootOf scale" "set pods \<subseteq> set all"
    and "distinct (map fst m)" "\<forall>(u, v)\<in>set m. v = scale u" "fst ` set m \<subseteq> rootOf ` controller_refs all"
  shows "\<exists>m'. collect_scales api pods m un = Ok (m', un @ unmanaged_names pods) \<and>
      distinct (map fst m') \<and> (\<forall>(u, v)\<in>set m'. v = scale u) \<and>
      fst ` set m' = fst ` set m \<union> rootOf ` controller_refs pods"
  using assms(2-)
proof (induction pods arbitrary: m un)
  case Nil
  then show ?case by (simp add: unmanaged_names_def controller_refs_def)
next
  case (Cons p ps)
  show ?case
  proof (cases "GetControllerOf (pod_owners p)")
    case None
    with Cons.IH [of m "un @ [pod_name p]"] Cons.prems show ?thesis
      by (auto simp: controller_refs_Cons unmanaged_names_Cons)
  next
    case (Some r)
    then have r: "r \<in> controller_refs all" using Cons.prems(1) by (auto simp: controller_refs_def)
    have refs: "controller_refs (p # ps) = insert r (controller_refs ps)"
      and un: "unmanaged_names (p # ps) = unmanaged_names ps"
      using Some by (simp_all add: controller_refs_Cons unmanaged_names_Cons)
    have sub: "set ps \<subseteq> set all" using Cons.prems(1) by simp
    show ?thesis
    proof (cases "map_of m (or_uid r) = None")
      case False
      then have "or_uid r \<in> fst ` set m" by (simp add: map_of_eq_None_iff)
      moreover from this obtain r' where "r' \<in> controller_refs all" "or_uid r = rootOf r'"
        using Cons.prems(4) by blast
      ultimately have root: "rootOf r \<in> fst ` set m"
        using assms(1) r unfolding consistent_controllers_def by metis
      have step: "collect_scales api (p # ps) m un = collect_scales api ps m un" using Some False by simp
      have keys: "fst ` set m \<union> rootOf ` controller_refs (p # ps) = fst ` set m \<union> rootOf ` controller_refs ps"
        using root refs by auto
      show ?thesis unfolding step un keys using sub Cons.prems(2-4) by (rule Cons.IH)
    next
      case True
      have f: "first_controller (finders api) r (pod_namespace p) = Ok (Some (rootOf r, scale (rootOf r)))"
        using assms(1) Some Cons.prems(1) unfolding consistent_controllers_def
        by (meson list.set_intros(1) subset_iff)
      let ?m = "AList.update (rootOf r) (scale (rootOf r)) m"
      have keys: "fst ` set ?m = insert (rootOf r) (fst ` set m)"
        using dom_update [of "rootOf r" "scale (rootOf r)" m] by simp
      have d: "distinct (map fst ?m)" using Cons.prems(2) by (rule distinct_update)
      have v: "\<forall>(u, v)\<in>set ?m. v = scale u"
        using Cons.prems(3) by (rule update_respects)
      have step: "collect_scales api (p # ps) m un = collect_scales api ps ?m un" using Some True f by simp
      have all_keys: "fst ` set m \<union> rootOf ` controller_refs (p # ps) = fst ` set ?m \<union> rootOf ` controller_refs ps"
        using refs keys by auto
      have "fst ` set ?m \<subseteq> rootOf ` controller_refs all" using Cons.prems(4) keys r by auto
      with sub d v show ?thesis unfolding step un all_keys by (rule Cons.IH)
    qed
  qed
qed

lemma FindExpectedScale_correct:
  assumes "consistent_controllers api pods rootOf scale"
  shows "FindExpectedScale api pods =
     Ok (\<Sum>u\<in>rootOf ` controller_refs pods. scale u, unmanaged_names pods)"
proof -
  obtain m where "collect_scales api pods [] [] = Ok (m, unmanaged_names pods)"
    "distinct (map fst m)" "\<forall>(u, v)\<in>set m. v = scale u" "fst ` set m = rootOf ` controller_refs pods"
    using collect_scales_correct [OF assms, of pods "[]" "[]"] by auto
  then show ?thesis by (simp add: FindExpectedScale_def foldl_scales scales_sum)
qed

text \<open>A pod whose controller cannot be resolved makes the whole count fail.\<close>

lemma collect_scales_unresolved:
  assumes "p \<in> set pods" "GetControllerOf (pod_owners p) = Some r"
    "\<And>cs. first_controller (finders api) r (pod_namespace p) \<noteq> Ok (Some cs)"
    "\<And>q r' uid n. q \<in> set pods \<Longrightarrow> GetControllerOf (pod_owners q) = Some r' \<Longrightarrow>
       first_controller (finders api) r' (pod_namespace q) = Ok (Some (uid, n)) \<Longrightarrow> uid \<noteq> or_uid r"
    "map_of m (or_uid r) = None"
  shows "collect_scales api pods m un \<noteq> Ok res"
  using assms(1,4,5)
proof (induction pods arbitrary: m un)
  case (Cons q qs)
  have IH: "collect_scales api qs m' un' \<noteq> Ok res"
    if "p \<in> set qs" "map_of m' (or_uid r) = None" for m' un'
    using that(1) Cons.prems(2) that(2) by (intro Cons.IH) auto
  show ?case
  proof (cases "GetControllerOf (pod_owners q)")
    case None
    then have "p \<in> set qs" using Cons.prems(1) assms(2) by auto
    with None IH Cons.prems(3) show ?thesis by simp
  next
    case (Some r')
    show ?thesis
    proof (cases "map_of m (or_uid r') = None")
      case False
      then have "p \<in> set qs" using Cons.prems(1,3) assms(2) Some by auto
      with False Some IH Cons.prems(3) show ?thesis by simp
    next
      case new: True
      consider uid n where "first_controller (finders api) r' (pod_namespace q) = Ok (Some (uid, n))"
        | "\<And>cs. first_controller (finders api) r' (pod_namespace q) \<noteq> Ok (Some cs)"
        by fastforce
      then show ?thesis
      proof cases
        case (1 uid n)
        have p: "p \<in> set qs" using Cons.prems(1) assms(2,3) Some 1 by auto
        have "uid \<noteq> or_uid r" using Cons.prems(2) [of q r' uid n] Some 1 by simp
        then have "map_of (AList.update uid n m) (or_uid r) = None"
          using Cons.prems(3) by (simp add: update_conv')
        with IH p Some new 1 show ?thesis by simp
      next
        case 2
        with Some new show ?thesis by (auto split: go.splits option.splits)
      qed
    qed
  qed
qed simp

section \<open>Properties\<close>

text \<open>
  C16. The expected number of pods is the sum of the scales of the controllers behind the pods, each
  controller counted once, however many of its pods are in the list and however the list is ordered;
  pods without a controller are reported by name. This holds in a cluster in which every reference
  leads to its controller.
\<close>

theorem controllers_counted_once:
  assumes "consistent_controllers api pods rootOf scale"
  shows "FindExpectedScale api pods =
     Ok (\<Sum>u\<in>rootOf ` controller_refs pods. scale u, unmanaged_names pods)"
  using assms by (rule FindExpectedScale_correct)

definition stateful_pod :: "string \<Rightarrow> pod" where
  "stateful_pod name =
     \<lparr>pod_name = name, pod_namespace = ''shop'', pod_labels = [], pod_annotations = [],
      pod_owners = [\<lparr>or_apiVersion = ''apps/v1'', or_kind = ''StatefulSet'', or_name = ''db'', or_uid = ''u1'',
                     or_controller = Some True\<rparr>],
      pod_deletionTimestamp = None, pod_conditions = [], pod_reason = []\<rparr>"

definition stateful_api :: scale_api where
  "stateful_api =
     \<lparr>sa_ReplicaSet = (\<lambda>ns n. Inl (NotFound [])),
      sa_StatefulSet = (\<lambda>ns n. Inr \<lparr>wl_uid = ''u1'', wl_namespace = ns, wl_owners = [], wl_replicas = Some 2\<rparr>),
      sa_Deployment = (\<lambda>ns n. Inl (NotFound [])), sa_ReplicationController = (\<lambda>ns n. Inl (NotFound [])),
      sa_Scale = (\<lambda>gv k ns n. Inl (NotFound [])), sa_Resources = (\<lambda>gv. Inr []), sa_podString = (\<lambda>p. [])\<rparr>"

theorem controllers_counted_once_witness:
  "FindExpectedScale stateful_api [stateful_pod ''db-0'', stateful_pod ''db-1''] =
     Ok (\<Sum>u\<in>(\<lambda>r. ''u1'') ` controller_refs [stateful_pod ''db-0'', stateful_pod ''db-1'']. 2,
         unmanaged_names [stateful_pod ''db-0'', stateful_pod ''db-1''])"
proof (rule controllers_counted_once)
  have ref: "GetControllerOf (pod_owners (stateful_pod n)) =
      Some \<lparr>or_apiVersion = ''apps/v1'', or_kind = ''StatefulSet'', or_name = ''db'', or_uid = ''u1'',
            or_controller = Some True\<rparr>" for n
    by (simp add: GetControllerOf_def stateful_pod_def)
  have found: "first_controller (finders stateful_api)
      \<lparr>or_apiVersion = ''apps/v1'', or_kind = ''StatefulSet'', or_name = ''db'', or_uid = ''u1'',
       or_controller = Some True\<rparr> ''shop'' = Ok (Some (''u1'', 2))"
    by code_simp
  show "consistent_controllers stateful_api [stateful_pod ''db-0'', stateful_pod ''db-1''] (\<lambda>r. ''u1'') (\<lambda>u. 2)"
    by (auto simp: consistent_controllers_def controller_refs_def ref found)
      (simp_all add: stateful_pod_def found)
qed

text \<open>
  A pod whose controller cannot be resolved is never left out silently: if no finder knows the
  controller of some pod (and no other controller of the list has its identity), there is no count.
\<close>

theorem unresolved_controller_fails:
  assumes "p \<in> set pods" "GetControllerOf (pod_owners p) = Some r"
    and "\<forall>cs. first_controller (finders api) r (pod_namespace p) \<noteq> Ok (Some cs)"
    and "\<forall>q r' uid n. q \<in> set pods \<and> GetControllerOf (pod_owners q) = Some r' \<and>
       first_controller (finders api) r' (pod_namespace q) = Ok (Some (uid, n)) \<longrightarrow> uid \<noteq> or_uid r"
  shows "FindExpectedScale api pods \<noteq> Ok res"
  using collect_scales_unresolved [OF assms(1,2), of api "[]" "[]"] assms(3,4)
  by (auto simp: FindExpectedScale_def bind_go_eq_Ok)

theorem unresolved_controller_fails_witness:
  "FindExpectedScale (stateful_api\<lparr>sa_StatefulSet := (\<lambda>ns n. Inl (NotFound []))\<rparr>) [stateful_pod ''db-0''] \<noteq> Ok (0, [])"
proof (rule unresolved_controller_fails)
  let ?r = "\<lparr>or_apiVersion = ''apps/v1'', or_kind = ''StatefulSet'', or_name = ''db'', or_uid = ''u1'',
      or_controller = Some True\<rparr>"
  let ?api = "stateful_api\<lparr>sa_StatefulSet := (\<lambda>ns n. Inl (NotFound []))\<rparr>"
  have none: "first_controller (finders ?api) ?r ''shop'' =
      Err (EMsg ''apps/v1 does not implement the scale subresource'')" by code_simp
  show "GetControllerOf (pod_owners (stateful_pod ''db-0'')) = Some ?r"
    by (simp add: GetControllerOf_def stateful_pod_def)
  show "\<forall>cs. first_controller (finders ?api) ?r (pod_namespace (stateful_pod ''db-0'')) \<noteq> Ok (Some cs)"
    using none by (simp add: stateful_pod_def)
  show "\<forall>q r' uid n. q \<in> set [stateful_pod ''db-0''] \<and> GetControllerOf (pod_owners q) = Some r' \<and>
       first_controller (finders ?api) r' (pod_namespace q) = Ok (Some (uid, n)) \<longrightarrow> uid \<noteq> or_uid ?r"
    using none by (auto simp: stateful_pod_def GetControllerOf_def)
qed simp

end
