(* ===== verification/Label_Selector.thy ===== *)
theory Label_Selector
  imports Kube_Types
begin

text \<open>
  Label selectors as the program uses them, from the vendored \<^verbatim>\<open>k8s.io/apimachinery\<close>:
  the validation of label keys and values, \<^verbatim>\<open>labels.NewRequirement\<close>, \<^verbatim>\<open>Requirement.Matches\<close>,
  \<^verbatim>\<open>metav1.LabelSelectorAsSelector\<close> and the generated \<^verbatim>\<open>LabelSelector.String\<close>. The lemmas give
  the meaning of a selector independently of how the selector is built.
\<close>

section \<open>Validation of label keys and values\<close>

definition is_lower :: "char \<Rightarrow> bool" where
  "is_lower c \<longleftrightarrow> CHR ''a'' \<le> c \<and> c \<le> CHR ''z''"

definition is_upper :: "char \<Rightarrow> bool" where
  "is_upper c \<longleftrightarrow> CHR ''A'' \<le> c \<and> c \<le> CHR ''Z''"

definition qname_char :: "char \<Rightarrow> bool" where
  "qname_char c \<longleftrightarrow> is_lower c \<or> is_upper c \<or> is_digit c"

definition qname_ext_char :: "char \<Rightarrow> bool" where
  "qname_ext_char c \<longleftrightarrow> qname_char c \<or> c = CHR ''-'' \<or> c = CHR ''_'' \<or> c = CHR ''.''"

text \<open>The regular expressions, as predicates on whole strings.\<close>

definition qualifiedName_match :: "string \<Rightarrow> bool" where
  "qualifiedName_match s \<longleftrightarrow>
     s \<noteq> [] \<and> qname_char (hd s) \<and> qname_char (last s) \<and> list_all qname_ext_char s"

definition labelValue_match :: "string \<Rightarrow> bool" where
  "labelValue_match s \<longleftrightarrow> s = [] \<or> qualifiedName_match s"

definition dns1123_char :: "char \<Rightarrow> bool" where
  "dns1123_char c \<longleftrightarrow> is_lower c \<or> is_digit c"

definition dns1123Label_match :: "string \<Rightarrow> bool" where
  "dns1123Label_match s \<longleftrightarrow>
     s \<noteq> [] \<and> dns1123_char (hd s) \<and> dns1123_char (last s) \<and>
     list_all (\<lambda>c. dns1123_char c \<or> c = CHR ''-'') s"

definition dns1123Subdomain_match :: "string \<Rightarrow> bool" where
  "dns1123Subdomain_match s \<longleftrightarrow> list_all dns1123Label_match (split_on CHR ''.'' s)"

definition squoted :: "string \<Rightarrow> string" where
  "squoted s = CHR 0x27 # s @ [CHR 0x27]"

definition qualifiedNameFmt :: string where
  "qualifiedNameFmt = ''([A-Za-z0-9][-A-Za-z0-9_.]*)?[A-Za-z0-9]''"

definition dns1123LabelFmt :: string where
  "dns1123LabelFmt = ''[a-z0-9]([-a-z0-9]*[a-z0-9])?''"

definition RegexError :: "string \<Rightarrow> string \<Rightarrow> string list \<Rightarrow> string" where
  "RegexError msg fmt examples =
     (if examples = [] then msg @ '' (regex used for validation is '' @ squoted fmt @ '')''
      else msg @ '' (e.g. '' @ join_with '' or '' (map (\<lambda>e. squoted e @ '', '') examples) @
           ''regex used for validation is '' @ squoted fmt @ '')'')"

definition MaxLenError :: "nat \<Rightarrow> string" where
  "MaxLenError n = ''must be no more than '' @ format_nat n @ '' characters''"

definition qualifiedNameErrMsg :: string where
  "qualifiedNameErrMsg =
     ''must consist of alphanumeric characters, '' @ squoted ''-'' @ '', '' @ squoted ''_'' @ '' or '' @
     squoted ''.'' @ '', and must start and end with an alphanumeric character''"

definition IsDNS1123Subdomain :: "string \<Rightarrow> string list" where
  "IsDNS1123Subdomain v =
     (if length v > 253 then [MaxLenError 253] else []) @
     (if \<not> dns1123Subdomain_match v then
        [RegexError
           (''a lowercase RFC 1123 subdomain must consist of lower case alphanumeric characters, '' @
            squoted ''-'' @ '' or '' @ squoted ''.'' @
            '', and must start and end with an alphanumeric character'')
           (dns1123LabelFmt @ ''('' @ [CHR 0x5C] @ ''.'' @ dns1123LabelFmt @ '')*'')
           [''example.com'']]
      else [])"

definition qualified_name_part_errors :: "string \<Rightarrow> string list" where
  "qualified_name_part_errors name =
     (if name = [] then [''name part must be non-empty'']
      else if length name > 63 then [''name part '' @ MaxLenError 63] else []) @
     (if \<not> qualifiedName_match name then
        [''name part '' @
         RegexError qualifiedNameErrMsg qualifiedNameFmt [''MyName'', ''my.name'', ''123-abc'']]
      else [])"

definition IsQualifiedName :: "string \<Rightarrow> string list" where
  "IsQualifiedName v =
     (case split_on CHR ''/'' v of
        [name] \<Rightarrow> qualified_name_part_errors name
      | [pre, name] \<Rightarrow>
          (if pre = [] then [''prefix part must be non-empty'']
           else map (\<lambda>m. ''prefix part '' @ m) (IsDNS1123Subdomain pre)) @
          qualified_name_part_errors name
      | _ \<Rightarrow>
          [''a qualified name '' @
           RegexError qualifiedNameErrMsg qualifiedNameFmt [''MyName'', ''my.name'', ''123-abc''] @
           '' with an optional DNS subdomain prefix and '' @ squoted ''/'' @ '' (e.g. '' @
           squoted ''example.com/MyName'' @ '')''])"

definition IsValidLabelValue :: "string \<Rightarrow> string list" where
  "IsValidLabelValue v =
     (if length v > 63 then [MaxLenError 63] else []) @
     (if \<not> labelValue_match v then
        [RegexError
           (''a valid label must be an empty string or consist of alphanumeric characters, '' @
            squoted ''-'' @ '', '' @ squoted ''_'' @ '' or '' @ squoted ''.'' @
            '', and must start and end with an alphanumeric character'')
           (''('' @ qualifiedNameFmt @ '')?'') [''MyValue'', ''my_value'', ''12345'']]
      else [])"


section \<open>Requirements and selectors\<close>

datatype sel_operator =
  SelIn | SelNotIn | SelEquals | SelDoubleEquals | SelNotEquals | SelExists | SelDoesNotExist |
  SelGreaterThan | SelLessThan

record requirement =
  req_key :: string
  req_operator :: sel_operator
  req_values :: "string list"

datatype selector = NothingSelector | InternalSelector "requirement list"

text \<open>The text of a \<^verbatim>\<open>field.Invalid\<close> error, and of a list of them (\<^verbatim>\<open>ToAggregate\<close>).\<close>

definition invalid_string :: "string \<Rightarrow> string \<Rightarrow> string \<Rightarrow> string" where
  "invalid_string path v detail = path @ '': Invalid value: '' @ Quote v @ '': '' @ detail"

definition invalid_strings :: "string \<Rightarrow> string list \<Rightarrow> string \<Rightarrow> string" where
  "invalid_strings path vs detail =
     path @ '': Invalid value: '' @
     (if vs = [] then ''[]string(nil)'' else ''[]string{'' @ join_with '', '' (map Quote vs) @ ''}'') @
     '': '' @ detail"

definition ToAggregate :: "string list \<Rightarrow> go_err" where
  "ToAggregate msgs =
     (case rev (remdups (rev msgs)) of
        [m] \<Rightarrow> EMsg m
      | ms \<Rightarrow> EMsg (''['' @ join_with '', '' ms @ '']''))"

definition numeric_errors :: "string list \<Rightarrow> string list" where
  "numeric_errors vals =
     (if length vals \<noteq> 1 then [invalid_strings ''values'' vals
        (''for '' @ squoted ''Gt'' @ '', '' @ squoted ''Lt'' @ '' operators, exactly one value is required'')]
      else []) @
     concat (map (\<lambda>(i, v). case parse_int64 v of
         Inl _ \<Rightarrow> [invalid_string (''values['' @ format_nat i @ '']'') v
           (''for '' @ squoted ''Gt'' @ '', '' @ squoted ''Lt'' @ '' operators, the value must be an integer'')]
       | Inr _ \<Rightarrow> []) (enumerate 0 vals))"

definition operator_errors :: "sel_operator \<Rightarrow> string list \<Rightarrow> string list" where
  "operator_errors op vals =
     (if op \<in> {SelIn, SelNotIn} then
        if vals = [] then [invalid_strings ''values'' vals
          (''for '' @ squoted ''in'' @ '', '' @ squoted ''notin'' @
           '' operators, values set can'' @ [CHR 0x27] @ ''t be empty'')] else []
      else if op \<in> {SelEquals, SelDoubleEquals, SelNotEquals} then
        if length vals \<noteq> 1 then [invalid_strings ''values'' vals
          ''exact-match compatibility requires one single value''] else []
      else if op \<in> {SelExists, SelDoesNotExist} then
        if vals \<noteq> [] then [invalid_strings ''values'' vals
          ''values set must be empty for exists and does not exist''] else []
      else numeric_errors vals)"

text \<open>\<^verbatim>\<open>labels.NewRequirement\<close>: the checks on the key, on the number of values, and on each value.\<close>

definition NewRequirement :: "string \<Rightarrow> sel_operator \<Rightarrow> string list \<Rightarrow> go_err + requirement" where
  "NewRequirement key op vals =
     (let keyErrs = (case IsQualifiedName key of
            [] \<Rightarrow> []
          | errs \<Rightarrow> [invalid_string ''key'' key (join_with ''; '' errs)]);
          valueErrs = concat (map (\<lambda>(i, v). case IsValidLabelValue v of
            [] \<Rightarrow> []
          | errs \<Rightarrow> [invalid_string (''values['' @ format_nat i @ ''][''@ key @ '']'') v
                       (join_with ''; '' errs)]) (enumerate 0 vals));
          allErrs = keyErrs @ operator_errors op vals @ valueErrs
      in if allErrs \<noteq> [] then Inl (ToAggregate allErrs)
         else Inr \<lparr>req_key = key, req_operator = op, req_values = vals\<rparr>)"

text \<open>A valid requirement: what \<^const>\<open>NewRequirement\<close> accepts.\<close>

definition valid_requirement :: "string \<Rightarrow> sel_operator \<Rightarrow> string list \<Rightarrow> bool" where
  "valid_requirement key op vals \<longleftrightarrow>
     IsQualifiedName key = [] \<and> operator_errors op vals = [] \<and>
     (\<forall>v\<in>set vals. IsValidLabelValue v = [])"

lemma enumerate_errors_Nil:
  "concat (map (\<lambda>(i, v). case f v of [] \<Rightarrow> [] | a # as \<Rightarrow> [g i v (a # as)]) (enumerate n vals)) = []
   \<longleftrightarrow> (\<forall>v\<in>set vals. f v = [])"
proof (induction vals arbitrary: n)
  case (Cons v vals)
  then show ?case by (cases "f v") auto
qed simp

lemma NewRequirement_Inr:
  "NewRequirement key op vals = Inr r \<longleftrightarrow>
     valid_requirement key op vals \<and> r = \<lparr>req_key = key, req_operator = op, req_values = vals\<rparr>"
  unfolding NewRequirement_def valid_requirement_def Let_def
  by (cases "IsQualifiedName key")
    (auto simp: enumerate_errors_Nil [where f = IsValidLabelValue and
        g = "\<lambda>i v e. invalid_string (''values['' @ format_nat i @ ''][''@ key @ '']'') v (join_with ''; '' e)"]
      simp del: concat_eq_Nil_conv split: if_splits)

definition hasValue :: "requirement \<Rightarrow> string \<Rightarrow> bool" where
  "hasValue r v = list_ex (\<lambda>x. x = v) (req_values r)"

text \<open>\<^verbatim>\<open>labels.Set\<close>: \<^verbatim>\<open>Has\<close> and \<^verbatim>\<open>Get\<close> (the empty string when absent).\<close>

definition set_Has :: "dict \<Rightarrow> string \<Rightarrow> bool" where
  "set_Has ls k \<longleftrightarrow> map_of ls k \<noteq> None"

definition set_Get :: "dict \<Rightarrow> string \<Rightarrow> string" where
  "set_Get ls k = (case map_of ls k of None \<Rightarrow> [] | Some v \<Rightarrow> v)"

definition requirement_Matches :: "requirement \<Rightarrow> dict \<Rightarrow> bool" where
  "requirement_Matches r ls =
     (if req_operator r \<in> {SelIn, SelEquals, SelDoubleEquals} then
        if \<not> set_Has ls (req_key r) then False else hasValue r (set_Get ls (req_key r))
      else if req_operator r \<in> {SelNotIn, SelNotEquals} then
        if \<not> set_Has ls (req_key r) then True else \<not> hasValue r (set_Get ls (req_key r))
      else if req_operator r = SelExists then set_Has ls (req_key r)
      else if req_operator r = SelDoesNotExist then \<not> set_Has ls (req_key r)
      else if \<not> set_Has ls (req_key r) then False
      else case parse_int64 (set_Get ls (req_key r)) of
          Inl _ \<Rightarrow> False
        | Inr lsValue \<Rightarrow>
            (case req_values r of
               [v] \<Rightarrow>
                 (case parse_int64 v of
                    Inl _ \<Rightarrow> False
                  | Inr rValue \<Rightarrow>
                      (req_operator r = SelGreaterThan \<and> sint lsValue > sint rValue) \<or>
                      (req_operator r = SelLessThan \<and> sint lsValue < sint rValue))
             | _ \<Rightarrow> False))"

text \<open>
  \<^verbatim>\<open>internalSelector.Add\<close> sorts the requirements by key; \<^verbatim>\<open>Matches\<close> is their conjunction.
\<close>

primrec selector_Add :: "selector \<Rightarrow> requirement list \<Rightarrow> selector" where
  "selector_Add NothingSelector reqs = NothingSelector"
| "selector_Add (InternalSelector s) reqs = InternalSelector (sort_key req_key (s @ reqs))"

primrec selector_Matches :: "selector \<Rightarrow> dict \<Rightarrow> bool" where
  "selector_Matches NothingSelector ls = False"
| "selector_Matches (InternalSelector s) ls = list_all (\<lambda>r. requirement_Matches r ls) s"


section \<open>LabelSelectorAsSelector\<close>

fun label_requirements :: "dict \<Rightarrow> go_err + requirement list" where
  "label_requirements [] = Inr []"
| "label_requirements ((k, v) # kvs) =
     (case NewRequirement k SelEquals [v] of
        Inl e \<Rightarrow> Inl e
      | Inr r \<Rightarrow> (case label_requirements kvs of Inl e \<Rightarrow> Inl e | Inr rs \<Rightarrow> Inr (r # rs)))"

definition selector_operator :: "string \<Rightarrow> sel_operator option" where
  "selector_operator op =
     (if op = ''In'' then Some SelIn
      else if op = ''NotIn'' then Some SelNotIn
      else if op = ''Exists'' then Some SelExists
      else if op = ''DoesNotExist'' then Some SelDoesNotExist
      else None)"

fun expression_requirements :: "label_selector_requirement list \<Rightarrow> go_err + requirement list" where
  "expression_requirements [] = Inr []"
| "expression_requirements (x # xs) =
     (case selector_operator (lsr_operator x) of
        None \<Rightarrow> Inl (EMsg (Quote (lsr_operator x) @ '' is not a valid label selector operator''))
      | Some op \<Rightarrow>
          (case NewRequirement (lsr_key x) op (lsr_values x) of
             Inl e \<Rightarrow> Inl e
           | Inr r \<Rightarrow>
               (case expression_requirements xs of Inl e \<Rightarrow> Inl e | Inr rs \<Rightarrow> Inr (r # rs))))"

definition LabelSelectorAsSelector :: "label_selector \<Rightarrow> go_err + selector" where
  "LabelSelectorAsSelector ps =
     (if length (match_labels ps) + length (match_expressions ps) = 0 then Inr (InternalSelector [])
      else case label_requirements (match_labels ps) of
          Inl e \<Rightarrow> Inl e
        | Inr rs1 \<Rightarrow>
            (case expression_requirements (match_expressions ps) of
               Inl e \<Rightarrow> Inl e
             | Inr rs2 \<Rightarrow> Inr (selector_Add (InternalSelector []) (rs1 @ rs2))))"


section \<open>The meaning of a selector\<close>

text \<open>
  What the API documentation says a label selector selects: every \<^verbatim>\<open>matchLabels\<close> pair is a label
  of the object and every expression holds.
\<close>

definition expression_holds :: "label_selector_requirement \<Rightarrow> dict \<Rightarrow> bool" where
  "expression_holds x ls \<longleftrightarrow>
     (case map_of ls (lsr_key x) of
        None \<Rightarrow> lsr_operator x \<in> {''NotIn'', ''DoesNotExist''}
      | Some v \<Rightarrow>
          (lsr_operator x = ''In'' \<and> v \<in> set (lsr_values x)) \<or>
          (lsr_operator x = ''NotIn'' \<and> v \<notin> set (lsr_values x)) \<or>
          lsr_operator x = ''Exists'')"

definition selects :: "label_selector \<Rightarrow> dict \<Rightarrow> bool" where
  "selects ps ls \<longleftrightarrow>
     (\<forall>(k, v)\<in>set (match_labels ps). map_of ls k = Some v) \<and>
     (\<forall>x\<in>set (match_expressions ps). expression_holds x ls)"

definition valid_expression :: "label_selector_requirement \<Rightarrow> bool" where
  "valid_expression x \<longleftrightarrow>
     (\<exists>op. selector_operator (lsr_operator x) = Some op \<and>
           valid_requirement (lsr_key x) op (lsr_values x))"

definition valid_selector :: "label_selector \<Rightarrow> bool" where
  "valid_selector ps \<longleftrightarrow>
     (\<forall>(k, v)\<in>set (match_labels ps). valid_requirement k SelEquals [v]) \<and>
     (\<forall>x\<in>set (match_expressions ps). valid_expression x)"

lemma requirement_Matches_Equals:
  "requirement_Matches \<lparr>req_key = k, req_operator = SelEquals, req_values = [v]\<rparr> ls \<longleftrightarrow>
     map_of ls k = Some v"
  by (auto simp: requirement_Matches_def set_Has_def set_Get_def hasValue_def)

lemma requirement_Matches_expression:
  assumes "selector_operator (lsr_operator x) = Some op"
  shows "requirement_Matches \<lparr>req_key = lsr_key x, req_operator = op, req_values = lsr_values x\<rparr> ls
         \<longleftrightarrow> expression_holds x ls"
  using assms
  by (cases "map_of ls (lsr_key x)")
    (auto simp: requirement_Matches_def set_Has_def set_Get_def hasValue_def expression_holds_def
      selector_operator_def list_ex_iff split: if_splits)

lemma label_requirements_ok:
  "label_requirements kvs = Inr rs \<Longrightarrow>
     list_all (\<lambda>r. requirement_Matches r ls) rs \<longleftrightarrow> (\<forall>(k, v)\<in>set kvs. map_of ls k = Some v)"
  by (induction kvs arbitrary: rs rule: label_requirements.induct)
    (auto simp: NewRequirement_Inr requirement_Matches_Equals split: sum.splits)

lemma expression_requirements_ok:
  "expression_requirements xs = Inr rs \<Longrightarrow>
     list_all (\<lambda>r. requirement_Matches r ls) rs \<longleftrightarrow> (\<forall>x\<in>set xs. expression_holds x ls)"
  by (induction xs arbitrary: rs)
    (auto simp: NewRequirement_Inr requirement_Matches_expression split: sum.splits option.splits)

lemma label_requirements_total:
  "(\<exists>rs. label_requirements kvs = Inr rs) \<longleftrightarrow> (\<forall>(k, v)\<in>set kvs. valid_requirement k SelEquals [v])"
proof (induction kvs rule: label_requirements.induct)
  case (2 k v kvs)
  have "(\<exists>r. NewRequirement k SelEquals [v] = Inr r) \<longleftrightarrow> valid_requirement k SelEquals [v]"
    by (simp add: NewRequirement_Inr)
  then show ?case using 2
    by (cases "NewRequirement k SelEquals [v]"; cases "label_requirements kvs") auto
qed simp

lemma expression_requirements_total:
  "(\<exists>rs. expression_requirements xs = Inr rs) \<longleftrightarrow> (\<forall>x\<in>set xs. valid_expression x)"
proof (induction xs)
  case (Cons x xs)
  show ?case
  proof (cases "selector_operator (lsr_operator x)")
    case None
    then show ?thesis by (simp add: valid_expression_def)
  next
    case (Some op)
    have "(\<exists>r. NewRequirement (lsr_key x) op (lsr_values x) = Inr r) \<longleftrightarrow>
            valid_requirement (lsr_key x) op (lsr_values x)"
      by (simp add: NewRequirement_Inr)
    then show ?thesis using Some Cons
      by (cases "NewRequirement (lsr_key x) op (lsr_values x)"; cases "expression_requirements xs")
        (auto simp: valid_expression_def)
  qed
qed simp

lemma selector_Matches_Add:
  "selector_Matches (selector_Add (InternalSelector s) rs) ls \<longleftrightarrow>
     list_all (\<lambda>r. requirement_Matches r ls) (s @ rs)"
  by (auto simp: list_all_iff)

text \<open>
  The selector built from an API selector matches exactly the label sets the API selector
  selects, and it is built exactly when every part of the API selector is valid.
\<close>

lemma LabelSelectorAsSelector_selects:
  "LabelSelectorAsSelector ps = Inr sel \<Longrightarrow> selector_Matches sel ls \<longleftrightarrow> selects ps ls"
  by (auto simp: LabelSelectorAsSelector_def selects_def selector_Matches_Add
      label_requirements_ok expression_requirements_ok
      simp del: selector_Add.simps split: if_splits sum.splits)

lemma LabelSelectorAsSelector_total:
  "(\<exists>sel. LabelSelectorAsSelector ps = Inr sel) \<longleftrightarrow> valid_selector ps"
proof -
  have "(\<exists>sel. LabelSelectorAsSelector ps = Inr sel) \<longleftrightarrow>
          (\<exists>rs. label_requirements (match_labels ps) = Inr rs) \<and>
          (\<exists>rs. expression_requirements (match_expressions ps) = Inr rs)"
    by (auto simp: LabelSelectorAsSelector_def split: sum.splits)
  then show ?thesis
    by (simp add: label_requirements_total expression_requirements_total valid_selector_def)
qed


section \<open>The printed form\<close>

text \<open>
  \<^verbatim>\<open>LabelSelectorRequirement.String\<close> and \<^verbatim>\<open>LabelSelector.String\<close>. \<^verbatim>\<open>strings.Replace(s, "&", "", 1)\<close>
  drops the first ampersand; the values are printed with \<^verbatim>\<open>%v\<close>; the labels are sorted by key.
\<close>

definition requirement_String :: "label_selector_requirement \<Rightarrow> string" where
  "requirement_String x =
     ''&LabelSelectorRequirement{'' @ ''Key:'' @ lsr_key x @ '','' @ ''Operator:'' @ lsr_operator x @ '','' @
     ''Values:['' @ join_with '' '' (lsr_values x) @ ''],'' @ ''}''"

definition drop_first :: "char \<Rightarrow> string \<Rightarrow> string" where
  "drop_first c s = remove1 c s"

definition selector_String :: "label_selector \<Rightarrow> string" where
  "selector_String ps =
     (let exprs = ''[]LabelSelectorRequirement{'' @
            concat (map (\<lambda>x. drop_first CHR ''&'' (requirement_String x) @ '','') (match_expressions ps)) @ ''}'';
          labels = ''map[string]string{'' @
            concat (map (\<lambda>k. k @ '': '' @ set_Get (match_labels ps) k @ '','')
                      (sort (map fst (match_labels ps)))) @ ''}''
      in ''&LabelSelector{'' @ ''MatchLabels:'' @ labels @ '','' @ ''MatchExpressions:'' @ exprs @ '','' @ ''}'')"

text \<open>The printed form does not depend on the iteration order of the label map.\<close>

lemma selector_String_order:
  assumes "distinct (map fst (match_labels ps))" "mset (match_labels ps') = mset (match_labels ps)"
    "match_expressions ps' = match_expressions ps"
  shows "selector_String ps' = selector_String ps"
proof -
  have m: "mset (map fst (match_labels ps')) = mset (map fst (match_labels ps))"
    using assms(2) by (metis mset_map)
  then have d: "distinct (map fst (match_labels ps'))"
    using assms(1) by (metis mset_eq_imp_distinct_iff)
  have "map_of (match_labels ps') = map_of (match_labels ps)"
    using assms(1,2) d by (metis map_of_inject_set mset_eq_setD)
  moreover have "sort (map fst (match_labels ps')) = sort (map fst (match_labels ps))"
    by (rule properties_for_sort) (simp_all only: m mset_sort sorted_sort)
  ultimately show ?thesis
    using assms(3) by (simp add: selector_String_def set_Get_def)
qed

lemma selector_String_head: "\<exists>t. selector_String ps = CHR ''&'' # t"
  by (simp add: selector_String_def Let_def)

section \<open>Properties\<close>

text \<open>
  C23. A selector can be built exactly when all its keys, values and operators are valid, and the
  selector that is built matches a set of labels exactly when all labels are there with their values
  and all expressions hold.
\<close>

theorem selector_meaning:
  "(case LabelSelectorAsSelector ps of
      Inr sel \<Rightarrow> valid_selector ps \<and> selector_Matches sel ls = selects ps ls
    | Inl e \<Rightarrow> \<not> valid_selector ps)"
  using LabelSelectorAsSelector_selects [of ps _ ls] LabelSelectorAsSelector_total [of ps]
  by (auto split: sum.splits)

end
