(* ===== verification/Converters.thy ===== *)
theory Converters
  imports Label_Selector
begin

text \<open>
  \<^verbatim>\<open>internal/converters\<close>: label selectors travel between clusters as protobuf messages. Both
  directions, the panic on a missing message included, and the round trips. The round trip is
  what makes the lease name and the selected pods agree between the cluster that asks and the
  cluster that answers.
\<close>

definition ConvertLabelSelectorRequirementToMetaV1 ::
    "pb_label_selector_requirement \<Rightarrow> label_selector_requirement" where
  "ConvertLabelSelectorRequirementToMetaV1 r =
     \<lparr>lsr_key = (case pb_key r of None \<Rightarrow> [] | Some k \<Rightarrow> k),
      lsr_operator = (case pb_operator r of None \<Rightarrow> [] | Some op \<Rightarrow> op),
      lsr_values = pb_values r\<rparr>"

definition ConvertLabelSelectorToMetaV1 :: "pb_label_selector option \<Rightarrow> label_selector go" where
  "ConvertLabelSelectorToMetaV1 s =
     bind_go (deref s) (\<lambda>s.
       Ok \<lparr>match_labels = pb_match_labels s,
           match_expressions = map ConvertLabelSelectorRequirementToMetaV1 (pb_match_expressions s)\<rparr>)"

definition ConvertLabelSelectorRequirementToState ::
    "label_selector_requirement \<Rightarrow> pb_label_selector_requirement" where
  "ConvertLabelSelectorRequirementToState r =
     \<lparr>pb_key = Some (lsr_key r), pb_operator = Some (lsr_operator r), pb_values = lsr_values r\<rparr>"

definition ConvertLabelSelectorToState :: "label_selector \<Rightarrow> pb_label_selector" where
  "ConvertLabelSelectorToState s =
     \<lparr>pb_match_labels = match_labels s,
      pb_match_expressions = map ConvertLabelSelectorRequirementToState (match_expressions s)\<rparr>"

lemma requirement_round_trip [simp]:
  "ConvertLabelSelectorRequirementToMetaV1 (ConvertLabelSelectorRequirementToState r) = r"
  by (simp add: ConvertLabelSelectorRequirementToMetaV1_def ConvertLabelSelectorRequirementToState_def)

lemma selector_round_trip [simp]:
  "ConvertLabelSelectorToMetaV1 (Some (ConvertLabelSelectorToState s)) = Ok s"
  by (simp add: ConvertLabelSelectorToMetaV1_def ConvertLabelSelectorToState_def comp_def)

text \<open>
  In the other direction the round trip sets the optional fields: an absent key or operator
  comes back as a present empty string.
\<close>

definition normalise_requirement ::
    "pb_label_selector_requirement \<Rightarrow> pb_label_selector_requirement" where
  "normalise_requirement r =
     r\<lparr>pb_key := Some (case pb_key r of None \<Rightarrow> [] | Some k \<Rightarrow> k),
       pb_operator := Some (case pb_operator r of None \<Rightarrow> [] | Some op \<Rightarrow> op)\<rparr>"

lemma requirement_round_trip_pb:
  "ConvertLabelSelectorRequirementToState (ConvertLabelSelectorRequirementToMetaV1 r) =
     normalise_requirement r"
  by (cases r) (simp add: ConvertLabelSelectorRequirementToMetaV1_def
      ConvertLabelSelectorRequirementToState_def normalise_requirement_def)

lemma ConvertLabelSelectorToMetaV1_None [simp]: "ConvertLabelSelectorToMetaV1 None = Panic"
  by (simp add: ConvertLabelSelectorToMetaV1_def)

lemma ConvertLabelSelectorToMetaV1_not_Err [simp]: "ConvertLabelSelectorToMetaV1 s \<noteq> Err e"
  by (cases s) (simp_all add: ConvertLabelSelectorToMetaV1_def)

end
