(* ===== verification/Lease_Name.thy ===== *)
theory Lease_Name
  imports Converters
begin

text \<open>
  \<^verbatim>\<open>internal/lock/leases.go\<close>: the identity of a lock holder, the name of the lease that guards
  a namespace and selector, and the lease object itself. The name is a base32 text of a SHA-256
  digest; both are standard library functions and are defined here in full, so the lease name of
  a concrete selector can be computed.
\<close>

unbundle bit_operations_syntax

section \<open>SHA-256\<close>

definition sha256_K :: "32 word list" where
  "sha256_K =
     [1116352408, 1899447441, 3049323471, 3921009573, 961987163, 1508970993, 2453635748, 2870763221,
      3624381080, 310598401, 607225278, 1426881987, 1925078388, 2162078206, 2614888103, 3248222580,
      3835390401, 4022224774, 264347078, 604807628, 770255983, 1249150122, 1555081692, 1996064986,
      2554220882, 2821834349, 2952996808, 3210313671, 3336571891, 3584528711, 113926993, 338241895,
      666307205, 773529912, 1294757372, 1396182291, 1695183700, 1986661051, 2177026350, 2456956037,
      2730485921, 2820302411, 3259730800, 3345764771, 3516065817, 3600352804, 4094571909, 275423344,
      430227734, 506948616, 659060556, 883997877, 958139571, 1322822218, 1537002063, 1747873779,
      1955562222, 2024104815, 2227730452, 2361852424, 2428436474, 2756734187, 3204031479, 3329325298]"

definition sha256_init :: "32 word list" where
  "sha256_init =
     [1779033703, 3144134277, 1013904242, 2773480762, 1359893119, 2600822924, 528734635, 1541459225]"

definition rotr32 :: "nat \<Rightarrow> 32 word \<Rightarrow> 32 word" where
  "rotr32 n x = (drop_bit n x) OR (push_bit (32 - n) x)"

definition be_word32 :: "8 word list \<Rightarrow> 32 word" where
  "be_word32 bs = foldl (\<lambda>w b. (push_bit 8 w) OR (ucast b)) 0 bs"

definition be_bytes32 :: "32 word \<Rightarrow> 8 word list" where
  "be_bytes32 w = [ucast (drop_bit 24 w), ucast (drop_bit 16 w), ucast (drop_bit 8 w), ucast w]"

definition be_bytes64 :: "nat \<Rightarrow> 8 word list" where
  "be_bytes64 n = map (\<lambda>i. ucast (drop_bit i (of_nat n :: 64 word))) [56, 48, 40, 32, 24, 16, 8, 0]"

definition sha256_pad :: "8 word list \<Rightarrow> 8 word list" where
  "sha256_pad m =
     (let zeros = (119 - length m mod 64) mod 64
      in m @ [0x80] @ replicate zeros 0 @ be_bytes64 (8 * length m))"

fun chunks :: "nat \<Rightarrow> 'a list \<Rightarrow> 'a list list" where
  "chunks n xs = (if n = 0 \<or> xs = [] then [] else take n xs # chunks n (drop n xs))"

declare chunks.simps [simp del]

text \<open>The message schedule: 48 further words from the first 16.\<close>

fun schedule :: "nat \<Rightarrow> 32 word list \<Rightarrow> 32 word list" where
  "schedule 0 ws = ws"
| "schedule (Suc n) ws =
     (let t = length ws;
          w15 = ws ! (t - 15); w2 = ws ! (t - 2);
          s0 = (rotr32 7 w15) XOR (rotr32 18 w15) XOR (drop_bit 3 w15);
          s1 = (rotr32 17 w2) XOR (rotr32 19 w2) XOR (drop_bit 10 w2)
      in schedule n (ws @ [ws ! (t - 16) + s0 + ws ! (t - 7) + s1]))"

fun sha256_round :: "32 word list \<Rightarrow> 32 word \<times> 32 word \<Rightarrow> 32 word list" where
  "sha256_round [a, b, c, d, e, f, g, h] (k, w) =
     (let s1 = (rotr32 6 e) XOR (rotr32 11 e) XOR (rotr32 25 e);
          ch = (e AND f) XOR ((NOT e) AND g);
          t1 = h + s1 + ch + k + w;
          s0 = (rotr32 2 a) XOR (rotr32 13 a) XOR (rotr32 22 a);
          maj = (a AND b) XOR (a AND c) XOR (b AND c);
          t2 = s0 + maj
      in [t1 + t2, a, b, c, d + t1, e, f, g])"
| "sha256_round st kw = st"

definition sha256_block :: "32 word list \<Rightarrow> 8 word list \<Rightarrow> 32 word list" where
  "sha256_block st blk =
     map2 (+) st (foldl sha256_round st (zip sha256_K (schedule 48 (map be_word32 (chunks 4 blk)))))"

definition sha256 :: "8 word list \<Rightarrow> 8 word list" where
  "sha256 m = concat (map be_bytes32 (foldl sha256_block sha256_init (chunks 64 (sha256_pad m))))"


section \<open>Base32\<close>

definition byte_bits :: "8 word \<Rightarrow> bool list" where
  "byte_bits b = map (\<lambda>i. bit b i) [7, 6, 5, 4, 3, 2, 1, 0]"

definition bits_value :: "bool list \<Rightarrow> nat" where
  "bits_value bs = foldl (\<lambda>n b. 2 * n + (if b then 1 else 0)) 0 bs"

definition base32_alphabet :: string where
  "base32_alphabet = ''ABCDEFGHIJKLMNOPQRSTUVWXYZ234567''"

text \<open>One base32 digit of five bits; a short last group is filled up with zero bits.\<close>

definition base32_char :: "bool list \<Rightarrow> char" where
  "base32_char bs = base32_alphabet ! (bits_value (take 5 (bs @ replicate 5 False)) mod 32)"

definition base32_digits :: "8 word list \<Rightarrow> string" where
  "base32_digits bs = map base32_char (chunks 5 (concat (map byte_bits bs)))"

text \<open>\<^verbatim>\<open>base32.StdEncoding.EncodeToString\<close>: padded to a multiple of eight characters.\<close>

definition base32_EncodeToString :: "8 word list \<Rightarrow> string" where
  "base32_EncodeToString bs =
     (let ds = base32_digits bs in ds @ replicate ((8 - length ds mod 8) mod 8) CHR ''='')"


section \<open>Lease names, leases and holder identities\<close>

definition string_bytes :: "string \<Rightarrow> 8 word list" where
  "string_bytes s = map (\<lambda>c. of_nat (of_char c)) s"

definition lease_hash_input :: "string \<Rightarrow> label_selector \<Rightarrow> string" where
  "lease_hash_input ns sel = ns @ selector_String sel"

definition createLeaseNameForSelector :: "string \<Rightarrow> label_selector \<Rightarrow> string" where
  "createLeaseNameForSelector ns sel =
     (let leaseHashBytes = sha256 (string_bytes (lease_hash_input ns sel));
          prefixStr = ToLower (TrimRight CHR ''='' (base32_EncodeToString (take 24 leaseHashBytes)))
      in ''xpdb-'' @ prefixStr)"

definition leaseAnnotationNamespace :: string where
  "leaseAnnotationNamespace = ''xpdb.form3.tech/pod-namespace''"

definition leaseAnnotationSelector :: string where
  "leaseAnnotationSelector = ''xpdb.form3.tech/pod-selector''"

definition LeaseDurationSeconds :: int32 where
  "LeaseDurationSeconds = 5"

text \<open>\<^verbatim>\<open>createLeaseForSelector\<close>, with the reading of \<^verbatim>\<open>time.Now()\<close> as its last argument.\<close>

definition createLeaseForSelector ::
    "string \<Rightarrow> string \<Rightarrow> string \<Rightarrow> label_selector \<Rightarrow> int \<Rightarrow> lease" where
  "createLeaseForSelector leaseNamespace leaseHolderIdentity ns sel now =
     \<lparr>lease_name = createLeaseNameForSelector ns sel,
      lease_namespace = leaseNamespace,
      lease_resourceVersion = [],
      lease_annotations =
        [(leaseAnnotationNamespace, ns), (leaseAnnotationSelector, selector_String sel)],
      lease_labels = [(''app'', ''x-pdb'')],
      lease_holderIdentity = Some leaseHolderIdentity,
      lease_acquireTime = Some now,
      lease_durationSeconds = Some LeaseDurationSeconds\<rparr>"

text \<open>\<^verbatim>\<open>CreateLeaseHolderIdentity\<close>; the fresh UUID is the last argument.\<close>

definition CreateLeaseHolderIdentity ::
    "string \<Rightarrow> string \<Rightarrow> string \<Rightarrow> string \<Rightarrow> string \<Rightarrow> string" where
  "CreateLeaseHolderIdentity clusterID xpdbPodID podNamespace podName uuid =
     clusterID @ ''/'' @ xpdbPodID @ ''/'' @ podNamespace @ ''/'' @ podName @ ''/'' @ uuid"


section \<open>Shape of a lease name\<close>

lemma length_sha256_round: "length (sha256_round st kw) = length st"
  by (cases "(st, kw)" rule: sha256_round.cases) (auto simp: Let_def)

lemma length_foldl_inv: "(\<And>st x. length (f st x) = length st) \<Longrightarrow> length (foldl f st xs) = length st"
  by (induction xs arbitrary: st) auto

lemma length_sha256_block: "length (sha256_block st blk) = length st"
  by (simp add: sha256_block_def length_foldl_inv length_sha256_round)

lemma length_sha256 [simp]: "length (sha256 m) = 32"
proof -
  define ws where "ws = foldl sha256_block sha256_init (chunks 64 (sha256_pad m))"
  have "length ws = length sha256_init"
    unfolding ws_def by (rule length_foldl_inv) (rule length_sha256_block)
  then have "length ws = 8" by (simp add: sha256_init_def)
  moreover have "length (concat (map be_bytes32 vs)) = 4 * length vs" for vs
    by (induction vs) (auto simp: be_bytes32_def)
  ultimately show ?thesis by (simp add: sha256_def ws_def)
qed

lemma chunks_Nil [simp]: "chunks n [] = []"
  by (simp add: chunks.simps)

lemma length_chunks: "0 < n \<Longrightarrow> length (chunks n xs) = (length xs + n - 1) div n"
proof (induction n xs rule: chunks.induct)
  case (1 n xs)
  show ?case
  proof (cases "xs = []")
    case True
    with 1 show ?thesis by (subst chunks.simps) simp
  next
    case False
    with 1 have IH: "length (chunks n (drop n xs)) = (length xs - n + n - 1) div n" by simp
    have unfold: "length (chunks n xs) = Suc (length (chunks n (drop n xs)))"
      using False 1 by (subst chunks.simps) simp
    show ?thesis
    proof (cases "length xs \<le> n")
      case True
      have "1 \<le> length xs" using False by (cases xs) auto
      with True have "n * 1 \<le> length xs + n - 1 \<and> length xs + n - 1 < n * Suc 1" by auto
      then have "(length xs + n - 1) div n = 1" by (intro div_nat_eqI) auto
      with True show ?thesis by (simp add: unfold)
    next
      case longer: False
      have "(length xs + n - 1) div n = (length xs - 1 + n) div n" using longer by simp
      also have "\<dots> = Suc ((length xs - 1) div n)" using 1(2) by simp
      finally show ?thesis using longer by (simp add: unfold IH)
    qed
  qed
qed

lemma length_bits: "length (concat (map byte_bits bs)) = 8 * length bs"
  by (induction bs) (auto simp: byte_bits_def)

lemma base32_char_alphabet: "base32_char bs \<in> set base32_alphabet"
proof -
  have "length base32_alphabet = 32" by (simp add: base32_alphabet_def)
  then show ?thesis unfolding base32_char_def by (simp add: nth_mem)
qed

lemma length_base32_digits: "length (base32_digits bs) = (8 * length bs + 4) div 5"
  by (simp add: base32_digits_def length_chunks length_bits)

lemma base32_digits_alphabet: "set (base32_digits bs) \<subseteq> set base32_alphabet"
  by (auto simp: base32_digits_def base32_char_alphabet)

lemma base32_alphabet_lower: "c \<in> set base32_alphabet \<Longrightarrow> dns1123_char (to_lower_char c)"
proof -
  have "list_all (\<lambda>c. dns1123_char (to_lower_char c)) base32_alphabet" by code_simp
  then show "c \<in> set base32_alphabet \<Longrightarrow> ?thesis" by (simp add: list_all_iff)
qed

lemma TrimRight_replicate: "c \<notin> set s \<Longrightarrow> TrimRight c (s @ replicate k c) = s"
proof -
  assume "c \<notin> set s"
  moreover have "dropWhile (\<lambda>x. x = c) (replicate k c @ rev s) = dropWhile (\<lambda>x. x = c) (rev s)"
    by (induction k) auto
  moreover have "dropWhile (\<lambda>x. x = c) (rev s) = rev s" if "c \<notin> set s"
    using that by (auto simp: dropWhile_eq_self_iff hd_rev)
  ultimately show ?thesis by (simp add: TrimRight_def)
qed

lemma createLeaseNameForSelector_digits:
  "createLeaseNameForSelector ns sel =
     ''xpdb-'' @ ToLower (base32_digits (take 24 (sha256 (string_bytes (lease_hash_input ns sel)))))"
proof -
  define bs where "bs = take 24 (sha256 (string_bytes (lease_hash_input ns sel)))"
  have "CHR ''='' \<notin> set base32_alphabet" by (simp add: base32_alphabet_def)
  then have "CHR ''='' \<notin> set (base32_digits bs)" using base32_digits_alphabet by blast
  then have "TrimRight CHR ''='' (base32_EncodeToString bs) = base32_digits bs"
    by (simp add: base32_EncodeToString_def Let_def TrimRight_replicate)
  then show ?thesis by (simp add: createLeaseNameForSelector_def Let_def bs_def)
qed

text \<open>The text of the digest: exactly 39 characters, lower-case letters and digits.\<close>

lemma createLeaseNameForSelector_shape:
  "\<exists>p. createLeaseNameForSelector ns sel = ''xpdb-'' @ p \<and> length p = 39 \<and> list_all dns1123_char p"
proof -
  define bs where "bs = take 24 (sha256 (string_bytes (lease_hash_input ns sel)))"
  define p where "p = ToLower (base32_digits bs)"
  have len: "length bs = 24" by (simp add: bs_def)
  have "createLeaseNameForSelector ns sel = ''xpdb-'' @ p"
    by (simp add: createLeaseNameForSelector_digits bs_def p_def)
  moreover have "length p = 39" by (simp add: p_def ToLower_def length_base32_digits len)
  moreover have "list_all dns1123_char p"
    using base32_digits_alphabet base32_alphabet_lower
    by (auto simp: p_def ToLower_def list_all_iff)
  ultimately show ?thesis by blast
qed

lemma createLeaseNameForSelector_not_Nil [simp]: "createLeaseNameForSelector ns sel \<noteq> []"
  using createLeaseNameForSelector_shape [of ns sel] by auto

lemma createLeaseForSelector_key [simp]:
  "ObjectKeyFromObject (createLeaseForSelector lns h ns sel t) =
     (lns, createLeaseNameForSelector ns sel)"
  by (simp add: createLeaseForSelector_def ObjectKeyFromObject_def)

lemma createLeaseForSelector_fields [simp]:
  "lease_name (createLeaseForSelector lns h ns sel t) = createLeaseNameForSelector ns sel"
  "lease_namespace (createLeaseForSelector lns h ns sel t) = lns"
  "lease_resourceVersion (createLeaseForSelector lns h ns sel t) = []"
  "lease_holderIdentity (createLeaseForSelector lns h ns sel t) = Some h"
  "lease_acquireTime (createLeaseForSelector lns h ns sel t) = Some t"
  "lease_durationSeconds (createLeaseForSelector lns h ns sel t) = Some LeaseDurationSeconds"
  by (simp_all add: createLeaseForSelector_def)


section \<open>What the hash distinguishes\<close>

text \<open>
  The namespace and the printed selector are hashed one after the other without a separator.
  No ambiguity arises, because the printed selector begins with an ampersand, which a namespace
  cannot contain.
\<close>

lemma append_sep_inject:
  "c \<notin> set xs \<Longrightarrow> c \<notin> set ys \<Longrightarrow> xs @ c # as = ys @ c # bs \<Longrightarrow> xs = ys \<and> as = bs"
proof (induction xs arbitrary: ys)
  case Nil
  then show ?case by (cases ys) auto
next
  case (Cons x xs)
  then show ?case by (cases ys) auto
qed

lemma lease_hash_input_inject:
  assumes "CHR ''&'' \<notin> set ns" "CHR ''&'' \<notin> set ns'"
    "lease_hash_input ns sel = lease_hash_input ns' sel'"
  shows "ns = ns' \<and> selector_String sel = selector_String sel'"
proof -
  obtain t t' where t: "selector_String sel = CHR ''&'' # t" "selector_String sel' = CHR ''&'' # t'"
    using selector_String_head by metis
  with assms show ?thesis
    using append_sep_inject [of "CHR ''&''" ns ns' t t'] by (simp add: lease_hash_input_def)
qed

text \<open>Two requests with different UUIDs never share a holder identity.\<close>

lemma CreateLeaseHolderIdentity_uuid:
  assumes "CHR ''/'' \<notin> set u" "CHR ''/'' \<notin> set u'"
    "CreateLeaseHolderIdentity c p ns n u = CreateLeaseHolderIdentity c' p' ns' n' u'"
  shows "u = u'"
proof -
  have "rev u @ CHR ''/'' # rev (c @ ''/'' @ p @ ''/'' @ ns @ ''/'' @ n) =
        rev u' @ CHR ''/'' # rev (c' @ ''/'' @ p' @ ''/'' @ ns' @ ''/'' @ n')"
    using arg_cong [OF assms(3), of rev] by (simp add: CreateLeaseHolderIdentity_def)
  then have "rev u = rev u'" using append_sep_inject [of "CHR ''/''" "rev u" "rev u'"] assms(1,2) by auto
  then show ?thesis by simp
qed

section \<open>Properties\<close>

text \<open>
  C35. The name of a lease is \<open>xpdb-\<close> followed by 39 lower-case letters or digits, for every namespace
  and selector: a valid name of a Kubernetes object.
\<close>

theorem lease_name_is_valid:
  "IsDNS1123Subdomain (createLeaseNameForSelector ns sel) = [] \<and>
   length (createLeaseNameForSelector ns sel) = 44"
proof -
  obtain p where p: "createLeaseNameForSelector ns sel = ''xpdb-'' @ p" "length p = 39" "list_all dns1123_char p"
    using createLeaseNameForSelector_shape by blast
  have no_dot: "CHR ''.'' \<notin> set (createLeaseNameForSelector ns sel)"
    using p(1,3) by (auto simp: list_all_iff dns1123_char_def is_lower_def is_digit_def)
  have "p \<noteq> []" using p(2) by auto
  then have "dns1123Label_match (createLeaseNameForSelector ns sel)"
    using p(1,3) by (auto simp: dns1123Label_match_def list_all_iff dns1123_char_def is_lower_def)
  then show ?thesis
    using p(1,2) split_on_no_sep [OF no_dot] by (simp add: IsDNS1123Subdomain_def dns1123Subdomain_match_def)
qed

text \<open>
  Two selectors that differ only in the order of their labels have the same lease in a namespace:
  the name does not depend on the iteration order of a Go map, in any cluster.
\<close>

theorem lease_name_ignores_label_order:
  assumes "distinct (map fst (match_labels sel))" "mset (match_labels sel') = mset (match_labels sel)"
    and "match_expressions sel' = match_expressions sel"
  shows "createLeaseNameForSelector ns sel' = createLeaseNameForSelector ns sel"
  using selector_String_order [OF assms] by (simp add: createLeaseNameForSelector_def lease_hash_input_def)

theorem lease_name_ignores_label_order_witness:
  "createLeaseNameForSelector ''shop'' \<lparr>match_labels = [(''b'', ''2''), (''a'', ''1'')], match_expressions = []\<rparr> =
   createLeaseNameForSelector ''shop'' \<lparr>match_labels = [(''a'', ''1''), (''b'', ''2'')], match_expressions = []\<rparr>"
  by (rule lease_name_ignores_label_order) simp_all

text \<open>
  Two requests never share a holder identity: identities made with different UUIDs are different,
  whatever the clusters, pods and names.
\<close>

theorem holder_identities_differ:
  assumes "CHR ''/'' \<notin> set u" "CHR ''/'' \<notin> set u'" "u \<noteq> u'"
  shows "CreateLeaseHolderIdentity c p ns n u \<noteq> CreateLeaseHolderIdentity c' p' ns' n' u'"
  using CreateLeaseHolderIdentity_uuid [OF assms(1,2)] assms(3) by blast

theorem holder_identities_differ_witness:
  "CreateLeaseHolderIdentity ''a'' ''x-pdb-0'' ''shop'' ''db-0'' ''uuid-1'' \<noteq>
   CreateLeaseHolderIdentity ''a'' ''x-pdb-0'' ''shop'' ''db-0'' ''uuid-2''"
  by (rule holder_identities_differ) simp_all

end
