(* ===== verification/Lease_Api.thy ===== *)
theory Lease_Api
  imports Lease_Name
begin

text \<open>
  The Kubernetes API as the lock service sees it: four requests on lease objects. The API server
  is not part of the repository, so it is a parameter, a record of the four requests over an
  opaque server state, and what the program relies on is stated as the laws of two locales:
  \<^item> \<open>lease_store\<close>: what the answers mean. A request the server rejects or that fails in transit may
    still have been carried out, so only the requested change is allowed as a side effect.
  \<^item> \<open>served_store\<close>: in addition every request is answered and carried out.
  The in-memory client that the repository's own unit tests run the service against
  (\<^verbatim>\<open>fake.NewClientBuilder\<close> of the vendored controller-runtime) is translated and shown to
  satisfy both.
\<close>

record 's lease_client =
  lc_create :: "lease \<Rightarrow> 's \<Rightarrow> api_error option \<times> 's"
  lc_get :: "object_key \<Rightarrow> 's \<Rightarrow> api_error + lease"
  lc_update :: "lease \<Rightarrow> 's \<Rightarrow> api_error option \<times> 's"
  lc_delete :: "object_key \<Rightarrow> 's \<Rightarrow> api_error option \<times> 's"

text \<open>
  \<^verbatim>\<open>metav1.MicroTime\<close> is written with microsecond precision, so a time that went through the API
  is cut to whole microseconds.
\<close>

definition micro :: "int \<Rightarrow> int" where
  "micro t = t - t mod 1000"

lemma micro_le: "micro t \<le> t"
  by (simp add: micro_def)

lemma micro_gt: "t - 1000 < micro t"
  by (simp add: micro_def)

lemma micro_idem [simp]: "micro (micro t) = micro t"
  by (simp add: micro_def mod_diff_left_eq)

definition on_wire :: "lease \<Rightarrow> lease" where
  "on_wire l = l\<lparr>lease_acquireTime := map_option micro (lease_acquireTime l)\<rparr>"

lemma on_wire_fields [simp]:
  "lease_name (on_wire l) = lease_name l"
  "lease_namespace (on_wire l) = lease_namespace l"
  "lease_resourceVersion (on_wire l) = lease_resourceVersion l"
  "lease_holderIdentity (on_wire l) = lease_holderIdentity l"
  "lease_durationSeconds (on_wire l) = lease_durationSeconds l"
  "lease_acquireTime (on_wire l) = map_option micro (lease_acquireTime l)"
  "ObjectKeyFromObject (on_wire l) = ObjectKeyFromObject l"
  by (simp_all add: on_wire_def)

text \<open>The object the server keeps for a written lease: the written fields with a version of its own.\<close>

definition written :: "lease \<Rightarrow> string \<Rightarrow> lease" where
  "written l rv = on_wire (l\<lparr>lease_resourceVersion := rv\<rparr>)"

lemma written_fields [simp]:
  "lease_name (written l rv) = lease_name l"
  "lease_namespace (written l rv) = lease_namespace l"
  "lease_resourceVersion (written l rv) = rv"
  "lease_holderIdentity (written l rv) = lease_holderIdentity l"
  "lease_durationSeconds (written l rv) = lease_durationSeconds l"
  "lease_acquireTime (written l rv) = map_option micro (lease_acquireTime l)"
  "ObjectKeyFromObject (written l rv) = ObjectKeyFromObject l"
  by (simp_all add: written_def)


section \<open>The contract of the API server\<close>

locale lease_store =
  fixes c :: "'s lease_client"
    and stored :: "'s \<Rightarrow> object_key \<Rightarrow> lease option"
    and wf :: "'s \<Rightarrow> bool"
  assumes create_ok: "wf s \<Longrightarrow> lc_create c l s = (None, s') \<Longrightarrow>
      stored s (ObjectKeyFromObject l) = None \<and>
      (\<exists>rv. stored s' = (stored s)(ObjectKeyFromObject l \<mapsto> written l rv))"
    and create_exists: "wf s \<Longrightarrow> lc_create c l s = (Some e, s') \<Longrightarrow> IsAlreadyExists e \<Longrightarrow>
      stored s (ObjectKeyFromObject l) \<noteq> None \<and> stored s' = stored s"
    and create_failed: "wf s \<Longrightarrow> lc_create c l s = (Some e, s') \<Longrightarrow>
      stored s' = stored s \<or>
      stored s (ObjectKeyFromObject l) = None \<and>
      (\<exists>rv. stored s' = (stored s)(ObjectKeyFromObject l \<mapsto> written l rv))"
    and get_ok: "wf s \<Longrightarrow> lc_get c k s = Inr l \<Longrightarrow> stored s k = Some l"
    and get_missing: "wf s \<Longrightarrow> lc_get c k s = Inl e \<Longrightarrow> IsNotFound e \<Longrightarrow> stored s k = None"
    and stored_key: "wf s \<Longrightarrow> stored s k = Some l \<Longrightarrow> ObjectKeyFromObject l = k"
    and update_ok: "wf s \<Longrightarrow> lc_update c l s = (None, s') \<Longrightarrow>
      (\<exists>old. stored s (ObjectKeyFromObject l) = Some old \<and>
             lease_resourceVersion old = lease_resourceVersion l) \<and>
      (\<exists>rv. stored s' = (stored s)(ObjectKeyFromObject l \<mapsto> written l rv))"
    and update_failed: "wf s \<Longrightarrow> lc_update c l s = (Some e, s') \<Longrightarrow>
      stored s' = stored s \<or>
      (\<exists>old. stored s (ObjectKeyFromObject l) = Some old \<and>
             lease_resourceVersion old = lease_resourceVersion l) \<and>
      (\<exists>rv. stored s' = (stored s)(ObjectKeyFromObject l \<mapsto> written l rv))"
    and delete_ok: "wf s \<Longrightarrow> lc_delete c k s = (None, s') \<Longrightarrow> stored s' = (stored s)(k := None)"
    and delete_failed: "wf s \<Longrightarrow> lc_delete c k s = (Some e, s') \<Longrightarrow>
      stored s' = stored s \<or> stored s' = (stored s)(k := None)"
    and wf_create: "wf s \<Longrightarrow> wf (snd (lc_create c l s))"
    and wf_update: "wf s \<Longrightarrow> wf (snd (lc_update c l s))"
    and wf_delete: "wf s \<Longrightarrow> wf (snd (lc_delete c k s))"
begin

text \<open>Requests about one lease leave every other lease alone.\<close>

lemma create_frame:
  "wf s \<Longrightarrow> k \<noteq> ObjectKeyFromObject l \<Longrightarrow> stored (snd (lc_create c l s)) k = stored s k"
  by (cases "lc_create c l s"; cases "fst (lc_create c l s)")
    (auto dest: create_ok create_failed)

lemma update_frame:
  "wf s \<Longrightarrow> k \<noteq> ObjectKeyFromObject l \<Longrightarrow> stored (snd (lc_update c l s)) k = stored s k"
  by (cases "lc_update c l s"; cases "fst (lc_update c l s)")
    (auto dest: update_ok update_failed)

lemma delete_frame: "wf s \<Longrightarrow> k' \<noteq> k \<Longrightarrow> stored (snd (lc_delete c k s)) k' = stored s k'"
  by (cases "lc_delete c k s"; cases "fst (lc_delete c k s)")
    (auto dest: delete_ok delete_failed)

end

text \<open>A server that answers every well-formed request.\<close>

locale served_store = lease_store +
  assumes served_create: "wf s \<Longrightarrow> lease_name l \<noteq> [] \<Longrightarrow> lease_resourceVersion l = [] \<Longrightarrow>
      stored s (ObjectKeyFromObject l) = None \<Longrightarrow> fst (lc_create c l s) = None"
    and served_create_exists: "wf s \<Longrightarrow> lease_name l \<noteq> [] \<Longrightarrow> lease_resourceVersion l = [] \<Longrightarrow>
      stored s (ObjectKeyFromObject l) \<noteq> None \<Longrightarrow>
      \<exists>e. fst (lc_create c l s) = Some e \<and> IsAlreadyExists e"
    and served_get: "wf s \<Longrightarrow> stored s k = Some l \<Longrightarrow> lc_get c k s = Inr l"
    and served_get_missing: "wf s \<Longrightarrow> stored s k = None \<Longrightarrow> \<exists>e. lc_get c k s = Inl e \<and> IsNotFound e"
    and served_update: "wf s \<Longrightarrow> lease_name l \<noteq> [] \<Longrightarrow> stored s (ObjectKeyFromObject l) = Some old \<Longrightarrow>
      lease_resourceVersion l = lease_resourceVersion old \<Longrightarrow> fst (lc_update c l s) = None"
    and served_delete: "wf s \<Longrightarrow> stored s k \<noteq> None \<Longrightarrow> fst (lc_delete c k s) = None"


section \<open>The in-memory client of the unit tests\<close>

type_synonym tracker = "object_key \<Rightarrow> lease option"

definition lease_resource :: string where
  "lease_resource = ''leases.coordination.k8s.io''"

definition name_required :: api_error where
  "name_required = OtherApi ('' '' @ Quote [] @ '' is invalid: metadata.name: Required value: name is required'')"

text \<open>
  \<^verbatim>\<open>fakeClient.Create\<close>, \<^verbatim>\<open>versionedTracker.Create\<close> and \<^verbatim>\<open>tracker.add\<close> without replacing: a new
  object gets version 1.
\<close>

definition fake_create :: "lease \<Rightarrow> tracker \<Rightarrow> api_error option \<times> tracker" where
  "fake_create l s =
     (if lease_name l = [] then (Some name_required, s)
      else if lease_resourceVersion l \<noteq> [] then
        (Some (OtherApi ''resourceVersion can not be set for Create requests''), s)
      else if s (ObjectKeyFromObject l) \<noteq> None then
        (Some (AlreadyExists (lease_resource @ '' '' @ Quote (lease_name l) @ '' already exists'')), s)
      else (None, s(ObjectKeyFromObject l \<mapsto> l\<lparr>lease_resourceVersion := ''1''\<rparr>)))"

text \<open>\<^verbatim>\<open>fakeClient.Get\<close>: the stored object, through JSON.\<close>

definition fake_get :: "object_key \<Rightarrow> tracker \<Rightarrow> api_error + lease" where
  "fake_get k s =
     (case s k of
        None \<Rightarrow> Inl (NotFound (lease_resource @ '' '' @ Quote (snd k) @ '' not found''))
      | Some l \<Rightarrow> Inr (on_wire l))"

definition ParseUint :: "string \<Rightarrow> nat option" where
  "ParseUint s =
     (if s = [] \<or> \<not> list_all is_digit s \<or> 2 ^ 64 \<le> digits_value s then None
      else Some (digits_value s))"

text \<open>
  \<^verbatim>\<open>fakeClient.Update\<close>, \<^verbatim>\<open>versionedTracker.updateObject\<close> and \<^verbatim>\<open>tracker.add\<close> replacing: the version
  must be the stored one and is increased. (Leases allow neither unconditional updates nor
  creation on update there: both lists name the group \<^verbatim>\<open>coordination\<close>, and the group of leases is
  \<^verbatim>\<open>coordination.k8s.io\<close>.)
\<close>

definition fake_update :: "lease \<Rightarrow> tracker \<Rightarrow> api_error option \<times> tracker" where
  "fake_update l s =
     (if lease_name l = [] then (Some name_required, s)
      else case s (ObjectKeyFromObject l) of
          None \<Rightarrow> (Some (NotFound (lease_resource @ '' '' @ Quote (lease_name l) @ '' not found'')), s)
        | Some old \<Rightarrow>
            if lease_resourceVersion l \<noteq> lease_resourceVersion old then
              (Some (Conflict (''Operation cannot be fulfilled on '' @ lease_resource @ '' '' @
                 Quote (lease_name l) @ '': object was modified'')), s)
            else
              (let oldRV = (if lease_resourceVersion old = [] then ''0'' else lease_resourceVersion old)
               in case ParseUint oldRV of
                    None \<Rightarrow> (Some (OtherApi (''can not convert resourceVersion '' @ Quote oldRV @ '' to int'')), s)
                  | Some n \<Rightarrow>
                      (None, s(ObjectKeyFromObject l \<mapsto>
                         l\<lparr>lease_resourceVersion := format_nat ((n + 1) mod 2 ^ 64)\<rparr>))))"

text \<open>\<^verbatim>\<open>fakeClient.Delete\<close> without preconditions: leases have no finalizers.\<close>

definition fake_delete :: "object_key \<Rightarrow> tracker \<Rightarrow> api_error option \<times> tracker" where
  "fake_delete k s =
     (if s k = None then (Some (NotFound (lease_resource @ '' '' @ Quote (snd k) @ '' not found'')), s)
      else (None, s(k := None)))"

definition fake_client :: "tracker lease_client" where
  "fake_client =
     \<lparr>lc_create = fake_create, lc_get = fake_get, lc_update = fake_update, lc_delete = fake_delete\<rparr>"

definition fake_stored :: "tracker \<Rightarrow> object_key \<Rightarrow> lease option" where
  "fake_stored s k = map_option on_wire (s k)"

text \<open>Objects are filed under their own key and carry a numeric version.\<close>

definition fake_wf :: "tracker \<Rightarrow> bool" where
  "fake_wf s \<longleftrightarrow>
     (\<forall>k l. s k = Some l \<longrightarrow>
        ObjectKeyFromObject l = k \<and> (\<exists>n < 2 ^ 64. lease_resourceVersion l = format_nat n))"

lemma fake_client_simps [simp]:
  "lc_create fake_client = fake_create" "lc_get fake_client = fake_get"
  "lc_update fake_client = fake_update" "lc_delete fake_client = fake_delete"
  by (simp_all add: fake_client_def)

lemma ParseUint_format_nat: "n < 2 ^ 64 \<Longrightarrow> ParseUint (format_nat n) = Some n"
  by (simp add: ParseUint_def format_nat_not_Nil format_nat_digits digits_value_format_nat)

lemma fake_stored_upd [simp]:
  "fake_stored (s(k \<mapsto> l)) = (fake_stored s)(k \<mapsto> on_wire l)"
  "fake_stored (s(k := None)) = (fake_stored s)(k := None)"
  by (auto simp: fake_stored_def)

lemma fake_stored_iff [simp]:
  "fake_stored s k = None \<longleftrightarrow> s k = None"
  "fake_stored s k = Some l \<longleftrightarrow> (\<exists>l'. s k = Some l' \<and> l = on_wire l')"
  by (auto simp: fake_stored_def)

lemma one_format_nat: "''1'' = format_nat 1"
  by code_simp

lemma fake_wf_version:
  assumes "fake_wf s" "s k = Some l"
  shows "lease_resourceVersion l \<noteq> [] \<and> (\<exists>n. ParseUint (lease_resourceVersion l) = Some n)"
proof -
  obtain n where "n < 2 ^ 64" "lease_resourceVersion l = format_nat n"
    using assms unfolding fake_wf_def by blast
  then show ?thesis using ParseUint_format_nat by (auto simp: format_nat_not_Nil)
qed

lemma fake_wf_update:
  assumes "fake_wf s" "n < 2 ^ 64"
  shows "fake_wf (s(ObjectKeyFromObject l \<mapsto> l\<lparr>lease_resourceVersion := format_nat n\<rparr>))"
  using assms by (auto simp: fake_wf_def)

lemma fake_create_wf: "fake_wf s \<Longrightarrow> fake_wf (snd (fake_create l s))"
  using fake_wf_update [of s 1 l] by (auto simp: fake_create_def one_format_nat)

lemma fake_update_wf: "fake_wf s \<Longrightarrow> fake_wf (snd (fake_update l s))"
  by (auto simp: fake_update_def Let_def split: option.split intro!: fake_wf_update)

lemma fake_delete_wf: "fake_wf s \<Longrightarrow> fake_wf (snd (fake_delete k s))"
  by (auto simp: fake_delete_def fake_wf_def)

interpretation fake: served_store fake_client fake_stored fake_wf
proof (unfold_locales, goal_cases)
  case (1 s l s')
  then show ?case by (auto simp: fake_create_def written_def split: if_splits)
next
  case (2 s l e s')
  then show ?case by (auto simp: fake_create_def name_required_def split: if_splits)
next
  case (3 s l e s')
  then show ?case by (auto simp: fake_create_def split: if_splits)
next
  case (4 s k l)
  then show ?case by (auto simp: fake_get_def split: option.splits)
next
  case (5 s k e)
  then show ?case by (auto simp: fake_get_def split: option.splits)
next
  case (6 s k l)
  then show ?case by (cases k) (auto simp: fake_wf_def)
next
  case (7 s l s')
  then show ?case
    by (auto simp: fake_update_def written_def Let_def split: if_splits option.splits)
next
  case (8 s l e s')
  then show ?case by (auto simp: fake_update_def Let_def split: if_splits option.splits)
next
  case (9 s k s')
  then show ?case by (auto simp: fake_delete_def split: if_splits)
next
  case (10 s k e s')
  then show ?case by (auto simp: fake_delete_def split: if_splits)
next
  case (11 s l)
  then show ?case by (simp add: fake_create_wf)
next
  case (12 s l)
  then show ?case by (simp add: fake_update_wf)
next
  case (13 s k)
  then show ?case by (simp add: fake_delete_wf)
next
  case (16 s k)
  then show ?case by (auto simp: fake_get_def)
next
  case (18 s l old)
  then show ?case using fake_wf_version [of s] by (fastforce simp: fake_update_def Let_def)
qed (auto simp: fake_create_def fake_get_def fake_delete_def)

end
