(* ===== verification/Client_Pool.thy ===== *)
theory Client_Pool
  imports Kube_Types
begin

text \<open>
  The two caches of gRPC clients, \<^verbatim>\<open>internal/state/client\<close> and
  \<^verbatim>\<open>internal/disruptionprobe/client_pool.go\<close>, and the task pool that fans a call out to all
  clusters (the vendored \<^verbatim>\<open>conc/pool\<close>). Certificates, files and connections are the environment of
  a dial and are parameters. Both caches satisfy the contract \<open>client_cache\<close>: an endpoint that has
  a client keeps it, a failed dial is not remembered.
\<close>

section \<open>Dialling\<close>

text \<open>
  The environment of a dial: \<^verbatim>\<open>certwatcher.New\<close>, \<^verbatim>\<open>os.ReadFile\<close>, \<^verbatim>\<open>AppendCertsFromPEM\<close> and
  \<^verbatim>\<open>grpc.NewClient\<close>.
\<close>

record 'c dial_env =
  de_certwatcher :: "string \<Rightarrow> string \<Rightarrow> go_err option"
  de_readFile :: "string \<Rightarrow> go_err + string"
  de_appendCerts :: "string \<Rightarrow> bool"
  de_grpcNewClient :: "string \<Rightarrow> go_err + 'c"

text \<open>
  A pool: the clients by endpoint, the certificate directory, and the number of certificate
  watchers started (each runs until the context of the pool ends).
\<close>

record 'c client_pool =
  cp_clients :: "string \<Rightarrow> 'c option"
  cp_certsDir :: string
  cp_watchers :: nat

definition NewClientPool :: "string \<Rightarrow> 'c client_pool" where
  "NewClientPool certsDir = \<lparr>cp_clients = Map.empty, cp_certsDir = certsDir, cp_watchers = 0\<rparr>"

text \<open>The pool of probe clients, which starts no certificate watchers.\<close>

definition probe_NewClientPool :: "string \<Rightarrow> 'c client_pool" where
  "probe_NewClientPool certsDir = \<lparr>cp_clients = Map.empty, cp_certsDir = certsDir, cp_watchers = 0\<rparr>"

text \<open>The part both \<^verbatim>\<open>newClient\<close> functions share: the CA file and the connection.\<close>

definition dial_with_ca :: "'c dial_env \<Rightarrow> string \<Rightarrow> string \<Rightarrow> go_err + 'c" where
  "dial_with_ca env certsDir endpoint =
     (case de_readFile env (path_Join [certsDir, ''ca.crt'']) of
        Inl e \<Rightarrow> Inl (EWrap ''failed to read client CA cert'' e)
      | Inr clientCABytes \<Rightarrow>
          if \<not> de_appendCerts env clientCABytes
          then Inl (EMsg ''failed to append client CA cert to CA pool'')
          else de_grpcNewClient env endpoint)"

text \<open>\<^verbatim>\<open>internal/state/client\<close>: a certificate watcher is started before the CA file is read.\<close>

definition state_newClient ::
    "'c dial_env \<Rightarrow> 'c client_pool \<Rightarrow> string \<Rightarrow> (go_err + 'c) \<times> 'c client_pool" where
  "state_newClient env p endpoint =
     (case de_certwatcher env (path_Join [cp_certsDir p, ''tls.crt'']) (path_Join [cp_certsDir p, ''tls.key'']) of
        Some e \<Rightarrow> (Inl (EWrap ''error creating cert watcher'' e), p)
      | None \<Rightarrow>
          (dial_with_ca env (cp_certsDir p) endpoint, p\<lparr>cp_watchers := cp_watchers p + 1\<rparr>))"

definition probe_newClient ::
    "'c dial_env \<Rightarrow> 'c client_pool \<Rightarrow> string \<Rightarrow> (go_err + 'c) \<times> 'c client_pool" where
  "probe_newClient env p endpoint = (dial_with_ca env (cp_certsDir p) endpoint, p)"


section \<open>The caches\<close>

definition state_pool_Get ::
    "'c dial_env \<Rightarrow> 'c client_pool \<Rightarrow> string \<Rightarrow> (go_err + 'c) \<times> 'c client_pool" where
  "state_pool_Get env p endpoint =
     (case cp_clients p endpoint of
        Some c \<Rightarrow> (Inr c, p)
      | None \<Rightarrow>
          (case state_newClient env p endpoint of
             (Inl e, p1) \<Rightarrow> (Inl e, p1)
           | (Inr c, p1) \<Rightarrow> (Inr c, p1\<lparr>cp_clients := (cp_clients p1)(endpoint \<mapsto> c)\<rparr>)))"

definition probe_pool_Get ::
    "'c dial_env \<Rightarrow> 'c client_pool \<Rightarrow> string \<Rightarrow> (go_err + 'c) \<times> 'c client_pool" where
  "probe_pool_Get env p endpoint =
     (case cp_clients p endpoint of
        Some c \<Rightarrow> (Inr c, p)
      | None \<Rightarrow>
          (case probe_newClient env p endpoint of
             (Inl e, p1) \<Rightarrow> (Inl e, p1)
           | (Inr c, p1) \<Rightarrow> (Inr c, p1\<lparr>cp_clients := (cp_clients p1)(endpoint \<mapsto> c)\<rparr>)))"

text \<open>The pool after a sequence of lookups, each in its own environment.\<close>

definition after_gets ::
    "('e \<Rightarrow> 'p \<Rightarrow> string \<Rightarrow> (go_err + 'c) \<times> 'p) \<Rightarrow> ('e \<times> string) list \<Rightarrow> 'p \<Rightarrow> 'p" where
  "after_gets pget gets p = foldl (\<lambda>p (env, e). snd (pget env p e)) p gets"

text \<open>The contract of a client cache.\<close>

locale client_cache =
  fixes pget :: "'e \<Rightarrow> 'p \<Rightarrow> string \<Rightarrow> (go_err + 'c) \<times> 'p"
    and cached :: "'p \<Rightarrow> string \<Rightarrow> 'c option"
  assumes hit: "cached p e = Some c \<Longrightarrow> pget env p e = (Inr c, p)"
    and miss_ok: "cached p e = None \<Longrightarrow> pget env p e = (Inr c, p') \<Longrightarrow> cached p' = (cached p)(e \<mapsto> c)"
    and miss_err: "pget env p e = (Inl err, p') \<Longrightarrow> cached p' = cached p"
begin

lemma get_caches: "pget env p e = (Inr c, p') \<Longrightarrow> cached p' e = Some c"
  using hit [of p e] miss_ok [of p e env c p'] by (cases "cached p e") auto

lemma get_keeps: "cached p e = Some c \<Longrightarrow> cached (snd (pget env p e')) e = Some c"
proof -
  assume c: "cached p e = Some c"
  obtain r p' where g: "pget env p e' = (r, p')" by fastforce
  consider err where "r = Inl err" | d where "r = Inr d" "cached p e' = None"
    | d where "cached p e' = Some d" by (cases r; cases "cached p e'") auto
  then show ?thesis
  proof cases
    case 1
    with g c show ?thesis using miss_err by simp
  next
    case (2 d)
    with g c show ?thesis using miss_ok [of p e' env d p'] by auto
  next
    case (3 d)
    with c show ?thesis using hit [of p e' d env] by simp
  qed
qed

lemma after_keeps: "cached p e = Some c \<Longrightarrow> cached (after_gets pget gets p) e = Some c"
  unfolding after_gets_def
  by (induction gets arbitrary: p) (auto simp: get_keeps)

text \<open>One client per endpoint: once dialled, every later lookup returns the same client.\<close>

lemma get_stable:
  assumes "pget env p e = (Inr c, p')"
  shows "fst (pget env' (after_gets pget gets p') e) = Inr c"
proof -
  have "cached (after_gets pget gets p') e = Some c" using get_caches [OF assms] by (rule after_keeps)
  then show ?thesis by (simp add: hit)
qed

end

interpretation state_pool: client_cache state_pool_Get cp_clients
  by unfold_locales
    (auto simp: state_pool_Get_def state_newClient_def split: option.splits sum.splits prod.splits)

interpretation probe_pool: client_cache probe_pool_Get cp_clients
  by unfold_locales
    (auto simp: probe_pool_Get_def probe_newClient_def split: option.splits sum.splits prod.splits)


section \<open>The task pool\<close>

text \<open>
  \<^verbatim>\<open>pool.NewWithResults[T]().WithErrors().WithContext(ctx)\<close>: every task runs, results and errors
  are collected in the order in which the tasks finish. The list of tasks is given in that order;
  the tasks touch separate clusters, so every interleaving is one of these orders.
\<close>

fun pool_run ::
    "('a \<Rightarrow> 's \<Rightarrow> (go_err + 'r) \<times> 's) \<Rightarrow> 'a list \<Rightarrow> 's \<Rightarrow> (go_err list \<times> 'r list) \<times> 's" where
  "pool_run f [] s = (([], []), s)"
| "pool_run f (x # xs) s =
     (case f x s of
        (Inl e, s1) \<Rightarrow> (case pool_run f xs s1 of ((es, rs), s2) \<Rightarrow> ((e # es, rs), s2))
      | (Inr r, s1) \<Rightarrow> (case pool_run f xs s1 of ((es, rs), s2) \<Rightarrow> ((es, r # rs), s2)))"

text \<open>\<^verbatim>\<open>Wait\<close>: the joined errors if there are any, else the results.\<close>

definition pool_Wait :: "go_err list \<times> 'r list \<Rightarrow> go_err + 'r list" where
  "pool_Wait er = (case er of (es, rs) \<Rightarrow> if es \<noteq> [] then Inl (EJoin es) else Inr rs)"

text \<open>
  A successful pool run, as a predicate: every task succeeded, and \<open>rs\<close> are the results in
  order, with the state threaded through.
\<close>

inductive all_tasks ::
    "('a \<Rightarrow> 's \<Rightarrow> (go_err + 'r) \<times> 's) \<Rightarrow> 'a list \<Rightarrow> 's \<Rightarrow> 'r list \<Rightarrow> 's \<Rightarrow> bool" for f where
  none: "all_tasks f [] s [] s"
| task: "f x s = (Inr r, s1) \<Longrightarrow> all_tasks f xs s1 rs s2 \<Longrightarrow> all_tasks f (x # xs) s (r # rs) s2"

inductive_cases all_tasks_ConsE: "all_tasks f (x # xs) s rs s'"
inductive_cases all_tasks_NilE: "all_tasks f [] s rs s'"

lemma pool_run_ok:
  "pool_run f xs s = (([], rs), s') \<longleftrightarrow> all_tasks f xs s rs s'"
proof (induction xs arbitrary: s rs)
  case Nil
  then show ?case by (auto intro: all_tasks.none elim: all_tasks_NilE)
next
  case (Cons x xs)
  obtain r s1 where f: "f x s = (r, s1)" by fastforce
  have step: "all_tasks f (x # xs) s rs s' \<longleftrightarrow>
      (\<exists>v rs'. r = Inr v \<and> rs = v # rs' \<and> all_tasks f xs s1 rs' s')"
    using f by (auto intro: all_tasks.task elim!: all_tasks_ConsE)
  obtain es ts s2 where p: "pool_run f xs s1 = ((es, ts), s2)" by (metis surj_pair)
  show ?case unfolding step Cons.IH [symmetric] using f p by (cases r) auto
qed

lemma pool_Wait_Inr: "pool_Wait er = Inr rs \<longleftrightarrow> er = ([], rs)"
  by (cases er) (auto simp: pool_Wait_def)

lemma pool_Wait_Nil [simp]: "pool_Wait ([], rs) = Inr rs"
  by (simp add: pool_Wait_def)

lemma all_tasks_det: "all_tasks f xs s rs s1 \<Longrightarrow> all_tasks f xs s rs' s2 \<Longrightarrow> rs' = rs \<and> s2 = s1"
  by (simp add: pool_run_ok [symmetric])

lemma all_tasks_length: "all_tasks f xs s rs s' \<Longrightarrow> length rs = length xs"
  by (induction rule: all_tasks.induct) auto

lemma all_tasks_answer:
  "all_tasks f xs s rs s' \<Longrightarrow> x \<in> set xs \<Longrightarrow> \<exists>si r si'. f x si = (Inr r, si') \<and> r \<in> set rs"
  by (induction rule: all_tasks.induct) auto

section \<open>Properties\<close>

text \<open>
  A cluster is dialled once: after a successful lookup of an endpoint in either pool, every later
  lookup returns the same client, whatever other endpoints were looked up in between, and in whatever
  state files, certificates and network are by then. (The clients of the two pools are compared one
  pool at a time.)
\<close>

theorem clients_are_reused:
  assumes "state_pool_Get env p e = (Inr c, p')" "probe_pool_Get env q e' = (Inr d, q')"
  shows "fst (state_pool_Get env' (after_gets state_pool_Get gets p') e) = Inr c \<and>
         fst (probe_pool_Get env' (after_gets probe_pool_Get gets q') e') = Inr d"
  using state_pool.get_stable [OF assms(1)] probe_pool.get_stable [OF assms(2)] by blast

text \<open>A machine with all files in place, and one where no file can be read any more.\<close>

definition sample_files :: "bool \<Rightarrow> string dial_env" where
  "sample_files ok =
     \<lparr>de_certwatcher = (\<lambda>c k. None), de_readFile = (\<lambda>f. if ok then Inr ''PEM'' else Inl (EMsg ''no such file'')),
      de_appendCerts = (\<lambda>b. True), de_grpcNewClient = Inr\<rparr>"

theorem clients_are_reused_witness:
  "fst (state_pool_Get (sample_files False) (after_gets state_pool_Get [(sample_files False, ''c:1'')]
      (snd (state_pool_Get (sample_files True) (NewClientPool ''/certs'') ''b:1''))) ''b:1'') = Inr ''b:1'' \<and>
   fst (probe_pool_Get (sample_files False) (after_gets probe_pool_Get [(sample_files False, ''c:1'')]
      (snd (probe_pool_Get (sample_files True) (probe_NewClientPool ''/certs'') ''p:1''))) ''p:1'') = Inr ''p:1''"
  by (rule clients_are_reused [where p = "NewClientPool ''/certs''" and q = "probe_NewClientPool ''/certs''"
        and env = "sample_files True"])
    (simp_all add: state_pool_Get_def state_newClient_def probe_pool_Get_def probe_newClient_def dial_with_ca_def
      NewClientPool_def probe_NewClientPool_def sample_files_def)

end
