(* ===== verification/Lock_Service.thy ===== *)
theory Lock_Service
  imports Lease_Api Client_Pool
begin

text \<open>
  \<^verbatim>\<open>internal/lock/service.go\<close>: the lock on a namespace and selector. Locally it is a lease object;
  remotely the state servers of the other clusters take the lease there. The readings of
  \<^verbatim>\<open>time.Now()\<close> are arguments, in the order in which the code takes them.
\<close>

section \<open>The local lock\<close>

record lock_service =
  ls_leaseNamespace :: string
  ls_remoteEndpoints :: "string list"

text \<open>
  The end of a lease: \<^verbatim>\<open>AcquireTime.Add(time.Second * time.Duration(*LeaseDurationSeconds))\<close>. The
  product of a second and an \<^verbatim>\<open>int32\<close> fits into the 64 bits of a duration.
\<close>

definition lease_deadline :: "int \<Rightarrow> int32 \<Rightarrow> int" where
  "lease_deadline acquired duration = acquired + 1000000000 * sint duration"

lemma duration_fits: "\<bar>1000000000 * sint (d :: int32)\<bar> < 2 ^ 63"
  using sint32_bounds [of d] by (simp add: abs_less_iff)

text \<open>The holder that \<^verbatim>\<open>LocalUnlock\<close> finds, in its error message.\<close>

definition holder_mismatch :: "string \<Rightarrow> string \<Rightarrow> go_err" where
  "holder_mismatch expected seen =
     EMsg (''holder identity does not match. Someone else has taken over the lease. expected='' @
       Quote expected @ '' seen='' @ Quote seen @ '' '')"

definition LocalLock ::
    "'s lease_client \<Rightarrow> lock_service \<Rightarrow> int \<times> int \<times> int \<Rightarrow> string \<Rightarrow> string \<Rightarrow> label_selector \<Rightarrow> 's
     \<Rightarrow> unit go \<times> 's" where
  "LocalLock c svc clk leaseHolderIdentity ns sel s =
     (case clk of (now0, now1, now2) \<Rightarrow>
      let lease = createLeaseForSelector (ls_leaseNamespace svc) leaseHolderIdentity ns sel now0
      in case lc_create c lease s of
           (None, s1) \<Rightarrow> (Ok (), s1)
         | (Some err, s1) \<Rightarrow>
             if IsAlreadyExists err then
               (case lc_get c (ObjectKeyFromObject lease) s1 of
                  Inl e \<Rightarrow> (Err (EWrap ''unable to take over lease'' (EApi e)), s1)
                | Inr seen \<Rightarrow>
                    (case (lease_acquireTime seen, lease_durationSeconds seen) of
                       (Some acquired, Some duration) \<Rightarrow>
                         if lease_deadline acquired duration > now1 then
                           (case lease_holderIdentity seen of
                              None \<Rightarrow> (Panic, s1)
                            | Some _ \<Rightarrow> (Err (EMsg ''lease deadline not reached''), s1))
                         else
                           (case lc_update c (seen\<lparr>lease_acquireTime := Some now2,
                                                   lease_holderIdentity := Some leaseHolderIdentity\<rparr>) s1 of
                              (None, s2) \<Rightarrow> (Ok (), s2)
                            | (Some e, s2) \<Rightarrow> (Err (EWrap ''unable to update lease'' (EApi e)), s2))
                     | _ \<Rightarrow> (Panic, s1)))
             else (Err (EWrap ''failed to acquire lease'' (EApi err)), s1))"

text \<open>
  \<^verbatim>\<open>LocalUnlock\<close>: when the lease cannot be read for any reason other than not being there, the
  freshly built lease object is used in its place.
\<close>

definition LocalUnlock ::
    "'s lease_client \<Rightarrow> lock_service \<Rightarrow> int \<Rightarrow> string \<Rightarrow> string \<Rightarrow> label_selector \<Rightarrow> 's \<Rightarrow> unit go \<times> 's" where
  "LocalUnlock c svc now leaseHolderIdentity ns sel s =
     (let lease = createLeaseForSelector (ls_leaseNamespace svc) leaseHolderIdentity ns sel now;
          got = lc_get c (ObjectKeyFromObject lease) s
      in if (case got of Inl e \<Rightarrow> IsNotFound e | Inr _ \<Rightarrow> False) then (Ok (), s)
         else
           (let lease' = (case got of Inl _ \<Rightarrow> lease | Inr l \<Rightarrow> l)
            in case lease_holderIdentity lease' of
                 None \<Rightarrow> (Panic, s)
               | Some holder \<Rightarrow>
                   if holder \<noteq> leaseHolderIdentity then
                     (Err (holder_mismatch leaseHolderIdentity holder), s)
                   else
                     (case lc_delete c (ObjectKeyFromObject lease') s of
                        (None, s1) \<Rightarrow> (Ok (), s1)
                      | (Some e, s1) \<Rightarrow> (Err (EApi e), s1))))"


section \<open>The remote locks\<close>

text \<open>
  The remote side: dialling, and the calls of a dialled client on the world of the other
  clusters. A call may fail (the network, the two second timeout) with or without effect.
\<close>

record ('c, 'w) rpc_env =
  re_dial :: "'c dial_env"
  re_Lock :: "'c \<Rightarrow> lock_request \<Rightarrow> 'w \<Rightarrow> (go_err + lock_response) \<times> 'w"
  re_Unlock :: "'c \<Rightarrow> unlock_request \<Rightarrow> 'w \<Rightarrow> (go_err + unlock_response) \<times> 'w"
  re_GetState :: "'c \<Rightarrow> get_state_request \<Rightarrow> 'w \<Rightarrow> (go_err + get_state_response) \<times> 'w"

type_synonym ('c, 'w) remote_state = "'c client_pool \<times> 'w"

text \<open>One task of the pool: look the client up, then make the call.\<close>

definition rpc_task ::
    "'c dial_env \<Rightarrow> ('c \<Rightarrow> 'w \<Rightarrow> (go_err + 'r) \<times> 'w) \<Rightarrow> string \<Rightarrow> ('c, 'w) remote_state
     \<Rightarrow> (go_err + 'r) \<times> ('c, 'w) remote_state" where
  "rpc_task dial call e rs =
     (case rs of (p, w) \<Rightarrow>
      case state_pool_Get dial p e of
        (Inl err, p1) \<Rightarrow> (Inl err, (p1, w))
      | (Inr cli, p1) \<Rightarrow> (case call cli w of (r, w1) \<Rightarrow> (r, (p1, w1))))"

text \<open>
  \<^verbatim>\<open>remoteLock\<close>: the argument \<open>order\<close> is the list of the remote endpoints in the order in which
  their calls finish.
\<close>

definition remoteLock ::
    "('c, 'w) rpc_env \<Rightarrow> lock_service \<Rightarrow> string list \<Rightarrow> string \<Rightarrow> string \<Rightarrow> label_selector
     \<Rightarrow> ('c, 'w) remote_state \<Rightarrow> unit go \<times> ('c, 'w) remote_state" where
  "remoteLock env svc order leaseHolderIdentity ns sel rs =
     (if length (ls_remoteEndpoints svc) = 0 then (Ok (), rs)
      else
        (let req = \<lparr>lrq_leaseHolderIdentity = leaseHolderIdentity, lrq_namespace = ns,
                    lrq_labelSelector = Some (ConvertLabelSelectorToState sel)\<rparr>
         in case pool_run (rpc_task (re_dial env) (\<lambda>cli. re_Lock env cli req)) order rs of
              (er, rs1) \<Rightarrow>
                (case pool_Wait er of
                   Inl e \<Rightarrow> (Err e, rs1)
                 | Inr results \<Rightarrow>
                     (let errs = map (\<lambda>r. EMsg (''lock not acquired: '' @ lrs_error r))
                                   (filter (\<lambda>r. \<not> lrs_acquired r) results)
                      in if length errs > 0 then (Err (EJoin errs), rs1) else (Ok (), rs1)))))"

definition remoteUnlock ::
    "('c, 'w) rpc_env \<Rightarrow> lock_service \<Rightarrow> string list \<Rightarrow> string \<Rightarrow> string \<Rightarrow> label_selector
     \<Rightarrow> ('c, 'w) remote_state \<Rightarrow> unit go \<times> ('c, 'w) remote_state" where
  "remoteUnlock env svc order leaseHolderIdentity ns sel rs =
     (if length (ls_remoteEndpoints svc) = 0 then (Ok (), rs)
      else
        (let req = \<lparr>urq_leaseHolderIdentity = leaseHolderIdentity, urq_namespace = ns,
                    urq_labelSelector = Some (ConvertLabelSelectorToState sel)\<rparr>
         in case pool_run (rpc_task (re_dial env) (\<lambda>cli. re_Unlock env cli req)) order rs of
              (er, rs1) \<Rightarrow>
                (case pool_Wait er of
                   Inl e \<Rightarrow> (Err e, rs1)
                 | Inr results \<Rightarrow>
                     (let errs = map (\<lambda>r. EMsg (''lock was not unlocked: '' @ urs_error r))
                                   (filter (\<lambda>r. \<not> urs_unlocked r) results)
                      in if length errs > 0 then (Err (EJoin errs), rs1) else (Ok (), rs1)))))"


section \<open>Lock and Unlock\<close>

definition Lock ::
    "'s lease_client \<Rightarrow> ('c, 'w) rpc_env \<Rightarrow> lock_service \<Rightarrow> int \<times> int \<times> int \<Rightarrow> string list \<Rightarrow> string \<Rightarrow> string
     \<Rightarrow> label_selector \<Rightarrow> 's \<times> ('c, 'w) remote_state \<Rightarrow> unit go \<times> 's \<times> ('c, 'w) remote_state" where
  "Lock c env svc clk order leaseHolderIdentity ns sel st =
     (case st of (s, rs) \<Rightarrow>
      case LocalLock c svc clk leaseHolderIdentity ns sel s of
        (Panic, s1) \<Rightarrow> (Panic, s1, rs)
      | (Err e, s1) \<Rightarrow> (Err (EWrap ''unable to lock local cluster'' e), s1, rs)
      | (Ok _, s1) \<Rightarrow>
          if length (ls_remoteEndpoints svc) > 0 then
            (case remoteLock env svc order leaseHolderIdentity ns sel rs of
               (Panic, rs1) \<Rightarrow> (Panic, s1, rs1)
             | (Err e, rs1) \<Rightarrow> (Err (EWrap ''unable to lock remote clusters'' e), s1, rs1)
             | (Ok _, rs1) \<Rightarrow> (Ok (), s1, rs1))
          else (Ok (), s1, rs))"

definition Unlock ::
    "'s lease_client \<Rightarrow> ('c, 'w) rpc_env \<Rightarrow> lock_service \<Rightarrow> int \<Rightarrow> string list \<Rightarrow> string \<Rightarrow> string
     \<Rightarrow> label_selector \<Rightarrow> 's \<times> ('c, 'w) remote_state \<Rightarrow> unit go \<times> 's \<times> ('c, 'w) remote_state" where
  "Unlock c env svc now order leaseHolderIdentity ns sel st =
     (case st of (s, rs) \<Rightarrow>
      case LocalUnlock c svc now leaseHolderIdentity ns sel s of
        (Panic, s1) \<Rightarrow> (Panic, s1, rs)
      | (Err e, s1) \<Rightarrow> (Err (EWrap ''unable to unlock local cluster'' e), s1, rs)
      | (Ok _, s1) \<Rightarrow>
          if length (ls_remoteEndpoints svc) > 0 then
            (case remoteUnlock env svc order leaseHolderIdentity ns sel rs of
               (Panic, rs1) \<Rightarrow> (Panic, s1, rs1)
             | (Err e, rs1) \<Rightarrow> (Err (EWrap ''unable to unlock remote clusters'' e), s1, rs1)
             | (Ok _, rs1) \<Rightarrow> (Ok (), s1, rs1))
          else (Ok (), s1, rs))"


section \<open>The abstract lock\<close>

text \<open>
  What the lease means to the program: who holds it and until when. A lease without a holder, an
  acquire time or a duration (no lease of this program) makes the code panic.
\<close>

definition complete_lease :: "lease \<Rightarrow> bool" where
  "complete_lease l \<longleftrightarrow>
     lease_holderIdentity l \<noteq> None \<and> lease_acquireTime l \<noteq> None \<and> lease_durationSeconds l \<noteq> None"

definition lease_until :: "lease \<Rightarrow> int" where
  "lease_until l =
     (case (lease_acquireTime l, lease_durationSeconds l) of
        (Some a, Some d) \<Rightarrow> lease_deadline a d
      | _ \<Rightarrow> 0)"

definition live_lease :: "lease \<Rightarrow> int \<Rightarrow> bool" where
  "live_lease l t \<longleftrightarrow> complete_lease l \<and> lease_until l > t"

abbreviation lock_key :: "lock_service \<Rightarrow> string \<Rightarrow> label_selector \<Rightarrow> object_key" where
  "lock_key svc ns sel \<equiv> (ls_leaseNamespace svc, createLeaseNameForSelector ns sel)"

text \<open>The state of a lock in a store, and the abstract lock operation on it.\<close>

definition lock_view :: "('s \<Rightarrow> object_key \<Rightarrow> lease option) \<Rightarrow> 's \<Rightarrow> object_key \<Rightarrow> (string \<times> int) option" where
  "lock_view stored s k =
     map_option (\<lambda>l. (case lease_holderIdentity l of None \<Rightarrow> [] | Some h \<Rightarrow> h, lease_until l)) (stored s k)"

text \<open>Taking a free or run-out lock; a lock that still runs is left alone.\<close>

definition spec_lock :: "string \<Rightarrow> int \<Rightarrow> int \<Rightarrow> (string \<times> int) option \<Rightarrow> bool \<times> (string \<times> int) option" where
  "spec_lock me now until lk =
     (case lk of
        None \<Rightarrow> (True, Some (me, until))
      | Some (h, u) \<Rightarrow> if u > now then (False, lk) else (True, Some (me, until)))"

definition spec_unlock :: "string \<Rightarrow> (string \<times> int) option \<Rightarrow> bool \<times> (string \<times> int) option" where
  "spec_unlock me lk =
     (case lk of
        None \<Rightarrow> (True, None)
      | Some (h, u) \<Rightarrow> if h = me then (True, None) else (False, lk))"



section \<open>Facts about the local lock\<close>

lemma lease_until_written:
  "lease_acquireTime l = Some a \<Longrightarrow> lease_durationSeconds l = Some d \<Longrightarrow>
     lease_until (written l rv) = lease_deadline (micro a) d"
  by (simp add: lease_until_def)

lemma complete_leaseE:
  assumes "complete_lease l"
  obtains h a d where "lease_holderIdentity l = Some h" "lease_acquireTime l = Some a"
    "lease_durationSeconds l = Some d" "lease_until l = lease_deadline a d"
  using assms by (auto simp: complete_lease_def lease_until_def)

text \<open>The seven ways a call of \<^const>\<open>LocalLock\<close> can end, one per path through the code.\<close>

lemma LocalLock_cases [consumes 1, case_names created refused unread incomplete running taken lost]:
  assumes "LocalLock c svc (n0, n1, n2) me ns sel s = (r, s')"
  defines "new \<equiv> createLeaseForSelector (ls_leaseNamespace svc) me ns sel n0"
  obtains
    "lc_create c new s = (None, s')" "r = Ok ()"
  | e where "lc_create c new s = (Some e, s')" "\<not> IsAlreadyExists e"
      "r = Err (EWrap ''failed to acquire lease'' (EApi e))"
  | e e' where "lc_create c new s = (Some e, s')" "IsAlreadyExists e"
      "lc_get c (lock_key svc ns sel) s' = Inl e'"
      "r = Err (EWrap ''unable to take over lease'' (EApi e'))"
  | e seen where "lc_create c new s = (Some e, s')" "IsAlreadyExists e"
      "lc_get c (lock_key svc ns sel) s' = Inr seen" "\<not> complete_lease seen" "r = Panic"
  | e seen where "lc_create c new s = (Some e, s')" "IsAlreadyExists e"
      "lc_get c (lock_key svc ns sel) s' = Inr seen" "live_lease seen n1"
      "r = Err (EMsg ''lease deadline not reached'')"
  | e seen s1 where "lc_create c new s = (Some e, s1)" "IsAlreadyExists e"
      "lc_get c (lock_key svc ns sel) s1 = Inr seen"
      "lease_acquireTime seen \<noteq> None" "lease_durationSeconds seen \<noteq> None" "lease_until seen \<le> n1"
      "lc_update c (seen\<lparr>lease_acquireTime := Some n2, lease_holderIdentity := Some me\<rparr>) s1 = (None, s')"
      "r = Ok ()"
  | e e' seen s1 where "lc_create c new s = (Some e, s1)" "IsAlreadyExists e"
      "lc_get c (lock_key svc ns sel) s1 = Inr seen"
      "lease_acquireTime seen \<noteq> None" "lease_durationSeconds seen \<noteq> None" "lease_until seen \<le> n1"
      "lc_update c (seen\<lparr>lease_acquireTime := Some n2, lease_holderIdentity := Some me\<rparr>) s1 = (Some e', s')"
      "r = Err (EWrap ''unable to update lease'' (EApi e'))"
proof -
  obtain oe s1 where cr: "lc_create c new s = (oe, s1)" by fastforce
  note eq = assms(1) [unfolded LocalLock_def Let_def prod.case new_def [symmetric] cr]
  have key: "ObjectKeyFromObject new = lock_key svc ns sel" by (simp add: new_def)
  show thesis
  proof (cases oe)
    case None
    with eq cr that(1) show thesis by simp
  next
    case (Some e)
    show thesis
    proof (cases "IsAlreadyExists e")
      case False
      with eq cr Some that(2) show thesis by simp
    next
      case ae: True
      show thesis
      proof (cases "lc_get c (lock_key svc ns sel) s1")
        case (Inl e')
        with eq cr Some ae key that(3) show thesis by simp
      next
        case (Inr seen)
        let ?u = "seen\<lparr>lease_acquireTime := Some n2, lease_holderIdentity := Some me\<rparr>"
        obtain oe' s2 where upd: "lc_update c ?u s1 = (oe', s2)" by fastforce
        show thesis
        proof (cases "lease_acquireTime seen = None \<or> lease_durationSeconds seen = None")
          case True
          with eq cr Some ae key Inr that(4) show thesis
            by (auto simp: complete_lease_def split: option.splits)
        next
          case False
          then obtain a d where ad: "lease_acquireTime seen = Some a" "lease_durationSeconds seen = Some d"
            by auto
          then have u: "lease_until seen = lease_deadline a d" by (simp add: lease_until_def)
          show thesis
          proof (cases "lease_deadline a d > n1")
            case True
            with eq cr Some ae key Inr ad u that(4,5) show thesis
              by (cases "lease_holderIdentity seen") (auto simp: complete_lease_def live_lease_def)
          next
            case False
            with eq cr Some ae key Inr ad u upd that(6,7) show thesis by (cases oe') auto
          qed
        qed
      qed
    qed
  qed
qed

text \<open>The ways a call of \<^const>\<open>LocalUnlock\<close> can end.\<close>

lemma LocalUnlock_cases [consumes 1, case_names absent incomplete other deleted]:
  assumes "LocalUnlock c svc now me ns sel s = (r, s')"
  obtains
    e where "lc_get c (lock_key svc ns sel) s = Inl e" "IsNotFound e" "r = Ok ()" "s' = s"
  | l where "lc_get c (lock_key svc ns sel) s = Inr l" "lease_holderIdentity l = None" "r = Panic" "s' = s"
  | l h where "lc_get c (lock_key svc ns sel) s = Inr l" "lease_holderIdentity l = Some h" "h \<noteq> me"
      "r = Err (holder_mismatch me h)" "s' = s"
  | k oe where "lc_delete c k s = (oe, s')" "r = (case oe of None \<Rightarrow> Ok () | Some e \<Rightarrow> Err (EApi e))"
      "(\<exists>e. lc_get c (lock_key svc ns sel) s = Inl e \<and> \<not> IsNotFound e \<and> k = lock_key svc ns sel) \<or>
       (\<exists>l. lc_get c (lock_key svc ns sel) s = Inr l \<and> lease_holderIdentity l = Some me \<and>
            k = ObjectKeyFromObject l)"
proof -
  let ?k = "lock_key svc ns sel"
  note eq = assms [unfolded LocalUnlock_def Let_def createLeaseForSelector_key]
  show thesis
  proof (cases "lc_get c ?k s")
    case (Inl e)
    obtain oe s1 where del: "lc_delete c ?k s = (oe, s1)" by fastforce
    show thesis
    proof (cases "IsNotFound e")
      case True
      with eq Inl show thesis by (intro that(1)) simp_all
    next
      case False
      have "r = (case oe of None \<Rightarrow> Ok () | Some e \<Rightarrow> Err (EApi e)) \<and> s' = s1"
        using eq Inl False del by (cases oe) simp_all
      with del Inl False show thesis by (intro that(4)) simp_all
    qed
  next
    case (Inr l)
    obtain oe s1 where del: "lc_delete c (ObjectKeyFromObject l) s = (oe, s1)" by fastforce
    show thesis
    proof (cases "lease_holderIdentity l")
      case None
      with eq Inr show thesis by (intro that(2)) simp_all
    next
      case (Some h)
      show thesis
      proof (cases "h = me")
        case False
        with eq Inr Some show thesis by (intro that(3)) auto
      next
        case True
        have "r = (case oe of None \<Rightarrow> Ok () | Some e \<Rightarrow> Err (EApi e)) \<and> s' = s1"
          using eq Inr Some True del by (cases oe) simp_all
        with del Inr Some True show thesis by (intro that(4)) simp_all
      qed
    qed
  qed
qed

context lease_store
begin

lemma lc_create_key:
  assumes "wf s" "lc_create c (createLeaseForSelector lns me ns sel n0) s = (oe, s1)"
  shows "wf s1" "k \<noteq> (lns, createLeaseNameForSelector ns sel) \<Longrightarrow> stored s1 k = stored s k"
  using wf_create [OF assms(1), of "createLeaseForSelector lns me ns sel n0"]
    create_frame [OF assms(1), of k "createLeaseForSelector lns me ns sel n0"] assms(2) by auto

lemma create_exists_stored:
  assumes "wf s" "lc_create c l s = (Some e, s1)" "IsAlreadyExists e"
  shows "stored s1 = stored s"
  using create_exists [OF assms] by blast

lemma taken_over:
  assumes "wf s1" "lc_get c k s1 = Inr seen"
    "lc_update c (seen\<lparr>lease_acquireTime := Some t, lease_holderIdentity := Some me\<rparr>) s1 = (oe, s2)"
  shows "wf s2" "k' \<noteq> k \<Longrightarrow> stored s2 k' = stored s1 k'"
    "oe = None \<Longrightarrow> \<exists>rv. stored s2 k = Some (written (seen\<lparr>lease_acquireTime := Some t, lease_holderIdentity := Some me\<rparr>) rv)"
proof -
  let ?u = "seen\<lparr>lease_acquireTime := Some t, lease_holderIdentity := Some me\<rparr>"
  have key: "ObjectKeyFromObject ?u = k" using stored_key [OF assms(1) get_ok [OF assms(1,2)]] by simp
  show "wf s2" using wf_update [OF assms(1), of ?u] assms(3) by simp
  show "stored s2 k' = stored s1 k'" if "k' \<noteq> k"
    using update_frame [OF assms(1), of k' ?u] that key assms(3) by simp
  show "\<exists>rv. stored s2 k = Some (written ?u rv)" if "oe = None"
    using update_ok [OF assms(1), of ?u s2] that key assms(3) by auto
qed

lemma LocalLock_wf_frame:
  assumes "LocalLock c svc (n0, n1, n2) me ns sel s = (r, s')" "wf s"
  shows "wf s' \<and> (k \<noteq> lock_key svc ns sel \<longrightarrow> stored s' k = stored s k)"
  using assms(1)
proof (cases rule: LocalLock_cases)
  case (taken e seen s1)
  then show ?thesis using lc_create_key(1) [OF assms(2) taken(1)] lc_create_key(2) [OF assms(2) taken(1), of k]
      taken_over(1,2) by metis
next
  case (lost e e' seen s1)
  then show ?thesis using lc_create_key(1) [OF assms(2) lost(1)] lc_create_key(2) [OF assms(2) lost(1), of k]
      taken_over(1,2) by metis
qed (use lc_create_key(1) [OF assms(2)] lc_create_key(2) [OF assms(2), where k = k] in \<open>blast+\<close>)

text \<open>A lease that still runs is neither taken nor changed, whoever asks.\<close>

lemma LocalLock_keeps_live:
  assumes "LocalLock c svc (n0, n1, n2) me ns sel s = (r, s')"
    and "wf s" "stored s (lock_key svc ns sel) = Some l" "live_lease l n1"
  shows "(\<exists>e. r = Err e) \<and> stored s' = stored s"
proof -
  have no_create: "oe \<noteq> None \<and> stored s1 = stored s \<and> wf s1"
    if "lc_create c (createLeaseForSelector (ls_leaseNamespace svc) me ns sel n0) s = (oe, s1)" for oe s1
    using create_ok [OF assms(2)] create_failed [OF assms(2)] lc_create_key(1) [OF assms(2)] that assms(3)
    by (cases oe) fastforce+
  have seen: "seen = l" if "lc_get c (lock_key svc ns sel) s1 = Inr seen" "stored s1 = stored s" "wf s1" for s1 seen
    using get_ok [OF that(3,1)] that(2) assms(3) by simp
  have l: "complete_lease l" "\<not> lease_until l \<le> n1" using assms(4) by (auto simp: live_lease_def)
  from assms(1) show ?thesis
  proof (cases rule: LocalLock_cases)
    case created
    with no_create show ?thesis by blast
  next
    case (incomplete e seen)
    with no_create seen l show ?thesis by blast
  next
    case (taken e seen s1)
    with no_create seen l show ?thesis by blast
  next
    case (lost e e' seen s1)
    with no_create seen l show ?thesis by blast
  qed (use no_create in blast)+
qed

text \<open>After a successful call the lease names the caller and starts at one of its clock readings.\<close>

lemma LocalLock_acquired:
  assumes "LocalLock c svc (n0, n1, n2) me ns sel s = (Ok (), s')" "wf s"
  obtains l where "stored s' (lock_key svc ns sel) = Some l" "lease_holderIdentity l = Some me"
    "stored s (lock_key svc ns sel) = None \<and> lease_acquireTime l = Some (micro n0) \<and>
       lease_durationSeconds l = Some LeaseDurationSeconds \<or>
     (\<exists>old. stored s (lock_key svc ns sel) = Some old \<and> \<not> live_lease old n1 \<and>
       lease_acquireTime l = Some (micro n2) \<and>
       lease_durationSeconds l = lease_durationSeconds old \<and> lease_durationSeconds old \<noteq> None)"
  using assms(1)
proof (cases rule: LocalLock_cases)
  case created
  with create_ok [OF assms(2) created(1)] that show thesis by auto
next
  case (taken e seen s1)
  have wf1: "wf s1" using lc_create_key(1) [OF assms(2) taken(1)] .
  have "stored s (lock_key svc ns sel) = Some seen"
    using get_ok [OF wf1 taken(3)] create_exists_stored [OF assms(2) taken(1,2)] by simp
  moreover have "\<not> live_lease seen n1" using taken(6) by (simp add: live_lease_def)
  ultimately show thesis
    using that taken_over(3) [OF wf1 taken(3,7)] taken(5) by auto
qed simp_all

text \<open>Unlocking touches only the lock's own lease.\<close>

lemma LocalUnlock_wf_frame:
  assumes "LocalUnlock c svc now me ns sel s = (r, s')" "wf s"
  shows "wf s' \<and> (k \<noteq> lock_key svc ns sel \<longrightarrow> stored s' k = stored s k)"
  using assms(1)
proof (cases rule: LocalUnlock_cases)
  case (deleted k' oe)
  have "k' = lock_key svc ns sel" using deleted(3) get_ok stored_key assms(2) by blast
  then show ?thesis using delete_frame [OF assms(2)] wf_delete [OF assms(2), of k'] deleted(1)
    by (metis snd_conv)
qed (use assms(2) in auto)

text \<open>When the lease can be read and names someone else, it stays.\<close>

lemma LocalUnlock_other_holder:
  assumes "LocalUnlock c svc now me ns sel s = (r, s')" "wf s"
    and "stored s (lock_key svc ns sel) = Some l" "lease_holderIdentity l = Some h" "h \<noteq> me"
    and "lc_get c (lock_key svc ns sel) s = Inr l'"
  shows "r = Err (holder_mismatch me h) \<and> s' = s"
proof -
  have "l' = l" using get_ok [OF assms(2,6)] assms(3) by simp
  from assms(1) show ?thesis
    by (cases rule: LocalUnlock_cases) (use assms(4-6) \<open>l' = l\<close> in auto)
qed

end

context served_store
begin

text \<open>A created lease, a lease taken over: which calls succeed when every request is answered.\<close>

lemma LocalLock_Ok_iff:
  assumes "wf s" "LocalLock c svc (n0, n1, n2) me ns sel s = (r, s')"
    and complete: "\<And>l. stored s (lock_key svc ns sel) = Some l \<Longrightarrow> complete_lease l"
  shows "r = Ok () \<longleftrightarrow> (\<forall>l. stored s (lock_key svc ns sel) = Some l \<longrightarrow> \<not> live_lease l n1)"
proof -
  let ?n = "createLeaseForSelector (ls_leaseNamespace svc) me ns sel n0"
  have ae: "stored s (lock_key svc ns sel) \<noteq> None \<and> stored s1 = stored s \<and> wf s1"
    if "lc_create c ?n s = (Some e, s1)" for e s1
    using that served_create [OF assms(1), of ?n] served_create_exists [OF assms(1), of ?n]
      create_exists [OF assms(1) that] lc_create_key(1) [OF assms(1) that] by fastforce
  have get: "lc_get c (lock_key svc ns sel) s1 = Inr l"
    if "lc_create c ?n s = (Some e, s1)" "stored s (lock_key svc ns sel) = Some l" for e s1 l
    using served_get ae [OF that(1)] that(2) by simp
  from assms(2) show ?thesis
  proof (cases rule: LocalLock_cases)
    case created
    then show ?thesis using create_ok [OF assms(1) created(1)] by auto
  next
    case (refused e)
    then show ?thesis using served_create [OF assms(1), of ?n] served_create_exists [OF assms(1), of ?n]
      by (cases "stored s (lock_key svc ns sel)") auto
  next
    case (unread e e')
    then show ?thesis using ae get by fastforce
  next
    case (incomplete e seen)
    then show ?thesis using ae get complete by fastforce
  next
    case (running e seen)
    then show ?thesis using ae get by fastforce
  next
    case (taken e seen s1)
    then show ?thesis using ae get by (fastforce simp: live_lease_def)
  next
    case (lost e e' seen s1)
    let ?u = "seen\<lparr>lease_acquireTime := Some n2, lease_holderIdentity := Some me\<rparr>"
    have s1: "wf s1" "stored s1 (lock_key svc ns sel) = Some seen"
      using ae [OF lost(1)] get_ok [OF _ lost(3)] by auto
    then have key: "ObjectKeyFromObject ?u = lock_key svc ns sel" using stored_key by auto
    then have "lease_name ?u \<noteq> []" by (simp add: ObjectKeyFromObject_def)
    with s1 key served_update [of s1 ?u seen] lost(7) show ?thesis by simp
  qed
qed

text \<open>
  With a server that answers, the local lock implements the abstract lock: a functional
  refinement under the view of the lease as holder and deadline.
\<close>

lemma LocalLock_refines:
  assumes "wf s" "LocalLock c svc (n0, n1, n2) me ns sel s = (r, s')"
    and leases: "\<And>l. stored s (lock_key svc ns sel) = Some l \<Longrightarrow>
      complete_lease l \<and> lease_durationSeconds l = Some LeaseDurationSeconds"
  shows "(r = Ok (), lock_view stored s' (lock_key svc ns sel)) =
     spec_lock me n1
       (lease_deadline (micro (if stored s (lock_key svc ns sel) = None then n0 else n2)) LeaseDurationSeconds)
       (lock_view stored s (lock_key svc ns sel))"
proof -
  have ok: "r = Ok () \<longleftrightarrow> (\<forall>l. stored s (lock_key svc ns sel) = Some l \<longrightarrow> \<not> live_lease l n1)"
    using LocalLock_Ok_iff [OF assms(1,2)] leases by blast
  show ?thesis
  proof (cases "r = Ok ()")
    case True
    with assms(2) have "LocalLock c svc (n0, n1, n2) me ns sel s = (Ok (), s')" by simp
    then obtain l where "stored s' (lock_key svc ns sel) = Some l" "lease_holderIdentity l = Some me"
      and "stored s (lock_key svc ns sel) = None \<and> lease_acquireTime l = Some (micro n0) \<and>
             lease_durationSeconds l = Some LeaseDurationSeconds \<or>
           (\<exists>old. stored s (lock_key svc ns sel) = Some old \<and> \<not> live_lease old n1 \<and>
             lease_acquireTime l = Some (micro n2) \<and>
             lease_durationSeconds l = lease_durationSeconds old \<and> lease_durationSeconds old \<noteq> None)"
      using assms(1) by (rule LocalLock_acquired)
    then show ?thesis using True leases
      by (auto simp: lock_view_def spec_lock_def lease_until_def live_lease_def)
  next
    case False
    then obtain l where l: "stored s (lock_key svc ns sel) = Some l" "live_lease l n1" using ok by blast
    then show ?thesis using False LocalLock_keeps_live [OF assms(2,1) l]
      by (auto simp: lock_view_def spec_lock_def live_lease_def)
  qed
qed

lemma LocalUnlock_refines:
  assumes "wf s" "LocalUnlock c svc now me ns sel s = (r, s')"
    and "\<And>l. stored s (lock_key svc ns sel) = Some l \<Longrightarrow> complete_lease l"
  shows "(r = Ok (), lock_view stored s' (lock_key svc ns sel)) =
     spec_unlock me (lock_view stored s (lock_key svc ns sel))"
proof (cases "stored s (lock_key svc ns sel)")
  case None
  then obtain e where "lc_get c (lock_key svc ns sel) s = Inl e" "IsNotFound e"
    using served_get_missing assms(1) by blast
  with assms(2) None show ?thesis
    by (cases rule: LocalUnlock_cases) (auto simp: lock_view_def spec_unlock_def)
next
  case (Some l)
  have get: "lc_get c (lock_key svc ns sel) s = Inr l" using served_get assms(1) Some by blast
  obtain h where h: "lease_holderIdentity l = Some h" using assms(3) Some by (auto simp: complete_lease_def)
  have key: "ObjectKeyFromObject l = lock_key svc ns sel" using stored_key assms(1) Some by blast
  from assms(2) show ?thesis
  proof (cases rule: LocalUnlock_cases)
    case (deleted k oe)
    then have "k = lock_key svc ns sel" "h = me" using get key h by auto
    moreover from this have "oe = None" using served_delete [OF assms(1), of k] Some deleted(1) by simp
    ultimately show ?thesis using deleted delete_ok [OF assms(1), of k s'] Some h
      by (auto simp: lock_view_def spec_unlock_def)
  qed (use get h Some in \<open>auto simp: lock_view_def spec_unlock_def\<close>)
qed

text \<open>Releasing a lock that is held: the local lease is gone, whatever the remote clusters answer.\<close>

lemma LocalUnlock_frees:
  assumes "wf s" "stored s (lock_key svc ns sel) = Some l" "lease_holderIdentity l = Some me"
    and "LocalUnlock c svc now me ns sel s = (r, s')"
  shows "stored s' (lock_key svc ns sel) = None \<and> wf s' \<and> r = Ok ()"
proof -
  have get: "lc_get c (lock_key svc ns sel) s = Inr l" using served_get assms(1,2) by blast
  have key: "ObjectKeyFromObject l = lock_key svc ns sel" using stored_key assms(1,2) by blast
  from assms(4) show ?thesis
  proof (cases rule: LocalUnlock_cases)
    case (deleted k oe)
    then have "k = lock_key svc ns sel" using get key by auto
    moreover from this have "oe = None" using served_delete [OF assms(1), of k] assms(2) deleted(1) by simp
    ultimately show ?thesis
      using delete_ok [OF assms(1), of k s'] wf_delete [OF assms(1), of k] deleted(1,2) by simp
  qed (use get assms(3) in auto)
qed

lemma Unlock_releases:
  assumes "wf s" "stored s (lock_key svc ns sel) = Some l" "lease_holderIdentity l = Some me"
    and "Unlock c env svc now order me ns sel (s, rs) = (r, s', rs')"
  shows "stored s' (lock_key svc ns sel) = None \<and> wf s'"
proof -
  obtain r0 s1 where u: "LocalUnlock c svc now me ns sel s = (r0, s1)" by fastforce
  have "s' = s1" using assms(4) u by (auto simp: Unlock_def split: go.splits prod.splits if_splits)
  then show ?thesis using LocalUnlock_frees [OF assms(1-3) u] by simp
qed

end

text \<open>A successful \<^const>\<open>Lock\<close> is a successful local lock followed by the remote ones.\<close>

lemma Lock_Ok:
  "Lock c env svc clk order me ns sel (s, rs) = (Ok (), s', rs') \<longleftrightarrow>
     LocalLock c svc clk me ns sel s = (Ok (), s') \<and>
     (if ls_remoteEndpoints svc = [] then rs' = rs
      else remoteLock env svc order me ns sel rs = (Ok (), rs'))"
  by (auto simp: Lock_def split: go.splits prod.splits if_splits)

lemma Unlock_Ok:
  "Unlock c env svc now order me ns sel (s, rs) = (Ok (), s', rs') \<longleftrightarrow>
     LocalUnlock c svc now me ns sel s = (Ok (), s') \<and>
     (if ls_remoteEndpoints svc = [] then rs' = rs
      else remoteUnlock env svc order me ns sel rs = (Ok (), rs'))"
  by (auto simp: Unlock_def split: go.splits prod.splits if_splits)

section \<open>The lock in an in-memory API server\<close>

text \<open>The store in which one lease was created, and the calls on it.\<close>

definition locked_by :: "lock_service \<Rightarrow> string \<Rightarrow> string \<Rightarrow> label_selector \<Rightarrow> int \<Rightarrow> tracker" where
  "locked_by svc me ns sel now =
     Map.empty(lock_key svc ns sel \<mapsto>
       (createLeaseForSelector (ls_leaseNamespace svc) me ns sel now)\<lparr>lease_resourceVersion := ''1''\<rparr>)"

lemma fake_lock_free:
  "LocalLock fake_client svc (n0, n1, n2) me ns sel Map.empty = (Ok (), locked_by svc me ns sel n0)"
  by (simp add: LocalLock_def fake_create_def locked_by_def)

lemma locked_by_wf [simp]: "fake_wf (locked_by svc me ns sel now)"
  using one_format_nat by (auto simp: fake_wf_def locked_by_def intro!: exI [of _ 1])

lemma empty_wf [simp]: "fake_wf Map.empty"
  by (simp add: fake_wf_def)

lemma locked_by_stored:
  "fake_stored (locked_by svc me ns sel now) (lock_key svc ns sel) =
     Some (on_wire ((createLeaseForSelector (ls_leaseNamespace svc) me ns sel now)\<lparr>lease_resourceVersion := ''1''\<rparr>))"
  by (simp add: locked_by_def fake_stored_def)

lemma locked_by_fields:
  "fake_stored (locked_by svc me ns sel now) (lock_key svc ns sel) = Some l \<Longrightarrow>
     lease_holderIdentity l = Some me \<and> complete_lease l \<and> lease_durationSeconds l = Some LeaseDurationSeconds \<and>
     lease_until l = lease_deadline (micro now) LeaseDurationSeconds"
  by (auto simp: locked_by_stored complete_lease_def lease_until_def)

lemma fake_unlock_locked:
  "LocalUnlock fake_client svc now me ns sel (locked_by svc h ns sel t) =
     (if h = me then (Ok (), Map.empty) else (Err (holder_mismatch me h), locked_by svc h ns sel t))"
  by (simp add: LocalUnlock_def fake_get_def fake_delete_def locked_by_def fun_upd_idem)

text \<open>An API server on which reads fail while writes work.\<close>

definition unreadable_client :: "tracker lease_client" where
  "unreadable_client = fake_client\<lparr>lc_get := (\<lambda>k s. Inl (OtherApi ''etcdserver: request timed out''))\<rparr>"

interpretation unreadable: lease_store unreadable_client fake_stored fake_wf
  by unfold_locales
    (use fake.create_ok fake.create_exists fake.create_failed fake.stored_key fake.update_ok fake.update_failed
      fake.delete_ok fake.delete_failed fake.wf_create fake.wf_update fake.wf_delete
     in \<open>auto simp: unreadable_client_def\<close>)


section \<open>Properties\<close>

text \<open>
  C9. On an API server that answers, taking the local lock refines the abstract lock: seen as holder
  and deadline, a free or run-out lock passes to the caller with a new deadline five seconds after the
  reading of the clock that was written into it, a lock that still runs is left as it is, and the call
  succeeds exactly when the lock has passed to the caller.
\<close>

theorem local_lock_refines:
  assumes "served_store c stored valid" "valid s"
    and "LocalLock c svc (n0, n1, n2) me ns sel s = (r, s')"
    and "\<forall>l. stored s (lock_key svc ns sel) = Some l \<longrightarrow>
           complete_lease l \<and> lease_durationSeconds l = Some LeaseDurationSeconds"
  shows "(r = Ok (), lock_view stored s' (lock_key svc ns sel)) =
     spec_lock me n1
       (lease_deadline (micro (if stored s (lock_key svc ns sel) = None then n0 else n2)) LeaseDurationSeconds)
       (lock_view stored s (lock_key svc ns sel))"
  using served_store.LocalLock_refines [OF assms(1-3)] assms(4) by blast

definition demo_lock :: lock_service where
  "demo_lock = \<lparr>ls_leaseNamespace = ''x-pdb'', ls_remoteEndpoints = []\<rparr>"

definition demo_selector :: label_selector where
  "demo_selector = \<lparr>match_labels = [(''app'', ''db'')], match_expressions = []\<rparr>"

theorem local_lock_refines_witness:
  "\<exists>r s'. LocalLock fake_client demo_lock (6000000000, 6000000000, 6000000000) ''b'' ''shop'' demo_selector
        (locked_by demo_lock ''a'' ''shop'' demo_selector 1000) = (r, s') \<and>
     (r = Ok (), lock_view fake_stored s' (lock_key demo_lock ''shop'' demo_selector)) =
        (True, Some (''b'', 11000000000))"
proof -
  obtain r s' where call: "LocalLock fake_client demo_lock (6000000000, 6000000000, 6000000000) ''b'' ''shop''
      demo_selector (locked_by demo_lock ''a'' ''shop'' demo_selector 1000) = (r, s')" by fastforce
  have "lock_view fake_stored (locked_by demo_lock ''a'' ''shop'' demo_selector 1000)
      (lock_key demo_lock ''shop'' demo_selector) = Some (''a'', 5000001000)"
    by (simp add: lock_view_def locked_by_stored lease_until_def lease_deadline_def LeaseDurationSeconds_def micro_def)
  moreover have "\<forall>l. fake_stored (locked_by demo_lock ''a'' ''shop'' demo_selector 1000)
      (lock_key demo_lock ''shop'' demo_selector) = Some l \<longrightarrow>
      complete_lease l \<and> lease_durationSeconds l = Some LeaseDurationSeconds"
    using locked_by_fields by blast
  ultimately have "(r = Ok (), lock_view fake_stored s' (lock_key demo_lock ''shop'' demo_selector)) =
      (True, Some (''b'', 11000000000))"
    using local_lock_refines [OF fake.served_store_axioms locked_by_wf call]
    by (simp add: locked_by_stored spec_lock_def lease_deadline_def LeaseDurationSeconds_def micro_def)
  with call show ?thesis by blast
qed

text \<open>
  C15. On an API server that answers, releasing the local lock refines the abstract unlock: the lock of
  the caller is freed, a lock that is free stays free, and the lock of someone else stays with them and
  the call fails.
\<close>

theorem local_unlock_refines:
  assumes "served_store c stored valid" "valid s"
    and "LocalUnlock c svc now me ns sel s = (r, s')"
    and "\<forall>l. stored s (lock_key svc ns sel) = Some l \<longrightarrow> complete_lease l"
  shows "(r = Ok (), lock_view stored s' (lock_key svc ns sel)) =
     spec_unlock me (lock_view stored s (lock_key svc ns sel))"
  using served_store.LocalUnlock_refines [OF assms(1-3)] assms(4) by blast

theorem local_unlock_refines_witness:
  "((Err (holder_mismatch ''b'' ''a'') :: unit go) = Ok (),
     lock_view fake_stored (locked_by demo_lock ''a'' ''shop'' demo_selector 1000) (lock_key demo_lock ''shop'' demo_selector)) =
   spec_unlock ''b'' (lock_view fake_stored (locked_by demo_lock ''a'' ''shop'' demo_selector 1000)
     (lock_key demo_lock ''shop'' demo_selector))"
  by (rule local_unlock_refines [OF fake.served_store_axioms, OF locked_by_wf, where now = 9000])
    (use locked_by_fields in \<open>auto simp: fake_unlock_locked\<close>)

text \<open>
  C13. A lease that still runs is safe from every other request to lock: whatever the API server answers
  (errors and lost replies included), and whoever asks, the call fails and no lease is changed.
\<close>

theorem running_lease_is_kept:
  assumes "lease_store c stored valid" "valid s"
    and "LocalLock c svc (n0, n1, n2) me ns sel s = (r, s')"
    and "stored s (lock_key svc ns sel) = Some l" "live_lease l n1"
  shows "(\<exists>e. r = Err e) \<and> stored s' = stored s"
  using lease_store.LocalLock_keeps_live [OF assms(1,3,2,4,5)] .

theorem running_lease_is_kept_witness:
  "\<exists>r s'. LocalLock fake_client demo_lock (2000, 3000, 4000) ''b'' ''shop'' demo_selector
       (locked_by demo_lock ''a'' ''shop'' demo_selector 1000) = (r, s') \<and>
     (\<exists>e. r = Err e) \<and> fake_stored s' = fake_stored (locked_by demo_lock ''a'' ''shop'' demo_selector 1000)"
proof -
  obtain r s' where call: "LocalLock fake_client demo_lock (2000, 3000, 4000) ''b'' ''shop'' demo_selector
       (locked_by demo_lock ''a'' ''shop'' demo_selector 1000) = (r, s')" by fastforce
  from running_lease_is_kept [OF fake.lease_store_axioms, OF locked_by_wf call locked_by_stored] call show ?thesis
    by (simp add: live_lease_def complete_lease_def lease_until_def lease_deadline_def LeaseDurationSeconds_def micro_def)
qed

text \<open>
  Locking and unlocking a budget touches the lease of this budget only, whatever the API server
  answers, and keeps the store well-formed.
\<close>

theorem lock_calls_touch_one_lease:
  assumes "lease_store c stored valid" "valid s"
    and "LocalLock c svc (n0, n1, n2) me ns sel s = (r, s1)" "LocalUnlock c svc now me' ns sel s1 = (r', s2)"
    and "k \<noteq> lock_key svc ns sel"
  shows "valid s1 \<and> valid s2 \<and> stored s1 k = stored s k \<and> stored s2 k = stored s k"
  using lease_store.LocalLock_wf_frame [OF assms(1,3,2), of k] lease_store.LocalUnlock_wf_frame [OF assms(1,4), of k]
    assms(5) by simp

theorem lock_calls_touch_one_lease_witness:
  "fake_wf (locked_by demo_lock ''a'' ''shop'' demo_selector 1000) \<and> fake_wf Map.empty \<and>
   fake_stored (locked_by demo_lock ''a'' ''shop'' demo_selector 1000) (''other'', ''lease'') =
     fake_stored Map.empty (''other'', ''lease'') \<and>
   fake_stored Map.empty (''other'', ''lease'') = fake_stored Map.empty (''other'', ''lease'')"
  by (rule lock_calls_touch_one_lease [OF fake.lease_store_axioms empty_wf fake_lock_free, where me' = "''a''" and
        now = 9000])
    (simp_all add: fake_unlock_locked demo_lock_def)

text \<open>
  C27. When the lease cannot be read, for any reason other than not being there, \<^verbatim>\<open>LocalUnlock\<close> goes on
  with the lease object it has built itself, so the check of the holder passes and the lease is
  deleted, whoever holds it: the lock of another request is lost while it runs.
\<close>

theorem unlock_deletes_unread_lease:
  assumes "lease_store c stored valid" "valid s"
    and "lc_get c (lock_key svc ns sel) s = Inl e" "\<not> IsNotFound e"
    and "lc_delete c (lock_key svc ns sel) s = (None, s')"
  shows "LocalUnlock c svc now me ns sel s = (Ok (), s') \<and> stored s' (lock_key svc ns sel) = None"
  using assms(3-5) lease_store.delete_ok [OF assms(1,2,5)]
  by (simp add: LocalUnlock_def)

theorem unlock_deletes_unread_lease_witness:
  "LocalUnlock unreadable_client demo_lock 9000 ''b'' ''shop'' demo_selector
     (locked_by demo_lock ''a'' ''shop'' demo_selector 1000) = (Ok (), Map.empty) \<and>
   fake_stored Map.empty (lock_key demo_lock ''shop'' demo_selector) = None"
  by (rule unlock_deletes_unread_lease [OF unreadable.lease_store_axioms, OF locked_by_wf,
        where e = "OtherApi ''etcdserver: request timed out''"])
    (simp_all add: unreadable_client_def fake_delete_def locked_by_def fun_upd_idem)

end
