(* ===== verification/Pdb_Service.thy ===== *)
theory Pdb_Service
  imports Budget Scale_Finder Lock_Service
begin

text \<open>
  \<^verbatim>\<open>internal/pdb/service.go\<close>: which budgets select a pod, the pod counts of this cluster and of the
  remote clusters, and the decision over the totals. Listing objects is the Kubernetes API server's
  work and a parameter (\<open>reader\<close>). The decision is shown to be exact: it is made only when every
  cluster has answered, and then it is the verdict of the budget over the sums.
\<close>

section \<open>The service\<close>

text \<open>
  The API reader: listing pods by namespace and selector, listing budgets by namespace, and the
  objects that the scale finder reads.
\<close>

record reader =
  rd_Pods :: "string \<Rightarrow> selector \<Rightarrow> api_error + pod list"
  rd_XPdbs :: "string \<Rightarrow> api_error + xpdb list"
  rd_scale :: scale_api

record pdb_service =
  ps_reader :: reader
  ps_remoteEndpoints :: "string list"

definition getPodsMatchingSelector :: "pdb_service \<Rightarrow> string \<Rightarrow> label_selector \<Rightarrow> go_err + pod list" where
  "getPodsMatchingSelector svc ns ls =
     (case LabelSelectorAsSelector ls of
        Inl e \<Rightarrow> Inl e
      | Inr sel \<Rightarrow>
          (case rd_Pods (ps_reader svc) ns sel of
             Inl e \<Rightarrow> Inl (EApi e)
           | Inr podList \<Rightarrow> Inr podList))"

definition GetPodCounts :: "pdb_service \<Rightarrow> string \<Rightarrow> label_selector \<Rightarrow> (int32 \<times> int32) go" where
  "GetPodCounts svc ns ls =
     (case getPodsMatchingSelector svc ns ls of
        Inl e \<Rightarrow> Err e
      | Inr pods \<Rightarrow>
          (case FindExpectedScale (rd_scale (ps_reader svc)) pods of
             Err e \<Rightarrow> Err e
           | Panic \<Rightarrow> Panic
           | Ok (expectedCount, _) \<Rightarrow> Ok (expectedCount, countHealthyPods pods)))"

text \<open>The loop of \<^verbatim>\<open>GetXPdbsForPod\<close>: the first selector that does not parse ends it.\<close>

fun matching_xpdbs :: "dict \<Rightarrow> xpdb list \<Rightarrow> go_err + xpdb list" where
  "matching_xpdbs labels [] = Inr []"
| "matching_xpdbs labels (x # xs) =
     (case LabelSelectorAsSelector (spec_selector (xpdb_spec x)) of
        Inl e \<Rightarrow> Inl e
      | Inr sel \<Rightarrow>
          (case matching_xpdbs labels xs of
             Inl e \<Rightarrow> Inl e
           | Inr rest \<Rightarrow> Inr (if selector_Matches sel labels then x # rest else rest)))"

definition GetXPdbsForPod :: "pdb_service \<Rightarrow> pod \<Rightarrow> go_err + xpdb list" where
  "GetXPdbsForPod svc p =
     (case rd_XPdbs (ps_reader svc) (pod_namespace p) of
        Inl e \<Rightarrow> Inl (EApi e)
      | Inr items \<Rightarrow> matching_xpdbs (pod_labels p) items)"

text \<open>One task of \<^verbatim>\<open>getRemotePodCounts\<close>, and its loop over the results.\<close>

definition state_task ::
    "('c, 'w) rpc_env \<Rightarrow> string \<Rightarrow> label_selector \<Rightarrow> string \<Rightarrow> ('c, 'w) remote_state
     \<Rightarrow> (go_err + get_state_response) \<times> ('c, 'w) remote_state" where
  "state_task env ns ls =
     rpc_task (re_dial env) (\<lambda>cli. re_GetState env cli
       \<lparr>grq_namespace = ns, grq_labelSelector = Some (ConvertLabelSelectorToState ls)\<rparr>)"

definition add_counts :: "int32 \<times> int32 \<Rightarrow> get_state_response \<Rightarrow> int32 \<times> int32" where
  "add_counts acc res = (fst acc + grs_desiredHealthy res, snd acc + grs_healthy res)"

definition getRemotePodCounts ::
    "('c, 'w) rpc_env \<Rightarrow> pdb_service \<Rightarrow> string list \<Rightarrow> string \<Rightarrow> label_selector \<Rightarrow> ('c, 'w) remote_state
     \<Rightarrow> (int32 \<times> int32) go \<times> ('c, 'w) remote_state" where
  "getRemotePodCounts env svc order ns ls rs =
     (if length (ps_remoteEndpoints svc) = 0 then (Ok (0, 0), rs)
      else
        (case pool_run (state_task env ns ls) order rs of
           (er, rs1) \<Rightarrow>
             (case pool_Wait er of
                Inl e \<Rightarrow> (Err e, rs1)
              | Inr results \<Rightarrow> (Ok (foldl add_counts (0, 0) results), rs1))))"

definition CanPodBeDisrupted ::
    "(rat \<Rightarrow> int64) \<Rightarrow> ('c, 'w) rpc_env \<Rightarrow> pdb_service \<Rightarrow> string list \<Rightarrow> pod \<Rightarrow> xpdb
     \<Rightarrow> ('c, 'w) remote_state \<Rightarrow> bool go \<times> ('c, 'w) remote_state" where
  "CanPodBeDisrupted f2i env svc order candidatePod x rs =
     (case (if length (ps_remoteEndpoints svc) > 0
            then getRemotePodCounts env svc order (xpdb_namespace x) (spec_selector (xpdb_spec x)) rs
            else (Ok (0, 0), rs)) of
        (Err e, rs1) \<Rightarrow> (Err e, rs1)
      | (Panic, rs1) \<Rightarrow> (Panic, rs1)
      | (Ok (remoteExpectedCount, remoteHealthy), rs1) \<Rightarrow>
          (case GetPodCounts svc (xpdb_namespace x) (spec_selector (xpdb_spec x)) of
             Err e \<Rightarrow> (Err e, rs1)
           | Panic \<Rightarrow> (Panic, rs1)
           | Ok (localExpectedCount, localHealthy) \<Rightarrow>
               (let totalHealthy = remoteHealthy + localHealthy;
                    totalExpectedCount = remoteExpectedCount + localExpectedCount
                in (of_sum (disruptionAllowed f2i (Some x) candidatePod totalExpectedCount totalHealthy), rs1))))"


section \<open>Which budgets apply\<close>

text \<open>
  The budgets found are exactly those of the namespace that select the pod, in list order; if one
  selector of the namespace is not valid, the call fails, whatever the pod.
\<close>

lemma matching_xpdbs_Inr:
  "matching_xpdbs labels xs = Inr ys \<Longrightarrow>
     ys = filter (\<lambda>x. selects (spec_selector (xpdb_spec x)) labels) xs"
  by (induction xs arbitrary: ys)
    (auto split: sum.splits if_splits dest: LabelSelectorAsSelector_selects)

lemma matching_xpdbs_total:
  "(\<exists>ys. matching_xpdbs labels xs = Inr ys) \<longleftrightarrow>
     (\<forall>x\<in>set xs. valid_selector (spec_selector (xpdb_spec x)))"
proof (induction xs)
  case (Cons x xs)
  show ?case
  proof (cases "LabelSelectorAsSelector (spec_selector (xpdb_spec x))")
    case (Inl e)
    then have "\<not> valid_selector (spec_selector (xpdb_spec x))"
      using LabelSelectorAsSelector_total [of "spec_selector (xpdb_spec x)"] by auto
    with Inl show ?thesis by simp
  next
    case (Inr sel)
    then have "valid_selector (spec_selector (xpdb_spec x))"
      using LabelSelectorAsSelector_total [of "spec_selector (xpdb_spec x)"] by auto
    with Inr Cons show ?thesis by (auto split: sum.splits)
  qed
qed simp


section \<open>The contract of the API reader\<close>

text \<open>An empty namespace in a list request stands for all namespaces.\<close>

definition in_namespace :: "string \<Rightarrow> string \<Rightarrow> bool" where
  "in_namespace ns objNs \<longleftrightarrow> ns = [] \<or> objNs = ns"

text \<open>
  A reader of a cluster with the given pods and budgets: a list request that succeeds returns
  exactly the matching objects, in any order.
\<close>

locale cluster_reader =
  fixes rd :: reader and pods :: "pod list" and xpdbs :: "xpdb list"
  assumes list_pods: "rd_Pods rd ns sel = Inr ps \<Longrightarrow>
      mset ps = mset (filter (\<lambda>p. in_namespace ns (pod_namespace p) \<and> selector_Matches sel (pod_labels p)) pods)"
    and list_xpdbs: "rd_XPdbs rd ns = Inr xs \<Longrightarrow>
      mset xs = mset (filter (\<lambda>x. in_namespace ns (xpdb_namespace x)) xpdbs)"
begin

lemma pods_selected:
  assumes "getPodsMatchingSelector svc ns ls = Inr ps" "ps_reader svc = rd"
  shows "mset ps = mset (filter (\<lambda>p. in_namespace ns (pod_namespace p) \<and> selects ls (pod_labels p)) pods)"
proof -
  obtain sel where sel: "LabelSelectorAsSelector ls = Inr sel" and "rd_Pods rd ns sel = Inr ps"
    using assms by (auto simp: getPodsMatchingSelector_def split: sum.splits)
  then show ?thesis using list_pods LabelSelectorAsSelector_selects [OF sel] by simp
qed

lemma xpdbs_selected:
  assumes "GetXPdbsForPod svc p = Inr xs" "ps_reader svc = rd"
  shows "mset xs = mset (filter (\<lambda>x. in_namespace (pod_namespace p) (xpdb_namespace x) \<and>
           selects (spec_selector (xpdb_spec x)) (pod_labels p)) xpdbs)"
proof -
  obtain items where items: "rd_XPdbs rd (pod_namespace p) = Inr items"
    and "xs = filter (\<lambda>x. selects (spec_selector (xpdb_spec x)) (pod_labels p)) items"
    using assms by (auto simp: GetXPdbsForPod_def dest: matching_xpdbs_Inr split: sum.splits)
  then have "mset xs = filter_mset (\<lambda>x. selects (spec_selector (xpdb_spec x)) (pod_labels p)) (mset items)"
    by simp
  then show ?thesis using list_xpdbs [OF items] by (simp add: filter_filter_mset conj_commute)
qed

text \<open>
  The counts of a cluster: the healthy pods among the selected ones, and the scales of their
  controllers, each controller counted once.
\<close>

lemma counted_pods:
  assumes "GetPodCounts svc ns ls = Ok (expected, healthy)" "ps_reader svc = rd"
  obtains ps un where "mset ps = mset (filter (\<lambda>p. in_namespace ns (pod_namespace p) \<and> selects ls (pod_labels p)) pods)"
    and "FindExpectedScale (rd_scale rd) ps = Ok (expected, un)" "healthy = countHealthyPods ps"
proof -
  obtain ps un where "getPodsMatchingSelector svc ns ls = Inr ps"
    and "FindExpectedScale (rd_scale rd) ps = Ok (expected, un)" "healthy = countHealthyPods ps"
    using assms by (auto simp: GetPodCounts_def split: sum.splits go.splits)
  then show thesis using pods_selected assms(2) that by blast
qed

text \<open>Without any bound on the number of pods, the counter may wrap around, but only downwards.\<close>

lemma counted_healthy_le:
  assumes "GetPodCounts svc ns ls = Ok (expected, healthy)" "ps_reader svc = rd"
  shows "sint healthy \<le>
    int (length (filter healthy_pod (filter (\<lambda>p. in_namespace ns (pod_namespace p) \<and> selects ls (pod_labels p)) pods)))"
proof -
  obtain ps where m: "mset ps = mset (filter (\<lambda>p. in_namespace ns (pod_namespace p) \<and> selects ls (pod_labels p)) pods)"
    and h: "healthy = countHealthyPods ps"
    using counted_pods [OF assms] by blast
  have "length (filter healthy_pod ps) =
      length (filter healthy_pod (filter (\<lambda>p. in_namespace ns (pod_namespace p) \<and> selects ls (pod_labels p)) pods))"
    by (metis m mset_filter size_mset)
  then show ?thesis using sint32_of_nat_le h by (simp add: countHealthyPods_def count_healthy_eq)
qed

lemma counts_exact:
  assumes "GetPodCounts svc ns ls = Ok (expected, healthy)" "ps_reader svc = rd" "length pods < 2 ^ 31"
  defines "sel \<equiv> filter (\<lambda>p. in_namespace ns (pod_namespace p) \<and> selects ls (pod_labels p)) pods"
  shows "sint healthy = int (length (filter healthy_pod sel))"
    and "consistent_controllers (rd_scale rd) sel rootOf scale \<Longrightarrow>
      expected = (\<Sum>u\<in>rootOf ` controller_refs sel. scale u)"
proof -
  obtain ps un where m: "mset ps = mset sel"
    and f: "FindExpectedScale (rd_scale rd) ps = Ok (expected, un)" and h: "healthy = countHealthyPods ps"
    using counted_pods [OF assms(1,2)] unfolding sel_def by blast
  from m have "set ps = set sel" by (rule mset_eq_setD)
  then have refs: "controller_refs ps = controller_refs sel"
    and cc: "consistent_controllers (rd_scale rd) ps rootOf scale \<longleftrightarrow>
      consistent_controllers (rd_scale rd) sel rootOf scale"
    by (simp_all add: controller_refs_def consistent_controllers_def)
  have len: "length (filter P ps) = length (filter P sel)" for P
    by (metis m mset_filter size_mset)
  have "length ps = length sel" using m by (rule mset_eq_length)
  also have "\<dots> \<le> length pods" by (simp add: sel_def)
  finally have "length ps < 2 ^ 31" using assms(3) by simp
  then show "sint healthy = int (length (filter healthy_pod sel))"
    by (simp add: h countHealthyPods_eq len)
  show "expected = (\<Sum>u\<in>rootOf ` controller_refs sel. scale u)"
    if "consistent_controllers (rd_scale rd) sel rootOf scale"
    using FindExpectedScale_correct [of "rd_scale rd" ps rootOf scale] that f by (simp add: refs cc)
qed

end

text \<open>The list requests of the in-memory client: by namespace, sorted, then by label selector.\<close>

definition fake_List_pods :: "pod list \<Rightarrow> string \<Rightarrow> selector \<Rightarrow> api_error + pod list" where
  "fake_List_pods objs ns sel =
     Inr (filter (\<lambda>p. selector_Matches sel (pod_labels p))
       (sort_key (\<lambda>p. pod_namespace p) (sort_key (\<lambda>p. pod_name p)
         (filter (\<lambda>p. in_namespace ns (pod_namespace p)) objs))))"

definition fake_List_xpdbs :: "xpdb list \<Rightarrow> string \<Rightarrow> api_error + xpdb list" where
  "fake_List_xpdbs objs ns =
     Inr (sort_key (\<lambda>x. xpdb_namespace x) (sort_key (\<lambda>x. xpdb_name x)
       (filter (\<lambda>x. in_namespace ns (xpdb_namespace x)) objs)))"

definition fake_reader :: "pod list \<Rightarrow> xpdb list \<Rightarrow> scale_api \<Rightarrow> reader" where
  "fake_reader pods xpdbs api =
     \<lparr>rd_Pods = fake_List_pods pods, rd_XPdbs = fake_List_xpdbs xpdbs, rd_scale = api\<rparr>"

interpretation fake_list: cluster_reader "fake_reader pods xpdbs api" pods xpdbs for pods xpdbs api
proof (unfold_locales, goal_cases)
  case (1 ns sel ps)
  then show ?case
    by (auto simp: fake_reader_def fake_List_pods_def filter_filter_mset conj_commute)
next
  case (2 ns xs)
  then show ?case by (auto simp: fake_reader_def fake_List_xpdbs_def)
qed


section \<open>The decision over all clusters\<close>

lemma add_counts_sum:
  "foldl add_counts acc results =
     (fst acc + sum_list (map grs_desiredHealthy results), snd acc + sum_list (map grs_healthy results))"
  by (induction results arbitrary: acc) (simp_all add: add_counts_def algebra_simps)

text \<open>
  The remote counts: there is a result exactly when every remote call succeeded, and it is the
  sum of the answers.
\<close>

lemma getRemotePodCounts_Ok:
  assumes "ps_remoteEndpoints svc \<noteq> []"
  shows "getRemotePodCounts env svc order ns ls rs = (Ok (d, h), rs') \<longleftrightarrow>
     (\<exists>results. all_tasks (state_task env ns ls) order rs results rs' \<and>
        d = sum_list (map grs_desiredHealthy results) \<and> h = sum_list (map grs_healthy results))"
  using assms
  by (auto simp: getRemotePodCounts_def pool_Wait_Inr pool_run_ok [symmetric] add_counts_sum
      split: prod.splits sum.splits)

lemma CanPodBeDisrupted_Ok:
  assumes "ps_remoteEndpoints svc = [] \<longrightarrow> order = []"
  shows "CanPodBeDisrupted f2i env svc order p x rs = (Ok b, rs') \<longleftrightarrow>
     (\<exists>results le lh.
        all_tasks (state_task env (xpdb_namespace x) (spec_selector (xpdb_spec x))) order rs results rs' \<and>
        GetPodCounts svc (xpdb_namespace x) (spec_selector (xpdb_spec x)) = Ok (le, lh) \<and>
        disruptionAllowed f2i (Some x) p
          (sum_list (map grs_desiredHealthy results) + le) (sum_list (map grs_healthy results) + lh) = Inr b)"
    (is "?lhs \<longleftrightarrow> ?rhs")
proof -
  let ?g = "getRemotePodCounts env svc order (xpdb_namespace x) (spec_selector (xpdb_spec x)) rs"
  let ?r = "if length (ps_remoteEndpoints svc) > 0 then ?g else (Ok (0, 0), rs)"
  have remote: "?r = (Ok (d, h), rs1) \<longleftrightarrow>
      (\<exists>results. all_tasks (state_task env (xpdb_namespace x) (spec_selector (xpdb_spec x))) order rs results rs1 \<and>
        d = sum_list (map grs_desiredHealthy results) \<and> h = sum_list (map grs_healthy results))" for d h rs1
    using assms
    by (cases "ps_remoteEndpoints svc = []")
      (auto simp: getRemotePodCounts_Ok intro: all_tasks.none elim: all_tasks_NilE)
  have "?lhs \<longleftrightarrow> (\<exists>d h le lh. ?r = (Ok (d, h), rs') \<and>
      GetPodCounts svc (xpdb_namespace x) (spec_selector (xpdb_spec x)) = Ok (le, lh) \<and>
      disruptionAllowed f2i (Some x) p (d + le) (h + lh) = Inr b)"
    unfolding CanPodBeDisrupted_def Let_def
    by (auto split: prod.splits go.splits sum.splits simp del: length_greater_0_conv
        simp: of_sum_eq_Ok)
  also have "\<dots> \<longleftrightarrow> ?rhs" unfolding remote by blast
  finally show ?thesis .
qed

text \<open>Sums of 32-bit counts that do not overflow.\<close>

lemma sint_sum_list:
  fixes ws :: "int32 list"
  assumes "\<forall>w\<in>set ws. 0 \<le> sint w" "sum_list (map sint ws) < 2 ^ 31"
  shows "sint (sum_list ws) = sum_list (map sint ws)"
  using assms
proof (induction ws)
  case (Cons w ws)
  have rest: "0 \<le> sum_list (map sint ws)" using Cons.prems(1) by (intro sum_list_nonneg) auto
  then have "sint (sum_list ws) = sum_list (map sint ws)" using Cons by simp
  then show ?case using Cons.prems rest by (simp add: sint32_plus)
qed simp

end
