(* ===== verification/State_Server.thy ===== *)
theory State_Server
  imports Pdb_Service
begin

text \<open>
  \<^verbatim>\<open>internal/state/server/server.go\<close>: the gRPC handlers through which the other clusters take and
  release the lease here and read the pod counts, and the start of the server. A panic in a handler
  is turned into an internal error by the recovery interceptor.

  The second half connects the clusters: the remote side of the lock service and of the pod counts
  is the state server of each endpoint, behind a network that may lose a request or a reply.
\<close>

section \<open>The handlers\<close>

definition rpc_internal :: "string \<Rightarrow> go_err" where
  "rpc_internal m = EMsg (''rpc error: code = Internal desc = '' @ m)"

text \<open>The recovery handler: the panic value (a nil dereference) becomes the message.\<close>

definition grpcPanicRecoveryHandler :: go_err where
  "grpcPanicRecoveryHandler =
     rpc_internal ''runtime error: invalid memory address or nil pointer dereference''"

definition stateServer_Lock ::
    "'s lease_client \<Rightarrow> lock_service \<Rightarrow> int \<times> int \<times> int \<Rightarrow> lock_request \<Rightarrow> 's \<Rightarrow> (go_err + lock_response) \<times> 's" where
  "stateServer_Lock c svc clk req s =
     (case ConvertLabelSelectorToMetaV1 (lrq_labelSelector req) of
        Ok labelSelector \<Rightarrow>
          (case LocalLock c svc clk (lrq_leaseHolderIdentity req) (lrq_namespace req) labelSelector s of
             (Ok _, s1) \<Rightarrow> (Inr \<lparr>lrs_acquired = True, lrs_error = []\<rparr>, s1)
           | (Err e, s1) \<Rightarrow> (Inr \<lparr>lrs_acquired = False, lrs_error = Error e\<rparr>, s1)
           | (Panic, s1) \<Rightarrow> (Inl grpcPanicRecoveryHandler, s1))
      | _ \<Rightarrow> (Inl grpcPanicRecoveryHandler, s))"

definition stateServer_Unlock ::
    "'s lease_client \<Rightarrow> lock_service \<Rightarrow> int \<Rightarrow> unlock_request \<Rightarrow> 's \<Rightarrow> (go_err + unlock_response) \<times> 's" where
  "stateServer_Unlock c svc now req s =
     (case ConvertLabelSelectorToMetaV1 (urq_labelSelector req) of
        Ok labelSelector \<Rightarrow>
          (case LocalUnlock c svc now (urq_leaseHolderIdentity req) (urq_namespace req) labelSelector s of
             (Ok _, s1) \<Rightarrow> (Inr \<lparr>urs_unlocked = True, urs_error = []\<rparr>, s1)
           | (Err e, s1) \<Rightarrow> (Inr \<lparr>urs_unlocked = False, urs_error = Error e\<rparr>, s1)
           | (Panic, s1) \<Rightarrow> (Inl grpcPanicRecoveryHandler, s1))
      | _ \<Rightarrow> (Inl grpcPanicRecoveryHandler, s))"

definition stateServer_GetState :: "pdb_service \<Rightarrow> get_state_request \<Rightarrow> go_err + get_state_response" where
  "stateServer_GetState svc req =
     (case ConvertLabelSelectorToMetaV1 (grq_labelSelector req) of
        Ok labelSelector \<Rightarrow>
          (case GetPodCounts svc (grq_namespace req) labelSelector of
             Ok (desiredHealthy, healthy) \<Rightarrow>
               Inr \<lparr>grs_desiredHealthy = desiredHealthy, grs_healthy = healthy\<rparr>
           | Err _ \<Rightarrow> Inl (rpc_internal ''unable to get pod counts'')
           | Panic \<Rightarrow> Inl grpcPanicRecoveryHandler)
      | _ \<Rightarrow> Inl grpcPanicRecoveryHandler)"


section \<open>Starting the server\<close>

text \<open>
  What ends the final \<^verbatim>\<open>select\<close>: the context is done, or the goroutine sends the error of
  \<^verbatim>\<open>grpcServer.Serve\<close>.
\<close>

datatype serve_event = CtxDone | ServeFailed go_err

record server_env =
  se_listen :: "string \<Rightarrow> go_err option"
  se_certwatcher :: "string \<Rightarrow> string \<Rightarrow> go_err option"
  se_readFile :: "string \<Rightarrow> go_err + string"
  se_appendCerts :: "string \<Rightarrow> bool"
  se_register :: bool
  se_ended :: serve_event

text \<open>
  What \<^verbatim>\<open>Start\<close> returns, with Go's variable \<^verbatim>\<open>err\<close> written out: the last case returns the variable,
  which the successful \<^verbatim>\<open>os.ReadFile\<close> has set to nil, and not the error received. \<^verbatim>\<open>MustRegister\<close> panics when the
  registry does not take the metrics of the server (\<open>se_register\<close>).
\<close>

definition Server_Start :: "server_env \<Rightarrow> nat \<Rightarrow> string \<Rightarrow> unit go" where
  "Server_Start env port certsDir =
     (case se_listen env ('':'' @ format_nat port) of
        Some e \<Rightarrow> Err e
      | None \<Rightarrow>
          (case se_certwatcher env (path_Join [certsDir, ''tls.crt'']) (path_Join [certsDir, ''tls.key'']) of
             Some e \<Rightarrow> Err (EWrap ''error creating cert watcher'' e)
           | None \<Rightarrow>
               (case se_readFile env (path_Join [certsDir, ''ca.crt'']) of
                  Inl e \<Rightarrow> Err (EWrap ''failed to read client CA cert'' e)
                | Inr clientCABytes \<Rightarrow>
                    (let err = None
                     in if \<not> se_appendCerts env clientCABytes
                        then Err (EMsg ''failed to append client CA cert to CA pool'')
                        else if \<not> se_register env then Panic
                        else (case se_ended env of
                                CtxDone \<Rightarrow> Ok ()
                              | ServeFailed _ \<Rightarrow> (case err of None \<Rightarrow> Ok () | Some e \<Rightarrow> Err e))))))"

text \<open>Everything that \<^const>\<open>Server_Start\<close> can report is a failure before the server serves.\<close>

lemma Server_Start_ended:
  "Server_Start env port certsDir = Server_Start (env\<lparr>se_ended := ev\<rparr>) port certsDir"
  by (auto simp: Server_Start_def Let_def split: option.splits sum.splits serve_event.splits)


section \<open>The handlers and the services\<close>

text \<open>A request that was built by a peer reaches the service with the peer's own selector.\<close>

lemma stateServer_Lock_converted:
  "stateServer_Lock c svc clk \<lparr>lrq_leaseHolderIdentity = me, lrq_namespace = ns,
       lrq_labelSelector = Some (ConvertLabelSelectorToState sel)\<rparr> s =
     (case LocalLock c svc clk me ns sel s of
        (Ok _, s1) \<Rightarrow> (Inr \<lparr>lrs_acquired = True, lrs_error = []\<rparr>, s1)
      | (Err e, s1) \<Rightarrow> (Inr \<lparr>lrs_acquired = False, lrs_error = Error e\<rparr>, s1)
      | (Panic, s1) \<Rightarrow> (Inl grpcPanicRecoveryHandler, s1))"
  by (simp add: stateServer_Lock_def)

lemma stateServer_Unlock_converted:
  "stateServer_Unlock c svc now \<lparr>urq_leaseHolderIdentity = me, urq_namespace = ns,
       urq_labelSelector = Some (ConvertLabelSelectorToState sel)\<rparr> s =
     (case LocalUnlock c svc now me ns sel s of
        (Ok _, s1) \<Rightarrow> (Inr \<lparr>urs_unlocked = True, urs_error = []\<rparr>, s1)
      | (Err e, s1) \<Rightarrow> (Inr \<lparr>urs_unlocked = False, urs_error = Error e\<rparr>, s1)
      | (Panic, s1) \<Rightarrow> (Inl grpcPanicRecoveryHandler, s1))"
  by (simp add: stateServer_Unlock_def)

lemma stateServer_GetState_converted:
  "stateServer_GetState svc \<lparr>grq_namespace = ns, grq_labelSelector = Some (ConvertLabelSelectorToState sel)\<rparr> =
       Inr \<lparr>grs_desiredHealthy = d, grs_healthy = h\<rparr> \<longleftrightarrow>
     GetPodCounts svc ns sel = Ok (d, h)"
  by (auto simp: stateServer_GetState_def split: go.splits)


section \<open>The clusters behind the endpoints\<close>

text \<open>One remote cluster: its API server's leases, its services and its clock readings.\<close>

record 's cluster =
  cl_client :: "'s lease_client"
  cl_lock :: lock_service
  cl_pdb :: pdb_service
  cl_clk :: "int \<times> int \<times> int"
  cl_now :: int

text \<open>
  The clusters by endpoint and the network to them: dialling may fail, a request may be lost on its
  way, or the reply (a timeout after the effect).
\<close>

record 's mesh =
  ms_cluster :: "string \<Rightarrow> 's cluster"
  ms_dial :: "string dial_env"
  ms_connect :: "string \<Rightarrow> go_err option"
  ms_request :: "string \<Rightarrow> go_err option"
  ms_reply :: "string \<Rightarrow> go_err option"

definition over_network ::
    "'s mesh \<Rightarrow> string \<Rightarrow> ('s \<Rightarrow> (go_err + 'r) \<times> 's) \<Rightarrow> (string \<Rightarrow> 's) \<Rightarrow> (go_err + 'r) \<times> (string \<Rightarrow> 's)" where
  "over_network m e handler w =
     (case ms_request m e of
        Some err \<Rightarrow> (Inl err, w)
      | None \<Rightarrow>
          (case handler (w e) of (r, s1) \<Rightarrow>
             (case ms_reply m e of
                Some err \<Rightarrow> (Inl err, w(e := s1))
              | None \<Rightarrow> (r, w(e := s1)))))"

text \<open>A connection is named by the endpoint that was dialled.\<close>

definition mesh_env :: "'s mesh \<Rightarrow> (string, string \<Rightarrow> 's) rpc_env" where
  "mesh_env m =
     \<lparr>re_dial = (ms_dial m)\<lparr>de_grpcNewClient :=
        (\<lambda>e. case ms_connect m e of Some err \<Rightarrow> Inl err | None \<Rightarrow> Inr e)\<rparr>,
      re_Lock = (\<lambda>e req. over_network m e
        (stateServer_Lock (cl_client (ms_cluster m e)) (cl_lock (ms_cluster m e)) (cl_clk (ms_cluster m e)) req)),
      re_Unlock = (\<lambda>e req. over_network m e
        (stateServer_Unlock (cl_client (ms_cluster m e)) (cl_lock (ms_cluster m e)) (cl_now (ms_cluster m e)) req)),
      re_GetState = (\<lambda>e req. over_network m e
        (\<lambda>s. (stateServer_GetState (cl_pdb (ms_cluster m e)) req, s)))\<rparr>"

text \<open>A pool that was filled by dialling: the client of an endpoint leads to that endpoint.\<close>

definition honest_pool :: "string client_pool \<Rightarrow> bool" where
  "honest_pool p \<longleftrightarrow> (\<forall>e c. cp_clients p e = Some c \<longrightarrow> c = e)"

lemma honest_pool_new: "honest_pool (NewClientPool d)"
  by (simp add: honest_pool_def NewClientPool_def)

lemma honest_pool_Get:
  assumes "honest_pool p" "state_pool_Get (re_dial (mesh_env m)) p e = (r, p')"
  shows "honest_pool p'" "r = Inr c \<Longrightarrow> c = e"
  using assms
  by (auto simp: honest_pool_def mesh_env_def state_pool_Get_def state_newClient_def dial_with_ca_def
      split: option.splits sum.splits if_splits prod.splits)


text \<open>One task of the pool on the mesh: it touches only its own cluster.\<close>

lemma mesh_task:
  assumes "honest_pool p"
    and "rpc_task (re_dial (mesh_env m)) (\<lambda>cli. over_network m cli (h cli)) e (p, w) = (r, (p', w'))"
  shows "honest_pool p'" "\<And>e'. e' \<noteq> e \<Longrightarrow> w' e' = w e'"
    "\<And>v. r = Inr v \<Longrightarrow> h e (w e) = (Inr v, w' e)"
proof -
  obtain g p1 where g: "state_pool_Get (re_dial (mesh_env m)) p e = (g, p1)" by fastforce
  have "honest_pool p' \<and> (\<forall>e'. e' \<noteq> e \<longrightarrow> w' e' = w e') \<and> (\<forall>v. r = Inr v \<longrightarrow> h e (w e) = (Inr v, w' e))"
  proof (cases g)
    case (Inl err)
    then show ?thesis using assms(2) g honest_pool_Get(1) [OF assms(1) g] by (auto simp: rpc_task_def)
  next
    case (Inr cli)
    then have "cli = e" by (rule honest_pool_Get(2) [OF assms(1) g])
    with assms(2) g Inr honest_pool_Get(1) [OF assms(1) g] show ?thesis
      by (auto simp: rpc_task_def over_network_def split: option.splits prod.splits)
  qed
  then show "honest_pool p'" "\<And>e'. e' \<noteq> e \<Longrightarrow> w' e' = w e'"
    "\<And>v. r = Inr v \<Longrightarrow> h e (w e) = (Inr v, w' e)" by auto
qed

text \<open>
  A pool run in which every call succeeded: every cluster's handler ran once, on the state the
  cluster had before, and the results are the answers, in the order of completion.
\<close>

lemma mesh_all_tasks:
  assumes "all_tasks (rpc_task (re_dial (mesh_env m)) (\<lambda>cli. over_network m cli (h cli)))
             order (p, w) results (p', w')"
    and "honest_pool p" "distinct order"
  shows "honest_pool p' \<and> (\<forall>e. e \<notin> set order \<longrightarrow> w' e = w e) \<and>
     (\<exists>ans. results = map ans order \<and> (\<forall>e\<in>set order. h e (w e) = (Inr (ans e), w' e)))"
  using assms
proof (induction order arbitrary: p w results)
  case Nil
  then show ?case by (auto elim: all_tasks_NilE)
next
  case (Cons e es)
  obtain r rs p1 w1 where t: "rpc_task (re_dial (mesh_env m)) (\<lambda>cli. over_network m cli (h cli)) e (p, w)
      = (Inr r, (p1, w1))" and res: "results = r # rs"
    and rest: "all_tasks (rpc_task (re_dial (mesh_env m)) (\<lambda>cli. over_network m cli (h cli)))
             es (p1, w1) rs (p', w')"
    using Cons.prems(1) by (elim all_tasks_ConsE) auto
  note t' = mesh_task [OF Cons.prems(2) t]
  from Cons.IH [OF rest t'(1)] Cons.prems(3) obtain ans where ih: "honest_pool p'"
    "\<forall>e. e \<notin> set es \<longrightarrow> w' e = w1 e" "rs = map ans es" "\<forall>e\<in>set es. h e (w1 e) = (Inr (ans e), w' e)"
    by auto
  have "results = map (ans(e := r)) (e # es)" using ih(3) res Cons.prems(3) by (auto simp: map_idI)
  moreover have "\<forall>e'\<in>set (e # es). h e' (w e') = (Inr ((ans(e := r)) e'), w' e')"
    using ih(2,4) t'(2,3) Cons.prems(3) by auto
  moreover have "\<forall>e'. e' \<notin> set (e # es) \<longrightarrow> w' e' = w e'" using ih(2) t'(2) by auto
  ultimately show ?case using ih(1) by blast
qed

text \<open>Taking the remote locks, cluster by cluster.\<close>

lemma remoteLock_tasks:
  assumes "remoteLock env svc order me ns sel rs = (Ok (), rs')" "ls_remoteEndpoints svc \<noteq> []"
  obtains results where
    "all_tasks (rpc_task (re_dial env) (\<lambda>cli. re_Lock env cli
       \<lparr>lrq_leaseHolderIdentity = me, lrq_namespace = ns,
        lrq_labelSelector = Some (ConvertLabelSelectorToState sel)\<rparr>)) order rs results rs'"
    "\<forall>r\<in>set results. lrs_acquired r"
  using assms
  by (auto simp: remoteLock_def Let_def pool_Wait_Inr pool_run_ok filter_empty_conv
      split: prod.splits sum.splits if_splits)

lemma remoteLock_honest:
  assumes "remoteLock (mesh_env m) svc order me ns sel (p, w) = (Ok (), (p', w'))"
    and "honest_pool p" "distinct order"
  shows "honest_pool p'"
proof (cases "ls_remoteEndpoints svc = []")
  case True
  then show ?thesis using assms(1,2) by (simp add: remoteLock_def)
next
  case False
  obtain results where "all_tasks (rpc_task (re_dial (mesh_env m)) (\<lambda>cli. re_Lock (mesh_env m) cli
       \<lparr>lrq_leaseHolderIdentity = me, lrq_namespace = ns,
        lrq_labelSelector = Some (ConvertLabelSelectorToState sel)\<rparr>)) order (p, w) results (p', w')"
    using remoteLock_tasks [OF assms(1) False] by metis
  then show ?thesis
    using mesh_all_tasks [of m "\<lambda>e. stateServer_Lock (cl_client (ms_cluster m e)) (cl_lock (ms_cluster m e))
      (cl_clk (ms_cluster m e)) \<lparr>lrq_leaseHolderIdentity = me, lrq_namespace = ns,
        lrq_labelSelector = Some (ConvertLabelSelectorToState sel)\<rparr>" order p w results p' w'] assms(2,3)
    by (simp add: mesh_env_def)
qed

lemma remoteLock_mesh:
  assumes "remoteLock (mesh_env m) svc order me ns sel (p, w) = (Ok (), (p', w'))"
    and "honest_pool p" "distinct order" "set order = set (ls_remoteEndpoints svc)" "e \<in> set order"
  shows "LocalLock (cl_client (ms_cluster m e)) (cl_lock (ms_cluster m e)) (cl_clk (ms_cluster m e)) me ns sel (w e)
     = (Ok (), w' e)"
proof -
  let ?req = "\<lparr>lrq_leaseHolderIdentity = me, lrq_namespace = ns,
      lrq_labelSelector = Some (ConvertLabelSelectorToState sel)\<rparr>"
  let ?h = "\<lambda>e. stateServer_Lock (cl_client (ms_cluster m e)) (cl_lock (ms_cluster m e))
      (cl_clk (ms_cluster m e)) ?req"
  have "ls_remoteEndpoints svc \<noteq> []" using assms(4,5) by auto
  then obtain results where
    "all_tasks (rpc_task (re_dial (mesh_env m)) (\<lambda>cli. re_Lock (mesh_env m) cli ?req))
      order (p, w) results (p', w')" and acq: "\<forall>r\<in>set results. lrs_acquired r"
    using remoteLock_tasks [OF assms(1)] by metis
  then have all: "all_tasks (rpc_task (re_dial (mesh_env m)) (\<lambda>cli. over_network m cli (?h cli)))
      order (p, w) results (p', w')" by (simp add: mesh_env_def)
  obtain ans where "results = map ans order" "\<forall>e\<in>set order. ?h e (w e) = (Inr (ans e), w' e)"
    using mesh_all_tasks [OF all assms(2,3)] by blast
  then have "?h e (w e) = (Inr (ans e), w' e)" "lrs_acquired (ans e)" using acq assms(5) by auto
  then show ?thesis unfolding stateServer_Lock_converted
    by (cases "ans e") (auto split: prod.splits go.splits)
qed

lemma remoteUnlock_mesh:
  assumes "remoteUnlock (mesh_env m) svc order me ns sel (p, w) = (Ok (), (p', w'))"
    and "honest_pool p" "distinct order" "set order = set (ls_remoteEndpoints svc)" "e \<in> set order"
  shows "LocalUnlock (cl_client (ms_cluster m e)) (cl_lock (ms_cluster m e)) (cl_now (ms_cluster m e)) me ns sel (w e)
     = (Ok (), w' e)"
proof -
  let ?req = "\<lparr>urq_leaseHolderIdentity = me, urq_namespace = ns,
      urq_labelSelector = Some (ConvertLabelSelectorToState sel)\<rparr>"
  let ?h = "\<lambda>e. stateServer_Unlock (cl_client (ms_cluster m e)) (cl_lock (ms_cluster m e))
      (cl_now (ms_cluster m e)) ?req"
  have "ls_remoteEndpoints svc \<noteq> []" using assms(4,5) by auto
  then obtain results where
    all: "all_tasks (rpc_task (re_dial (mesh_env m)) (\<lambda>cli. over_network m cli (?h cli)))
      order (p, w) results (p', w')" and rel: "\<forall>r\<in>set results. urs_unlocked r"
    using assms(1)
    by (auto simp: remoteUnlock_def Let_def pool_Wait_Inr pool_run_ok mesh_env_def filter_empty_conv
        split: prod.splits sum.splits if_splits)
  obtain ans where "results = map ans order" "\<forall>e\<in>set order. ?h e (w e) = (Inr (ans e), w' e)"
    using mesh_all_tasks [OF all assms(2,3)] by blast
  then have "?h e (w e) = (Inr (ans e), w' e)" "urs_unlocked (ans e)" using rel assms(5) by auto
  then show ?thesis unfolding stateServer_Unlock_converted
    by (cases "ans e") (auto split: prod.splits go.splits)
qed

text \<open>Reading the remote counts: every cluster's own counts, and no cluster changes.\<close>

lemma state_tasks_mesh:
  assumes "all_tasks (state_task (mesh_env m) ns sel) order (p, w) results (p', w')"
    and "honest_pool p" "distinct order"
  shows "honest_pool p' \<and> w' = w \<and> (\<exists>ans. results = map ans order \<and>
     (\<forall>e\<in>set order. GetPodCounts (cl_pdb (ms_cluster m e)) ns sel =
        Ok (grs_desiredHealthy (ans e), grs_healthy (ans e))))"
proof -
  let ?req = "\<lparr>grq_namespace = ns, grq_labelSelector = Some (ConvertLabelSelectorToState sel)\<rparr>"
  let ?h = "\<lambda>e s. (stateServer_GetState (cl_pdb (ms_cluster m e)) ?req, s)"
  have "state_task (mesh_env m) ns sel =
      rpc_task (re_dial (mesh_env m)) (\<lambda>cli. over_network m cli (?h cli))"
    by (simp add: state_task_def mesh_env_def)
  then obtain ans where h: "honest_pool p'" "\<forall>e. e \<notin> set order \<longrightarrow> w' e = w e" "results = map ans order"
    "\<forall>e\<in>set order. ?h e (w e) = (Inr (ans e), w' e)"
    using mesh_all_tasks [of m ?h order p w results p' w'] assms by auto
  have "w' e = w e" for e using h(2,4) by (cases "e \<in> set order") auto
  then have "w' = w" by (rule ext)
  moreover have "GetPodCounts (cl_pdb (ms_cluster m e)) ns sel = Ok (grs_desiredHealthy (ans e), grs_healthy (ans e))"
    if "e \<in> set order" for e
    using h(4) that by (simp flip: stateServer_GetState_converted)
  ultimately show ?thesis using h(1,3) by blast
qed


section \<open>The decision over the clusters\<close>

text \<open>The counts of one cluster, as numbers, and the totals over this cluster and the remote ones.\<close>

definition counts_of :: "pdb_service \<Rightarrow> xpdb \<Rightarrow> int \<times> int" where
  "counts_of svc x =
     (case GetPodCounts svc (xpdb_namespace x) (spec_selector (xpdb_spec x)) of
        Ok (d, h) \<Rightarrow> (sint d, sint h)
      | _ \<Rightarrow> (0, 0))"

definition total_expected :: "'s mesh \<Rightarrow> pdb_service \<Rightarrow> xpdb \<Rightarrow> int" where
  "total_expected m svc x =
     fst (counts_of svc x) + (\<Sum>e\<in>set (ps_remoteEndpoints svc). fst (counts_of (cl_pdb (ms_cluster m e)) x))"

definition total_healthy :: "'s mesh \<Rightarrow> pdb_service \<Rightarrow> xpdb \<Rightarrow> int" where
  "total_healthy m svc x =
     snd (counts_of svc x) + (\<Sum>e\<in>set (ps_remoteEndpoints svc). snd (counts_of (cl_pdb (ms_cluster m e)) x))"

text \<open>No count is negative and the totals fit into 32 bits.\<close>

definition counts_fit :: "'s mesh \<Rightarrow> pdb_service \<Rightarrow> xpdb \<Rightarrow> bool" where
  "counts_fit m svc x \<longleftrightarrow>
     0 \<le> fst (counts_of svc x) \<and> 0 \<le> snd (counts_of svc x) \<and>
     (\<forall>e\<in>set (ps_remoteEndpoints svc).
        0 \<le> fst (counts_of (cl_pdb (ms_cluster m e)) x) \<and> 0 \<le> snd (counts_of (cl_pdb (ms_cluster m e)) x)) \<and>
     total_expected m svc x < 2 ^ 31 \<and> total_healthy m svc x < 2 ^ 31 - 1"

definition all_counted :: "'s mesh \<Rightarrow> pdb_service \<Rightarrow> xpdb \<Rightarrow> bool" where
  "all_counted m svc x \<longleftrightarrow>
     (\<forall>s\<in>insert svc ((\<lambda>e. cl_pdb (ms_cluster m e)) ` set (ps_remoteEndpoints svc)).
        \<exists>d h. GetPodCounts s (xpdb_namespace x) (spec_selector (xpdb_spec x)) = Ok (d, h))"

text \<open>The 32-bit sum of the answers and of the local count is the total.\<close>

lemma sum_answers:
  fixes f :: "'a \<Rightarrow> int32"
  assumes "distinct order" "\<forall>e\<in>set order. 0 \<le> sint (f e)" "0 \<le> sint l"
    and "sint l + (\<Sum>e\<in>set order. sint (f e)) < 2 ^ 31"
  shows "sint (sum_list (map f order) + l) = sint l + (\<Sum>e\<in>set order. sint (f e))"
    and "0 \<le> sint (sum_list (map f order) + l)"
proof -
  have sum: "sum_list (map sint (map f order)) = (\<Sum>e\<in>set order. sint (f e))"
    using assms(1) by (simp add: sum_list_distinct_conv_sum_set comp_def)
  have nn: "0 \<le> (\<Sum>e\<in>set order. sint (f e))" using assms(2) by (intro sum_nonneg) auto
  have "sint (sum_list (map f order)) = (\<Sum>e\<in>set order. sint (f e))"
    using sint_sum_list [of "map f order"] assms(2-4) sum nn by auto
  with nn assms(3,4) show "sint (sum_list (map f order) + l) = sint l + (\<Sum>e\<in>set order. sint (f e))"
    by (simp add: sint32_plus)
  with nn assms(3) show "0 \<le> sint (sum_list (map f order) + l)" by simp
qed

lemma CanPodBeDisrupted_mesh:
  assumes "CanPodBeDisrupted f2i (mesh_env m) svc order p x (pl, w) = (Ok b, (pl', w'))"
    and "honest_pool pl" "distinct order" "set order = set (ps_remoteEndpoints svc)"
  shows "honest_pool pl' \<and> w' = w \<and> all_counted m svc x"
    and "sane_budget (xpdb_spec x) \<Longrightarrow> counts_fit m svc x \<Longrightarrow>
      b \<longleftrightarrow> required_healthy (xpdb_spec x) (total_expected m svc x) \<le>
          total_healthy m svc x - (if IsPodReady p then 1 else 0)"
proof -
  have "ps_remoteEndpoints svc = [] \<longrightarrow> order = []" using assms(4) by auto
  then obtain results le lh where
    tasks: "all_tasks (state_task (mesh_env m) (xpdb_namespace x) (spec_selector (xpdb_spec x)))
      order (pl, w) results (pl', w')"
    and loc: "GetPodCounts svc (xpdb_namespace x) (spec_selector (xpdb_spec x)) = Ok (le, lh)"
    and verdict: "disruptionAllowed f2i (Some x) p (sum_list (map grs_desiredHealthy results) + le)
      (sum_list (map grs_healthy results) + lh) = Inr b"
    using assms(1) by (auto simp: CanPodBeDisrupted_Ok)
  from state_tasks_mesh [OF tasks assms(2,3)] obtain ans where
    fr: "honest_pool pl'" "w' = w" and results: "results = map ans order"
    and ans: "\<forall>e\<in>set order. GetPodCounts (cl_pdb (ms_cluster m e)) (xpdb_namespace x)
      (spec_selector (xpdb_spec x)) = Ok (grs_desiredHealthy (ans e), grs_healthy (ans e))" by blast
  show "honest_pool pl' \<and> w' = w \<and> all_counted m svc x"
    using fr loc ans assms(4) by (auto simp: all_counted_def)
  assume sane: "sane_budget (xpdb_spec x)" and fit: "counts_fit m svc x"
  have cl: "counts_of svc x = (sint le, sint lh)" using loc by (simp add: counts_of_def)
  have cr: "counts_of (cl_pdb (ms_cluster m e)) x = (sint (grs_desiredHealthy (ans e)), sint (grs_healthy (ans e)))"
    if "e \<in> set order" for e using ans that by (simp add: counts_of_def)
  have tot: "total_expected m svc x = sint le + (\<Sum>e\<in>set order. sint (grs_desiredHealthy (ans e)))"
    "total_healthy m svc x = sint lh + (\<Sum>e\<in>set order. sint (grs_healthy (ans e)))"
    using cl cr assms(4) by (auto simp: total_expected_def total_healthy_def intro: sum.cong)
  let ?E = "sum_list (map (grs_desiredHealthy \<circ> ans) order) + le"
  let ?H = "sum_list (map (grs_healthy \<circ> ans) order) + lh"
  have E: "sint ?E = total_expected m svc x" "0 \<le> sint ?E"
    using sum_answers [OF assms(3), of "grs_desiredHealthy \<circ> ans" le] fit cl cr assms(4) tot
    by (auto simp: counts_fit_def)
  have H: "sint ?H = total_healthy m svc x" "0 \<le> sint ?H"
    using sum_answers [OF assms(3), of "grs_healthy \<circ> ans" lh] fit cl cr assms(4) tot
    by (auto simp: counts_fit_def)
  have "sint ?H < 2 ^ 31 - 1" using H(1) fit by (simp add: counts_fit_def)
  from disruptionAllowed_exact [OF sane E(2) H(2) this, of f2i p] verdict results E(1) H(1)
  show "b \<longleftrightarrow> required_healthy (xpdb_spec x) (total_expected m svc x) \<le>
          total_healthy m svc x - (if IsPodReady p then 1 else 0)"
    by (simp add: comp_def)
qed

end
