(* ===== verification/Preactivities.thy ===== *)
theory Preactivities
  imports Kube_Types "HOL-Library.AList"
begin

text \<open>
  \<^verbatim>\<open>internal/preactivities/service.go\<close>: a pod that carries a pre-activity annotation may not be
  disrupted yet; the first refusal marks the pod with the pending-disruption annotation. The pod
  store of the API server is a parameter with its own state.
\<close>

definition PreActivityAnnotationNamePrefix :: string where
  "PreActivityAnnotationNamePrefix = ''pre-activity.xpdb.form3.tech/''"

definition HasPendingDisruptionAnnotationName :: string where
  "HasPendingDisruptionAnnotationName = ''xpdb.form3.tech/has-pending-disruption''"

text \<open>\<^verbatim>\<open>client.Update\<close> of a pod, on the state of the pod store.\<close>

type_synonym 'p pod_updater = "pod \<Rightarrow> 'p \<Rightarrow> api_error option \<times> 'p"

definition getPendingPreactivities :: "pod \<Rightarrow> string list" where
  "getPendingPreactivities p =
     map (\<lambda>k. TrimPrefix PreActivityAnnotationNamePrefix k)
       (filter (\<lambda>k. sublist PreActivityAnnotationNamePrefix k) (map fst (pod_annotations p)))"

definition with_pending_disruption :: "pod \<Rightarrow> pod" where
  "with_pending_disruption p =
     p\<lparr>pod_annotations := AList.update HasPendingDisruptionAnnotationName ''true'' (pod_annotations p)\<rparr>"

definition setPendingDisruptionAnnotationOnPod :: "'p pod_updater \<Rightarrow> pod \<Rightarrow> 'p \<Rightarrow> api_error option \<times> 'p" where
  "setPendingDisruptionAnnotationOnPod upd p s = upd (with_pending_disruption p) s"

definition preactivities_CanPodBeDisrupted :: "'p pod_updater \<Rightarrow> pod \<Rightarrow> 'p \<Rightarrow> (go_err + bool) \<times> 'p" where
  "preactivities_CanPodBeDisrupted upd p s =
     (if length (getPendingPreactivities p) = 0 then (Inr True, s)
      else
        (case setPendingDisruptionAnnotationOnPod upd p s of
           (Some _, s1) \<Rightarrow> (Inl (EMsg ''could not add pending disruption annotation to pod''), s1)
         | (None, s1) \<Rightarrow> (Inr False, s1)))"

text \<open>
  The specification: a pod has a pending pre-activity iff the key of one of its annotations
  contains the prefix.
\<close>

definition has_preactivity :: "pod \<Rightarrow> bool" where
  "has_preactivity p \<longleftrightarrow> (\<exists>k\<in>fst ` set (pod_annotations p). sublist PreActivityAnnotationNamePrefix k)"

lemma getPendingPreactivities_Nil: "getPendingPreactivities p = [] \<longleftrightarrow> \<not> has_preactivity p"
  by (auto simp: getPendingPreactivities_def has_preactivity_def filter_empty_conv)

lemma preactivities_allow:
  "preactivities_CanPodBeDisrupted upd p s = (Inr True, s') \<longleftrightarrow> \<not> has_preactivity p \<and> s' = s"
  by (auto simp: preactivities_CanPodBeDisrupted_def getPendingPreactivities_Nil split: option.splits prod.splits)

text \<open>The key of the mark is not itself a pre-activity: the mark never blocks a pod on its own.\<close>

lemma has_preactivity_mark: "has_preactivity (with_pending_disruption p) \<longleftrightarrow> has_preactivity p"
proof -
  have "\<not> sublist PreActivityAnnotationNamePrefix HasPendingDisruptionAnnotationName"
    by (simp add: PreActivityAnnotationNamePrefix_def HasPendingDisruptionAnnotationName_def
        sublist_code)
  then show ?thesis
    by (auto simp: has_preactivity_def with_pending_disruption_def dom_update)
qed

lemma mark_frame:
  "map_of (pod_annotations (with_pending_disruption p)) k =
     (if k = HasPendingDisruptionAnnotationName then Some ''true'' else map_of (pod_annotations p) k)"
  by (simp add: with_pending_disruption_def update_conv')

end
