(* ===== verification/Disruption_Probe.thy ===== *)
theory Disruption_Probe
  imports Client_Pool
begin

text \<open>
  \<^verbatim>\<open>internal/disruptionprobe/service.go\<close>: asking the probe server that a budget names whether the
  pod may be disrupted. The call on a connection (with its two second timeout) is a parameter.
\<close>

record probe_request =
  prq_podName :: string
  prq_podNamespace :: string
  prq_xpdbName :: string
  prq_xpdbNamespace :: string

record probe_response =
  prs_isAllowed :: bool
  prs_error :: string

record ('d, 'v) probe_env =
  pe_dial :: "'d dial_env"
  pe_IsDisruptionAllowed :: "'d \<Rightarrow> probe_request \<Rightarrow> 'v \<Rightarrow> (go_err + probe_response) \<times> 'v"

type_synonym ('d, 'v) probe_state = "'d client_pool \<times> 'v"

definition probe_request_for :: "pod \<Rightarrow> xpdb \<Rightarrow> probe_request" where
  "probe_request_for p x =
     \<lparr>prq_podName = pod_name p, prq_podNamespace = pod_namespace p,
      prq_xpdbName = xpdb_name x, prq_xpdbNamespace = xpdb_namespace x\<rparr>"

definition probe_CanPodBeDisrupted ::
    "('d, 'v) probe_env \<Rightarrow> pod \<Rightarrow> xpdb \<Rightarrow> ('d, 'v) probe_state \<Rightarrow> (go_err + bool) \<times> ('d, 'v) probe_state" where
  "probe_CanPodBeDisrupted env p x st =
     (case spec_probe (xpdb_spec x) of
        None \<Rightarrow> (Inr True, st)
      | Some probe \<Rightarrow>
          (case st of (pool, v) \<Rightarrow>
           case probe_pool_Get (pe_dial env) pool (probe_endpoint probe) of
             (Inl e, pool1) \<Rightarrow> (Inl e, (pool1, v))
           | (Inr c, pool1) \<Rightarrow>
               (case pe_IsDisruptionAllowed env c (probe_request_for p x) v of
                  (Inl e, v1) \<Rightarrow> (Inl e, (pool1, v1))
                | (Inr resp, v1) \<Rightarrow>
                    if prs_error resp \<noteq> [] then (Inl (EMsg (prs_error resp)), (pool1, v1))
                    else (Inr (prs_isAllowed resp), (pool1, v1)))))"

text \<open>The probe answered for this pod and this budget, without an error, that the pod may go.\<close>

definition probe_consents ::
    "('d, 'v) probe_env \<Rightarrow> probe_spec \<Rightarrow> pod \<Rightarrow> xpdb \<Rightarrow> ('d, 'v) probe_state \<Rightarrow> ('d, 'v) probe_state \<Rightarrow> bool" where
  "probe_consents env probe p x st st' \<longleftrightarrow>
     (\<exists>c resp. probe_pool_Get (pe_dial env) (fst st) (probe_endpoint probe) = (Inr c, fst st') \<and>
        pe_IsDisruptionAllowed env c (probe_request_for p x) (snd st) = (Inr resp, snd st') \<and>
        prs_isAllowed resp \<and> prs_error resp = [])"

lemma probe_CanPodBeDisrupted_True:
  assumes "spec_probe (xpdb_spec x) = Some probe"
  shows "probe_CanPodBeDisrupted env p x st = (Inr True, st') \<longleftrightarrow> probe_consents env probe p x st st'"
  using assms
  by (cases st; cases st')
    (auto simp: probe_CanPodBeDisrupted_def probe_consents_def split: prod.splits sum.splits if_splits)

end
