(* ===== verification/Metrics.thy ===== *)
theory Metrics
  imports Prelude
begin

text \<open>
  \<^verbatim>\<open>internal/metrics/metrics.go\<close>: the three counters of the program. A Prometheus counter vector
  is a counter per list of label values; a series that was never incremented stands at zero.
\<close>

record metrics =
  m_evictionRejectedCounter :: "string list \<Rightarrow> nat"
  m_podMatchingMultipleXPDBs :: "string list \<Rightarrow> nat"
  m_lockErrors :: "string list \<Rightarrow> nat"

definition no_metrics :: metrics where
  "no_metrics = \<lparr>m_evictionRejectedCounter = (\<lambda>_. 0), m_podMatchingMultipleXPDBs = (\<lambda>_. 0),
                 m_lockErrors = (\<lambda>_. 0)\<rparr>"

definition Inc :: "string list \<Rightarrow> (string list \<Rightarrow> nat) \<Rightarrow> string list \<Rightarrow> nat" where
  "Inc labels v = v(labels := v labels + 1)"

definition ObserveEvictionRejected :: "string \<Rightarrow> string \<Rightarrow> string \<Rightarrow> string \<Rightarrow> metrics \<Rightarrow> metrics" where
  "ObserveEvictionRejected ns resource subresource operation m =
     m\<lparr>m_evictionRejectedCounter := Inc [ns, resource, subresource, operation] (m_evictionRejectedCounter m)\<rparr>"

definition ObservePodMatchingMultipleXPDBs :: "string \<Rightarrow> metrics \<Rightarrow> metrics" where
  "ObservePodMatchingMultipleXPDBs ns m =
     m\<lparr>m_podMatchingMultipleXPDBs := Inc [ns] (m_podMatchingMultipleXPDBs m)\<rparr>"

definition ObserveLockError :: "string \<Rightarrow> metrics \<Rightarrow> metrics" where
  "ObserveLockError ns m = m\<lparr>m_lockErrors := Inc [ns] (m_lockErrors m)\<rparr>"

lemma Inc_apply: "Inc labels v l = v l + (if l = labels then 1 else 0)"
  by (simp add: Inc_def)

lemma Inc_commute: "Inc a (Inc b v) = Inc b (Inc a v)"
  by (auto simp: Inc_def)

end
