(* ===== verification/Webhook.thy ===== *)
theory Webhook
  imports State_Server Preactivities Disruption_Probe Metrics
begin

text \<open>
  \<^verbatim>\<open>internal/webhooks/validation.go\<close>: the admission webhook, which ties the components together. A
  request to delete or evict a pod passes through the exemptions, the pre-activities, the budgets of
  the pod, the lock, the count over all clusters and the probe. The handler returns the admission
  response and the new state of everything it touches: leases here and in the other clusters, pods,
  client pools, metrics and events.

  What is not decided by the code is an input: the clock readings, the fresh UUID and the order in
  which the remote calls finish.
\<close>

section \<open>Requests and responses\<close>

record admission_request =
  rq_namespace :: string
  rq_name :: string
  rq_oldObject :: string
  rq_resource :: string
  rq_subResource :: string
  rq_operation :: string

record admission_response =
  ar_allowed :: bool
  ar_code :: int32
  ar_reason :: string
  ar_message :: string

text \<open>\<^verbatim>\<open>admission.Errored\<close> and \<^verbatim>\<open>admission.ValidationResponse\<close>.\<close>

definition Errored :: "int32 \<Rightarrow> go_err \<Rightarrow> admission_response" where
  "Errored code err = \<lparr>ar_allowed = False, ar_code = code, ar_reason = [], ar_message = Error err\<rparr>"

definition ValidationResponse :: "bool \<Rightarrow> string \<Rightarrow> admission_response" where
  "ValidationResponse allowed message =
     (if allowed then \<lparr>ar_allowed = True, ar_code = 200, ar_reason = [], ar_message = message\<rparr>
      else \<lparr>ar_allowed = False, ar_code = 403, ar_reason = ''Forbidden'', ar_message = message\<rparr>)"

text \<open>\<^verbatim>\<open>api/v1alpha1/events.go\<close>: the reasons of the events.\<close>

datatype XPDBEventReason =
    XPDBEventReasonInvalidConfiguration
  | XPDBEventReasonBlocked
  | XPDBEventReasonAccepted

datatype event_object = PodObject string string | XPdbObject string string

record event =
  ev_object :: event_object
  ev_type :: string
  ev_reason :: XPDBEventReason
  ev_message :: string


section \<open>Configuration, inputs and state\<close>

record webhook =
  wh_pdb :: pdb_service
  wh_lock :: lock_service
  wh_clusterID :: string
  wh_podID :: string
  wh_dryRun :: bool

record ('s, 'c, 'w, 'd, 'v, 'p) webhook_env =
  we_leases :: "'s lease_client"
  we_rpc :: "('c, 'w) rpc_env"
  we_probe :: "('d, 'v) probe_env"
  we_updatePod :: "'p pod_updater"
  we_getPod :: "object_key \<Rightarrow> 'p \<Rightarrow> api_error + pod"
  we_decodeRaw :: "string \<Rightarrow> go_err + pod"
  we_f2i :: "rat \<Rightarrow> int64"

record inputs =
  in_lockClk :: "int \<times> int \<times> int"
  in_unlockNow :: int
  in_uuid :: string
  in_lockOrder :: "string list"
  in_stateOrder :: "string list"
  in_unlockOrder :: "string list"

record ('s, 'c, 'w, 'd, 'v, 'p) webhook_state =
  st_leases :: 's
  st_remote :: "('c, 'w) remote_state"
  st_probe :: "('d, 'v) probe_state"
  st_pods :: 'p
  st_metrics :: metrics
  st_events :: "event list"

definition Eventf ::
    "event \<Rightarrow> ('s, 'c, 'w, 'd, 'v, 'p) webhook_state \<Rightarrow> ('s, 'c, 'w, 'd, 'v, 'p) webhook_state" where
  "Eventf ev st = st\<lparr>st_events := st_events st @ [ev]\<rparr>"

definition observe ::
    "(metrics \<Rightarrow> metrics) \<Rightarrow> ('s, 'c, 'w, 'd, 'v, 'p) webhook_state \<Rightarrow> ('s, 'c, 'w, 'd, 'v, 'p) webhook_state" where
  "observe f st = st\<lparr>st_metrics := f (st_metrics st)\<rparr>"


section \<open>The helpers of the handler\<close>

definition admissionResponse :: "webhook \<Rightarrow> bool \<Rightarrow> string \<Rightarrow> int32 option \<Rightarrow> admission_response" where
  "admissionResponse h allowed message errorCode =
     (if wh_dryRun h then ValidationResponse allowed message
      else
        (case errorCode of
           Some code \<Rightarrow> Errored code (EMsg message)
         | None \<Rightarrow> ValidationResponse allowed message))"

definition decodePod ::
    "('s, 'c, 'w, 'd, 'v, 'p) webhook_env \<Rightarrow> admission_request \<Rightarrow> 'p \<Rightarrow> go_err + pod" where
  "decodePod env req pods =
     (if length (rq_oldObject req) > 0 then we_decodeRaw env (rq_oldObject req)
      else
        (case we_getPod env (rq_namespace req, rq_name req) pods of
           Inl e \<Rightarrow> Inl (EApi e)
         | Inr p \<Rightarrow> Inr p))"

definition getDisruptionTargetCondition :: "pod \<Rightarrow> pod_condition option" where
  "getDisruptionTargetCondition p =
     find (\<lambda>c. cond_type c = DisruptionTarget \<and> cond_status c = ConditionTrue) (pod_conditions p)"

definition NodeUnreachablePodReason :: string where
  "NodeUnreachablePodReason = ''NodeLost''"

definition podHasNodeLostReason :: "pod \<Rightarrow> bool" where
  "podHasNodeLostReason p \<longleftrightarrow> pod_reason p = NodeUnreachablePodReason"

definition PendingActivitiesDisruptionNotAllowedMessage :: string where
  "PendingActivitiesDisruptionNotAllowedMessage =
     ''Cannot disrupt pod has it has pending disruption pre-activities.''"

definition XPDBDisruptionBudgetNotAllowedMessage :: string where
  "XPDBDisruptionBudgetNotAllowedMessage =
     ''Cannot disrupt pod as it would violate the pod'' @ [CHR 0x27] @ ''s xpdb disruption budget.''"

definition XPDBDisruptionBudgetErrorMessage :: string where
  "XPDBDisruptionBudgetErrorMessage =
     ''Cannot disrupt pod as there was an error evaluating pod'' @ [CHR 0x27] @ ''s xpdb disruption budget''"

definition XPDBDisruptionProbeNotAllowedMessage :: string where
  "XPDBDisruptionProbeNotAllowedMessage =
     ''Cannot disrupt pod as the pod'' @ [CHR 0x27] @ ''s xpdb disruption probe didn'' @ [CHR 0x27] @ ''t allow it.''"

definition XPDBDisruptionProbeErrorMessage :: string where
  "XPDBDisruptionProbeErrorMessage =
     ''Cannot disrupt pod as there was an error calling pod'' @ [CHR 0x27] @ ''s xpdb disruption probe''"

text \<open>Releasing the lock of a budget, here and in the other clusters.\<close>

definition release ::
    "('s, 'c, 'w, 'd, 'v, 'p) webhook_env \<Rightarrow> webhook \<Rightarrow> inputs \<Rightarrow> string \<Rightarrow> xpdb
     \<Rightarrow> ('s, 'c, 'w, 'd, 'v, 'p) webhook_state \<Rightarrow> unit go \<times> ('s, 'c, 'w, 'd, 'v, 'p) webhook_state" where
  "release env h inp leaseHolderIdentity x st =
     (case Unlock (we_leases env) (we_rpc env) (wh_lock h) (in_unlockNow inp) (in_unlockOrder inp)
             leaseHolderIdentity (xpdb_namespace x) (spec_selector (xpdb_spec x)) (st_leases st, st_remote st) of
        (r, s1, rs1) \<Rightarrow> (r, st\<lparr>st_leases := s1, st_remote := rs1\<rparr>))"

text \<open>An error of the release is logged only; a panic goes through.\<close>

definition respond_after ::
    "unit go \<times> 'st \<Rightarrow> admission_response \<Rightarrow> admission_response go \<times> 'st" where
  "respond_after released resp = (case released of (Panic, st) \<Rightarrow> (Panic, st) | (_, st) \<Rightarrow> (Ok resp, st))"

definition handleError ::
    "('s, 'c, 'w, 'd, 'v, 'p) webhook_env \<Rightarrow> webhook \<Rightarrow> inputs \<Rightarrow> xpdb option \<Rightarrow> string \<Rightarrow> go_err \<Rightarrow> string
     \<Rightarrow> ('s, 'c, 'w, 'd, 'v, 'p) webhook_state
     \<Rightarrow> admission_response go \<times> ('s, 'c, 'w, 'd, 'v, 'p) webhook_state" where
  "handleError env h inp xp errorDescription err leaseHolderIdentity st =
     (let resp = admissionResponse h False (errorDescription @ '': '' @ Error err) None
      in case xp of
           None \<Rightarrow> (Ok resp, st)
         | Some x \<Rightarrow> respond_after (release env h inp leaseHolderIdentity x st) resp)"

definition handleNotAllowedDisruption ::
    "('s, 'c, 'w, 'd, 'v, 'p) webhook_env \<Rightarrow> webhook \<Rightarrow> inputs \<Rightarrow> admission_request \<Rightarrow> xpdb option \<Rightarrow> pod
     \<Rightarrow> string \<Rightarrow> string \<Rightarrow> ('s, 'c, 'w, 'd, 'v, 'p) webhook_state
     \<Rightarrow> admission_response go \<times> ('s, 'c, 'w, 'd, 'v, 'p) webhook_state" where
  "handleNotAllowedDisruption env h inp req xp p leaseHolderIdentity message st =
     (let resp = admissionResponse h False message (Some 429)
      in case xp of
           None \<Rightarrow> (Ok resp, st)
         | Some x \<Rightarrow>
             (let st1 = Eventf \<lparr>ev_object = XPdbObject (xpdb_namespace x) (xpdb_name x), ev_type = ''Normal'',
                                ev_reason = XPDBEventReasonBlocked,
                                ev_message = ''attempted eviction of '' @ pod_name p\<rparr> st;
                  st2 = observe (ObserveEvictionRejected (xpdb_namespace x) (rq_resource req)
                          (rq_subResource req) (rq_operation req)) st1
              in respond_after (release env h inp leaseHolderIdentity x st2) resp))"


section \<open>The handler\<close>

text \<open>
  \<^verbatim>\<open>Handle\<close>, in the stages of the code, from the last to the first. The last stage: the probe, when
  the budget has one that is not disabled, and the acceptance. The lock is kept.
\<close>

definition probe_wanted :: "xpdb \<Rightarrow> bool" where
  "probe_wanted x =
     (case spec_probe (xpdb_spec x) of
        None \<Rightarrow> False
      | Some probe \<Rightarrow> (case probe_enabled probe of None \<Rightarrow> True | Some b \<Rightarrow> b))"

definition accept ::
    "webhook \<Rightarrow> pod \<Rightarrow> xpdb \<Rightarrow> ('s, 'c, 'w, 'd, 'v, 'p) webhook_state
     \<Rightarrow> admission_response go \<times> ('s, 'c, 'w, 'd, 'v, 'p) webhook_state" where
  "accept h p x st =
     (Ok (admissionResponse h True [] None),
      Eventf \<lparr>ev_object = XPdbObject (xpdb_namespace x) (xpdb_name x), ev_type = ''Normal'',
              ev_reason = XPDBEventReasonAccepted, ev_message = ''attempted eviction of '' @ pod_name p\<rparr> st)"

definition handle_probe ::
    "('s, 'c, 'w, 'd, 'v, 'p) webhook_env \<Rightarrow> webhook \<Rightarrow> inputs \<Rightarrow> admission_request \<Rightarrow> pod \<Rightarrow> xpdb \<Rightarrow> string
     \<Rightarrow> ('s, 'c, 'w, 'd, 'v, 'p) webhook_state
     \<Rightarrow> admission_response go \<times> ('s, 'c, 'w, 'd, 'v, 'p) webhook_state" where
  "handle_probe env h inp req p x leaseHolderIdentity st =
     (if probe_wanted x then
        (case probe_CanPodBeDisrupted (we_probe env) p x (st_probe st) of
           (r, ps) \<Rightarrow>
             (let st1 = st\<lparr>st_probe := ps\<rparr>
              in case r of
                   Inl err \<Rightarrow> handleError env h inp (Some x) XPDBDisruptionProbeErrorMessage err leaseHolderIdentity st1
                 | Inr canBeDisrupted \<Rightarrow>
                     if \<not> canBeDisrupted then
                       handleNotAllowedDisruption env h inp req (Some x) p leaseHolderIdentity
                         XPDBDisruptionProbeNotAllowedMessage st1
                     else accept h p x st1))
      else accept h p x st)"

text \<open>The count over all clusters, under the lock.\<close>

definition handle_budget ::
    "('s, 'c, 'w, 'd, 'v, 'p) webhook_env \<Rightarrow> webhook \<Rightarrow> inputs \<Rightarrow> admission_request \<Rightarrow> pod \<Rightarrow> xpdb \<Rightarrow> string
     \<Rightarrow> ('s, 'c, 'w, 'd, 'v, 'p) webhook_state
     \<Rightarrow> admission_response go \<times> ('s, 'c, 'w, 'd, 'v, 'p) webhook_state" where
  "handle_budget env h inp req p x leaseHolderIdentity st =
     (case CanPodBeDisrupted (we_f2i env) (we_rpc env) (wh_pdb h) (in_stateOrder inp) p x (st_remote st) of
        (r, rs) \<Rightarrow>
          (let st1 = st\<lparr>st_remote := rs\<rparr>
           in case r of
                Panic \<Rightarrow> (Panic, st1)
              | Err err \<Rightarrow> handleError env h inp (Some x) XPDBDisruptionBudgetErrorMessage err leaseHolderIdentity st1
              | Ok canBeDisrupted \<Rightarrow>
                  if \<not> canBeDisrupted then
                    handleNotAllowedDisruption env h inp req (Some x) p leaseHolderIdentity
                      XPDBDisruptionBudgetNotAllowedMessage st1
                  else handle_probe env h inp req p x leaseHolderIdentity st1))"

text \<open>The one budget of the pod: suspended, or locked under a fresh identity.\<close>

definition lock_identity :: "webhook \<Rightarrow> inputs \<Rightarrow> pod \<Rightarrow> string" where
  "lock_identity h inp p =
     CreateLeaseHolderIdentity (wh_clusterID h) (wh_podID h) (pod_namespace p) (pod_name p) (in_uuid inp)"

definition handle_xpdb ::
    "('s, 'c, 'w, 'd, 'v, 'p) webhook_env \<Rightarrow> webhook \<Rightarrow> inputs \<Rightarrow> admission_request \<Rightarrow> pod \<Rightarrow> xpdb
     \<Rightarrow> ('s, 'c, 'w, 'd, 'v, 'p) webhook_state
     \<Rightarrow> admission_response go \<times> ('s, 'c, 'w, 'd, 'v, 'p) webhook_state" where
  "handle_xpdb env h inp req p x st =
     (if spec_suspend (xpdb_spec x) = Some True then (Ok (admissionResponse h True [] None), st)
      else
        (let leaseHolderIdentity = lock_identity h inp p
         in case Lock (we_leases env) (we_rpc env) (wh_lock h) (in_lockClk inp) (in_lockOrder inp)
                   leaseHolderIdentity (xpdb_namespace x) (spec_selector (xpdb_spec x)) (st_leases st, st_remote st) of
              (r, s1, rs1) \<Rightarrow>
                (let st1 = st\<lparr>st_leases := s1, st_remote := rs1\<rparr>
                 in case r of
                      Panic \<Rightarrow> (Panic, st1)
                    | Err _ \<Rightarrow>
                        (Ok (admissionResponse h False
                           (''Cannot disrupt pod because xpdb couldn'' @ [CHR 0x27] @ ''t obtain lock'') None),
                         observe (ObserveLockError (pod_namespace p)) st1)
                    | Ok _ \<Rightarrow> handle_budget env h inp req p x leaseHolderIdentity st1)))"

text \<open>The budgets of the pod: none, one, or several (a configuration error).\<close>

definition handle_xpdbs ::
    "('s, 'c, 'w, 'd, 'v, 'p) webhook_env \<Rightarrow> webhook \<Rightarrow> inputs \<Rightarrow> admission_request \<Rightarrow> pod
     \<Rightarrow> ('s, 'c, 'w, 'd, 'v, 'p) webhook_state
     \<Rightarrow> admission_response go \<times> ('s, 'c, 'w, 'd, 'v, 'p) webhook_state" where
  "handle_xpdbs env h inp req p st =
     (case GetXPdbsForPod (wh_pdb h) p of
        Inl err \<Rightarrow> (Ok (admissionResponse h False (''could not get xpdbs for pod: '' @ Error err) None), st)
      | Inr xpdbs \<Rightarrow>
          (case xpdbs of
             [] \<Rightarrow> (Ok (admissionResponse h True [] None), st)
           | [x] \<Rightarrow> handle_xpdb env h inp req p x st
           | _ \<Rightarrow>
               (Ok (admissionResponse h False ''Cannot disrupt pod as it matched multiple xpdbs.'' (Some 500)),
                observe (ObservePodMatchingMultipleXPDBs (pod_namespace p))
                  (Eventf \<lparr>ev_object = PodObject (pod_namespace p) (pod_name p), ev_type = ''Warning'',
                           ev_reason = XPDBEventReasonInvalidConfiguration,
                           ev_message = ''invalid configuration: pod matches multiple XPDBs: '' @
                             join_with '', '' (map xpdb_name xpdbs)\<rparr> st))))"

text \<open>Pods that the webhook ignores: already deleted, or disrupted by Kubernetes itself.\<close>

definition exempt :: "pod \<Rightarrow> bool" where
  "exempt p \<longleftrightarrow>
     pod_deletionTimestamp p \<noteq> None \<or> getDisruptionTargetCondition p \<noteq> None \<or> podHasNodeLostReason p"

definition Handle ::
    "('s, 'c, 'w, 'd, 'v, 'p) webhook_env \<Rightarrow> webhook \<Rightarrow> inputs \<Rightarrow> admission_request
     \<Rightarrow> ('s, 'c, 'w, 'd, 'v, 'p) webhook_state
     \<Rightarrow> admission_response go \<times> ('s, 'c, 'w, 'd, 'v, 'p) webhook_state" where
  "Handle env h inp req st =
     (case decodePod env req (st_pods st) of
        Inl _ \<Rightarrow> (Ok (admissionResponse h True [] None), st)
      | Inr p \<Rightarrow>
          if pod_deletionTimestamp p \<noteq> None then (Ok (admissionResponse h True [] None), st)
          else if getDisruptionTargetCondition p \<noteq> None then (Ok (admissionResponse h True [] None), st)
          else if podHasNodeLostReason p then (Ok (admissionResponse h True [] None), st)
          else
            (case preactivities_CanPodBeDisrupted (we_updatePod env) p (st_pods st) of
               (r, pods1) \<Rightarrow>
                 (let st1 = st\<lparr>st_pods := pods1\<rparr>
                  in case r of
                       Inl err \<Rightarrow>
                         handleError env h inp None [] err
                           (''error verifying if pod had pending pre-activities: '' @ Error err) st1
                     | Inr canPodBeDisrupted \<Rightarrow>
                         if \<not> canPodBeDisrupted then
                           handleNotAllowedDisruption env h inp req None p []
                             PendingActivitiesDisruptionNotAllowedMessage st1
                         else handle_xpdbs env h inp req p st1)))"


section \<open>When a disruption is admitted\<close>

lemma admissionResponse_allowed [simp]:
  "ar_allowed (admissionResponse h b m None) = b"
  "ar_allowed (admissionResponse h False m c) = False"
  by (auto simp: admissionResponse_def ValidationResponse_def Errored_def split: option.splits)

lemma respond_after_Ok:
  "respond_after (r, st) resp = (Ok resp', st') \<longleftrightarrow> r \<noteq> Panic \<and> resp' = resp \<and> st' = st"
  by (cases r) (auto simp: respond_after_def)

lemma handleError_denies:
  "handleError env h inp xp d err me st = (Ok resp, st') \<Longrightarrow> \<not> ar_allowed resp"
  by (auto simp: handleError_def Let_def respond_after_def split: option.splits prod.splits go.splits)

lemma handleNotAllowed_denies:
  "handleNotAllowedDisruption env h inp req xp p me m st = (Ok resp, st') \<Longrightarrow> \<not> ar_allowed resp"
  by (auto simp: handleNotAllowedDisruption_def Let_def respond_after_def
      split: option.splits prod.splits go.splits)


text \<open>
  A pod that passed the full check: the lock was taken in every cluster, the budget allowed the
  disruption, the probe agreed when there is one to ask. The lock is still held in the final state.
\<close>

definition checks_passed ::
    "('s, 'c, 'w, 'd, 'v, 'p) webhook_env \<Rightarrow> webhook \<Rightarrow> inputs \<Rightarrow> pod \<Rightarrow> xpdb
     \<Rightarrow> ('s, 'c, 'w, 'd, 'v, 'p) webhook_state \<Rightarrow> ('s, 'c, 'w, 'd, 'v, 'p) webhook_state \<Rightarrow> bool" where
  "checks_passed env h inp p x st st' \<longleftrightarrow>
     (\<exists>s1 rs1 rs2 ps.
        Lock (we_leases env) (we_rpc env) (wh_lock h) (in_lockClk inp) (in_lockOrder inp) (lock_identity h inp p)
          (xpdb_namespace x) (spec_selector (xpdb_spec x)) (st_leases st, st_remote st) = (Ok (), s1, rs1) \<and>
        CanPodBeDisrupted (we_f2i env) (we_rpc env) (wh_pdb h) (in_stateOrder inp) p x rs1 = (Ok True, rs2) \<and>
        (if probe_wanted x then probe_CanPodBeDisrupted (we_probe env) p x (st_probe st) = (Inr True, ps)
         else ps = st_probe st) \<and>
        st' = snd (accept h p x (st\<lparr>st_leases := s1, st_remote := rs2, st_probe := ps\<rparr>)))"

lemma accept_fst [simp]: "fst (accept h p x st) = Ok (admissionResponse h True [] None)"
  by (simp add: accept_def)

lemma handle_probe_allowed:
  "(\<exists>resp. handle_probe env h inp req p x me st = (Ok resp, st') \<and> ar_allowed resp) \<longleftrightarrow>
     (\<exists>ps. (if probe_wanted x then probe_CanPodBeDisrupted (we_probe env) p x (st_probe st) = (Inr True, ps)
            else ps = st_probe st) \<and> st' = snd (accept h p x (st\<lparr>st_probe := ps\<rparr>)))"
proof (cases "probe_wanted x")
  case True
  obtain r ps where "probe_CanPodBeDisrupted (we_probe env) p x (st_probe st) = (r, ps)" by (metis surj_pair)
  with True show ?thesis
    by (auto simp: handle_probe_def Let_def accept_def dest: handleError_denies handleNotAllowed_denies
        split: sum.splits)
next
  case False
  then show ?thesis by (auto simp: handle_probe_def accept_def)
qed

lemma handle_budget_allowed:
  "(\<exists>resp. handle_budget env h inp req p x me st = (Ok resp, st') \<and> ar_allowed resp) \<longleftrightarrow>
     (\<exists>rs2 ps. CanPodBeDisrupted (we_f2i env) (we_rpc env) (wh_pdb h) (in_stateOrder inp) p x (st_remote st)
          = (Ok True, rs2) \<and>
        (if probe_wanted x then probe_CanPodBeDisrupted (we_probe env) p x (st_probe st) = (Inr True, ps)
         else ps = st_probe st) \<and> st' = snd (accept h p x (st\<lparr>st_remote := rs2, st_probe := ps\<rparr>)))"
proof -
  obtain r rs2 where c: "CanPodBeDisrupted (we_f2i env) (we_rpc env) (wh_pdb h) (in_stateOrder inp) p x (st_remote st)
      = (r, rs2)" by (metis surj_pair)
  show ?thesis
  proof (cases "r = Ok True")
    case True
    then have "handle_budget env h inp req p x me st = handle_probe env h inp req p x me (st\<lparr>st_remote := rs2\<rparr>)"
      using c by (simp add: handle_budget_def Let_def)
    then show ?thesis using c True by (simp add: handle_probe_allowed)
  next
    case False
    then show ?thesis using c
      by (auto simp: handle_budget_def Let_def dest: handleError_denies handleNotAllowed_denies split: go.splits)
  qed
qed

lemma handle_xpdb_allowed:
  "(\<exists>resp. handle_xpdb env h inp req p x st = (Ok resp, st') \<and> ar_allowed resp) \<longleftrightarrow>
     (if spec_suspend (xpdb_spec x) = Some True then st' = st else checks_passed env h inp p x st st')"
proof (cases "spec_suspend (xpdb_spec x) = Some True")
  case True
  then show ?thesis by (auto simp: handle_xpdb_def)
next
  case False
  obtain r s1 rs1 where l: "Lock (we_leases env) (we_rpc env) (wh_lock h) (in_lockClk inp) (in_lockOrder inp)
      (lock_identity h inp p) (xpdb_namespace x) (spec_selector (xpdb_spec x)) (st_leases st, st_remote st)
      = (r, s1, rs1)" by (metis surj_pair)
  show ?thesis
  proof (cases "r = Ok ()")
    case True
    then have "handle_xpdb env h inp req p x st =
        handle_budget env h inp req p x (lock_identity h inp p) (st\<lparr>st_leases := s1, st_remote := rs1\<rparr>)"
      using l False by (simp add: handle_xpdb_def Let_def)
    then show ?thesis using l True False by (simp add: handle_budget_allowed checks_passed_def)
  next
    case not_ok: False
    then show ?thesis using l False
      by (auto simp: handle_xpdb_def Let_def checks_passed_def split: go.splits)
  qed
qed

lemma handle_xpdbs_allowed:
  "(\<exists>resp. handle_xpdbs env h inp req p st = (Ok resp, st') \<and> ar_allowed resp) \<longleftrightarrow>
     GetXPdbsForPod (wh_pdb h) p = Inr [] \<and> st' = st \<or>
     (\<exists>x. GetXPdbsForPod (wh_pdb h) p = Inr [x] \<and>
        (if spec_suspend (xpdb_spec x) = Some True then st' = st else checks_passed env h inp p x st st'))"
proof (cases "GetXPdbsForPod (wh_pdb h) p")
  case (Inr xs)
  consider "xs = []" | x where "xs = [x]" | x y zs where "xs = x # y # zs"
    by (metis neq_Nil_conv)
  then show ?thesis
  proof cases
    case (2 x)
    then show ?thesis using Inr handle_xpdb_allowed [of env h inp req p x st st']
      by (simp add: handle_xpdbs_def)
  qed (use Inr in \<open>auto simp: handle_xpdbs_def\<close>)
qed (auto simp: handle_xpdbs_def)

text \<open>The exact conditions under which the webhook lets a disruption through.\<close>

definition admits ::
    "('s, 'c, 'w, 'd, 'v, 'p) webhook_env \<Rightarrow> webhook \<Rightarrow> inputs \<Rightarrow> admission_request
     \<Rightarrow> ('s, 'c, 'w, 'd, 'v, 'p) webhook_state \<Rightarrow> ('s, 'c, 'w, 'd, 'v, 'p) webhook_state \<Rightarrow> bool" where
  "admits env h inp req st st' \<longleftrightarrow>
     (case decodePod env req (st_pods st) of
        Inl _ \<Rightarrow> st' = st
      | Inr p \<Rightarrow>
          if exempt p then st' = st
          else \<not> has_preactivity p \<and>
            (case GetXPdbsForPod (wh_pdb h) p of
               Inr [] \<Rightarrow> st' = st
             | Inr [x] \<Rightarrow>
                 if spec_suspend (xpdb_spec x) = Some True then st' = st else checks_passed env h inp p x st st'
             | _ \<Rightarrow> False))"

lemma Handle_allowed:
  "(\<exists>resp. Handle env h inp req st = (Ok resp, st') \<and> ar_allowed resp) \<longleftrightarrow> admits env h inp req st st'"
proof (cases "decodePod env req (st_pods st)")
  case (Inl e)
  then show ?thesis by (auto simp: Handle_def admits_def)
next
  case (Inr p)
  show ?thesis
  proof (cases "exempt p")
    case True
    then show ?thesis using Inr by (auto simp: Handle_def admits_def exempt_def)
  next
    case False
    obtain r pods1 where pa: "preactivities_CanPodBeDisrupted (we_updatePod env) p (st_pods st) = (r, pods1)"
      by fastforce
    show ?thesis
    proof (cases "r = Inr True")
      case True
      then have "\<not> has_preactivity p" "pods1 = st_pods st"
        using pa preactivities_allow [of "we_updatePod env" p "st_pods st" pods1] by auto
      moreover from this have "Handle env h inp req st = handle_xpdbs env h inp req p st"
        using pa True Inr False by (simp add: Handle_def exempt_def)
      ultimately show ?thesis using Inr False handle_xpdbs_allowed [of env h inp req p st st']
        by (auto simp: admits_def split: sum.splits list.splits)
    next
      case blocked: False
      then have "has_preactivity p"
        using pa preactivities_allow [of "we_updatePod env" p "st_pods st" "st_pods st"] by auto
      then show ?thesis using pa blocked Inr False
        by (auto simp: Handle_def admits_def exempt_def Let_def
            dest: handleError_denies handleNotAllowed_denies split: sum.splits)
    qed
  qed
qed


section \<open>The lock after a refusal\<close>

lemma respond_after_state: "respond_after released resp = (r, st') \<Longrightarrow> snd released = st'"
  by (auto simp: respond_after_def split: prod.splits go.splits)

lemma handleNotAllowed_releases:
  assumes "handleNotAllowedDisruption env h inp req (Some x) p me m st = (r, st')"
  shows "\<exists>st2 r2. release env h inp me x st2 = (r2, st') \<and> st_leases st2 = st_leases st \<and> st_remote st2 = st_remote st"
proof -
  define st2 where "st2 = observe (ObserveEvictionRejected (xpdb_namespace x) (rq_resource req)
      (rq_subResource req) (rq_operation req))
    (Eventf \<lparr>ev_object = XPdbObject (xpdb_namespace x) (xpdb_name x), ev_type = ''Normal'',
      ev_reason = XPDBEventReasonBlocked, ev_message = ''attempted eviction of '' @ pod_name p\<rparr> st)"
  have "snd (release env h inp me x st2) = st'"
    using assms by (intro respond_after_state) (simp add: handleNotAllowedDisruption_def Let_def st2_def)
  then have "release env h inp me x st2 = (fst (release env h inp me x st2), st')" by (metis prod.collapse)
  then show ?thesis by (intro exI [of _ st2] exI) (auto simp: st2_def observe_def Eventf_def)
qed

text \<open>The ends of the stages under the lock: only the remote calls and the probe have run before.\<close>

lemma handle_budget_cases [consumes 1, case_names panicked errored refused accepted]:
  assumes "handle_budget env h inp req p x me st = (r, st')"
  obtains "r = Panic"
  | d e rs ps where "handleError env h inp (Some x) d e me (st\<lparr>st_remote := rs, st_probe := ps\<rparr>) = (r, st')"
  | m rs ps where "handleNotAllowedDisruption env h inp req (Some x) p me m (st\<lparr>st_remote := rs, st_probe := ps\<rparr>)
      = (r, st')"
  | rs ps where "accept h p x (st\<lparr>st_remote := rs, st_probe := ps\<rparr>) = (r, st')"
proof -
  obtain b rs where c: "CanPodBeDisrupted (we_f2i env) (we_rpc env) (wh_pdb h) (in_stateOrder inp) p x (st_remote st)
      = (b, rs)" by (metis surj_pair)
  note eq = assms [unfolded handle_budget_def Let_def c prod.case]
  show thesis
  proof (cases b)
    case Panic
    with eq show thesis by (intro that(1)) simp
  next
    case (Err e)
    with eq show thesis by (intro that(2) [where rs = rs and ps = "st_probe st"]) simp
  next
    case (Ok allowed)
    show thesis
    proof (cases allowed)
      case False
      with eq Ok show thesis by (intro that(3) [where rs = rs and ps = "st_probe st"]) simp
    next
      case True
      with eq Ok have probe: "handle_probe env h inp req p x me (st\<lparr>st_remote := rs\<rparr>) = (r, st')" by simp
      obtain q ps where q: "probe_CanPodBeDisrupted (we_probe env) p x (st_probe st) = (q, ps)"
        by (metis surj_pair)
      consider "\<not> probe_wanted x" | e where "probe_wanted x" "q = Inl e"
        | "probe_wanted x" "q = Inr False" | "probe_wanted x" "q = Inr True"
        by (cases q) auto
      then show thesis
      proof cases
        case 1
        with probe show thesis by (intro that(4) [where rs = rs and ps = "st_probe st"]) (simp add: handle_probe_def)
      next
        case (2 e)
        with probe q show thesis by (intro that(2) [where rs = rs and ps = ps]) (simp add: handle_probe_def)
      next
        case 3
        with probe q show thesis by (intro that(3) [where rs = rs and ps = ps]) (simp add: handle_probe_def)
      next
        case 4
        with probe q show thesis by (intro that(4) [where rs = rs and ps = ps]) (simp add: handle_probe_def)
      qed
    qed
  qed
qed

lemma handleError_releases:
  assumes "handleError env h inp (Some x) d e me st = (r, st')"
  shows "\<exists>r2. release env h inp me x st = (r2, st')"
proof -
  have "snd (release env h inp me x st) = st'"
    using assms by (intro respond_after_state) (simp add: handleError_def)
  then show ?thesis by (metis prod.collapse)
qed

context served_store
begin

lemma release_released:
  assumes "we_leases env = c" "wf (st_leases st)"
    "stored (st_leases st) (lock_key (wh_lock h) (xpdb_namespace x) (spec_selector (xpdb_spec x))) = Some l"
    "lease_holderIdentity l = Some me" "release env h inp me x st = (r, st')"
  shows "stored (st_leases st') (lock_key (wh_lock h) (xpdb_namespace x) (spec_selector (xpdb_spec x))) = None"
proof -
  obtain r s1 rs1 where u: "Unlock c (we_rpc env) (wh_lock h) (in_unlockNow inp) (in_unlockOrder inp) me
      (xpdb_namespace x) (spec_selector (xpdb_spec x)) (st_leases st, st_remote st) = (r, s1, rs1)"
    by (metis surj_pair)
  then have "st_leases st' = s1" using assms(1,5) by (auto simp: release_def)
  then show ?thesis using Unlock_releases [OF assms(2-4) u] by simp
qed

text \<open>A refusal after the lock was taken leaves no lease behind in this cluster.\<close>

lemma handle_budget_denied:
  assumes "we_leases env = c" "wf (st_leases st)"
    "stored (st_leases st) (lock_key (wh_lock h) (xpdb_namespace x) (spec_selector (xpdb_spec x))) = Some l"
    "lease_holderIdentity l = Some me"
    "handle_budget env h inp req p x me st = (Ok resp, st')" "\<not> ar_allowed resp"
  shows "stored (st_leases st') (lock_key (wh_lock h) (xpdb_namespace x) (spec_selector (xpdb_spec x))) = None"
proof -
  have rel: "stored (st_leases st') (lock_key (wh_lock h) (xpdb_namespace x) (spec_selector (xpdb_spec x))) = None"
    if "release env h inp me x st2 = (r2, st')" "st_leases st2 = st_leases st" for st2 r2
    using release_released [OF assms(1) _ _ assms(4) that(1)] that(2) assms(2,3) by simp
  from assms(5) show ?thesis
  proof (cases rule: handle_budget_cases)
    case (errored d e rs ps)
    with handleError_releases rel show ?thesis by fastforce
  next
    case (refused m rs ps)
    with handleNotAllowed_releases rel show ?thesis by fastforce
  next
    case (accepted rs ps)
    with assms(6) show ?thesis by (auto simp: accept_def)
  qed simp
qed

lemma handle_xpdb_denied:
  assumes "we_leases env = c" "wf (st_leases st)"
    and "handle_xpdb env h inp req p x st = (Ok resp, st')" "\<not> ar_allowed resp"
    and "Lock c (we_rpc env) (wh_lock h) (in_lockClk inp) (in_lockOrder inp) (lock_identity h inp p)
      (xpdb_namespace x) (spec_selector (xpdb_spec x)) (st_leases st, st_remote st) = (Ok (), s1, rs1)"
  shows "stored (st_leases st') (lock_key (wh_lock h) (xpdb_namespace x) (spec_selector (xpdb_spec x))) = None"
proof -
  obtain n0 n1 n2 where clk: "in_lockClk inp = (n0, n1, n2)" by (metis surj_pair)
  have lock: "LocalLock c (wh_lock h) (n0, n1, n2) (lock_identity h inp p) (xpdb_namespace x)
      (spec_selector (xpdb_spec x)) (st_leases st) = (Ok (), s1)" using assms(5) by (simp add: Lock_Ok clk)
  obtain l where l: "stored s1 (lock_key (wh_lock h) (xpdb_namespace x) (spec_selector (xpdb_spec x))) = Some l"
    "lease_holderIdentity l = Some (lock_identity h inp p)"
    using LocalLock_acquired [OF lock assms(2)] by metis
  have "wf s1" using LocalLock_wf_frame [OF lock assms(2)] by blast
  moreover have "handle_budget env h inp req p x (lock_identity h inp p) (st\<lparr>st_leases := s1, st_remote := rs1\<rparr>)
      = (Ok resp, st')"
    using assms(1,3-5) by (auto simp: handle_xpdb_def Let_def split: if_splits)
  ultimately show ?thesis
    using handle_budget_denied [OF assms(1), of "st\<lparr>st_leases := s1, st_remote := rs1\<rparr>"] l assms(4) by simp
qed

end


lemma Handle_exempt:
  "decodePod env req (st_pods st) = Inr p \<Longrightarrow> exempt p \<Longrightarrow>
     Handle env h inp req st = (Ok (admissionResponse h True [] None), st)"
  unfolding exempt_def by (elim disjE) (simp_all add: Handle_def)


section \<open>Dry-run mode and response codes\<close>

text \<open>The verdict in an outcome of the handler, with the state.\<close>

definition verdict :: "admission_response go \<times> 'st \<Rightarrow> bool go \<times> 'st" where
  "verdict out = map_prod (map_go ar_allowed) id out"

lemma verdict_simps [simp]:
  "verdict (Ok resp, st) = (Ok (ar_allowed resp), st)"
  "verdict (Panic, st) = (Panic, st)"
  "verdict (Err e, st) = (Err e, st)"
  by (simp_all add: verdict_def)

lemma verdict_eqD:
  "verdict out = verdict out' \<Longrightarrow> out = (Ok resp, st) \<Longrightarrow>
     \<exists>resp'. out' = (Ok resp', st) \<and> ar_allowed resp' = ar_allowed resp"
  by (cases out'; cases "fst out'") auto

lemma verdict_respond_after:
  "ar_allowed resp = ar_allowed resp' \<Longrightarrow> verdict (respond_after out resp) = verdict (respond_after out resp')"
  by (cases out; cases "fst out") (simp_all add: respond_after_def)

lemma release_dry [simp]: "release env (h\<lparr>wh_dryRun := b\<rparr>) = release env h"
  by (simp add: release_def fun_eq_iff)

lemma lock_identity_dry [simp]: "lock_identity (h\<lparr>wh_dryRun := b\<rparr>) = lock_identity h"
  by (simp add: lock_identity_def fun_eq_iff)

lemma handleError_dry:
  "verdict (handleError env (h\<lparr>wh_dryRun := b\<rparr>) inp xp d e me st) = verdict (handleError env h inp xp d e me st)"
  by (cases xp) (simp_all add: handleError_def verdict_respond_after)

lemma handleNotAllowed_dry:
  "verdict (handleNotAllowedDisruption env (h\<lparr>wh_dryRun := b\<rparr>) inp req xp p me m st) =
     verdict (handleNotAllowedDisruption env h inp req xp p me m st)"
  by (cases xp) (simp_all add: handleNotAllowedDisruption_def Let_def verdict_respond_after)

lemma accept_dry: "verdict (accept (h\<lparr>wh_dryRun := b\<rparr>) p x st) = verdict (accept h p x st)"
  by (simp add: accept_def)

lemmas stage_dry = handleError_dry handleNotAllowed_dry accept_dry

lemma handle_probe_dry:
  "verdict (handle_probe env (h\<lparr>wh_dryRun := b\<rparr>) inp req p x me st) = verdict (handle_probe env h inp req p x me st)"
  by (simp add: handle_probe_def Let_def stage_dry split: prod.split sum.split)

lemma handle_budget_dry:
  "verdict (handle_budget env (h\<lparr>wh_dryRun := b\<rparr>) inp req p x me st) = verdict (handle_budget env h inp req p x me st)"
  by (simp add: handle_budget_def Let_def stage_dry handle_probe_dry split: prod.split go.split)

lemma handle_xpdb_dry:
  "verdict (handle_xpdb env (h\<lparr>wh_dryRun := b\<rparr>) inp req p x st) = verdict (handle_xpdb env h inp req p x st)"
  by (simp add: handle_xpdb_def Let_def handle_budget_dry split: prod.split go.split)

lemma handle_xpdbs_dry:
  "verdict (handle_xpdbs env (h\<lparr>wh_dryRun := b\<rparr>) inp req p st) = verdict (handle_xpdbs env h inp req p st)"
  by (simp add: handle_xpdbs_def handle_xpdb_dry split: sum.split list.split)

lemma Handle_dry:
  "verdict (Handle env (h\<lparr>wh_dryRun := b\<rparr>) inp req st) = verdict (Handle env h inp req st)"
  by (simp add: Handle_def Let_def stage_dry handle_xpdbs_dry split: prod.split sum.split)

text \<open>Every response is built by \<^const>\<open>admissionResponse\<close>, with one of three codes for a refusal.\<close>

definition built_response :: "webhook \<Rightarrow> admission_response \<Rightarrow> bool" where
  "built_response h resp \<longleftrightarrow>
     resp = admissionResponse h True [] None \<or>
     (\<exists>m c. resp = admissionResponse h False m c \<and> c \<in> {None, Some 429, Some 500})"

definition built_outcome :: "webhook \<Rightarrow> admission_response go \<times> 'st \<Rightarrow> bool" where
  "built_outcome h out \<longleftrightarrow> (case fst out of Ok resp \<Rightarrow> built_response h resp | Err _ \<Rightarrow> False | Panic \<Rightarrow> True)"

lemma built_outcome_simps [simp]:
  "built_outcome h (Ok resp, st) = built_response h resp" "built_outcome h (Panic, st)"
  by (simp_all add: built_outcome_def)

lemma built_response_intros [simp]:
  "built_response h (admissionResponse h True [] None)"
  "built_response h (admissionResponse h False m None)"
  "built_response h (admissionResponse h False m (Some 429))"
  "built_response h (admissionResponse h False m (Some 500))"
  by (auto simp: built_response_def)

lemma built_respond_after [simp]: "built_response h resp \<Longrightarrow> built_outcome h (respond_after out resp)"
  by (cases out; cases "fst out") (simp_all add: respond_after_def)

lemma built_stages [simp]:
  "built_outcome h (handleError env h inp xp d e me st)"
  "built_outcome h (handleNotAllowedDisruption env h inp req xp p me m st)"
  "built_outcome h (accept h p x st)"
  by (cases xp; simp add: handleError_def handleNotAllowedDisruption_def accept_def Let_def)+

lemma built_handle_probe [simp]: "built_outcome h (handle_probe env h inp req p x me st)"
  by (simp add: handle_probe_def Let_def split: prod.split sum.split)

lemma built_handle_budget [simp]: "built_outcome h (handle_budget env h inp req p x me st)"
  by (simp add: handle_budget_def Let_def split: prod.split go.split)

lemma built_handle_xpdb [simp]: "built_outcome h (handle_xpdb env h inp req p x st)"
  by (simp add: handle_xpdb_def Let_def split: prod.split go.split)

lemma built_handle_xpdbs [simp]: "built_outcome h (handle_xpdbs env h inp req p st)"
  by (simp add: handle_xpdbs_def split: sum.split list.split)

lemma built_Handle: "built_outcome h (Handle env h inp req st)"
  by (simp add: Handle_def Let_def split: prod.split sum.split)

text \<open>
  The code for a refusal by the budget or by the probe is 429, so that a drain waits and tries again;
  every other refusal has another code.
\<close>

definition refuses ::
    "('s, 'c, 'w, 'd, 'v, 'p) webhook_env \<Rightarrow> webhook \<Rightarrow> inputs \<Rightarrow> pod \<Rightarrow> xpdb
     \<Rightarrow> ('s, 'c, 'w, 'd, 'v, 'p) webhook_state \<Rightarrow> bool" where
  "refuses env h inp p x st \<longleftrightarrow>
     (\<exists>s1 rs1 b rs2.
        Lock (we_leases env) (we_rpc env) (wh_lock h) (in_lockClk inp) (in_lockOrder inp) (lock_identity h inp p)
          (xpdb_namespace x) (spec_selector (xpdb_spec x)) (st_leases st, st_remote st) = (Ok (), s1, rs1) \<and>
        CanPodBeDisrupted (we_f2i env) (we_rpc env) (wh_pdb h) (in_stateOrder inp) p x rs1 = (Ok b, rs2) \<and>
        (b \<longrightarrow> probe_wanted x \<and> fst (probe_CanPodBeDisrupted (we_probe env) p x (st_probe st)) = Inr False))"

lemma admissionResponse_code:
  "\<not> wh_dryRun h \<Longrightarrow> ar_code (admissionResponse h b m c) = (case c of Some k \<Rightarrow> k | None \<Rightarrow> if b then 200 else 403)"
  by (auto simp: admissionResponse_def ValidationResponse_def Errored_def split: option.splits)

lemma handleError_code:
  "\<not> wh_dryRun h \<Longrightarrow> handleError env h inp xp d e me st = (Ok resp, st') \<Longrightarrow> ar_code resp = 403"
  by (auto simp: handleError_def Let_def respond_after_def admissionResponse_code
      split: option.splits prod.splits go.splits)

lemma handleNotAllowed_code:
  "\<not> wh_dryRun h \<Longrightarrow> handleNotAllowedDisruption env h inp req xp p me m st = (Ok resp, st') \<Longrightarrow> ar_code resp = 429"
  by (auto simp: handleNotAllowedDisruption_def Let_def respond_after_def admissionResponse_code
      split: option.splits prod.splits go.splits)

lemma handle_probe_429:
  assumes "\<not> wh_dryRun h" "handle_probe env h inp req p x me st = (Ok resp, st')"
  shows "ar_code resp = 429 \<longleftrightarrow>
     probe_wanted x \<and> fst (probe_CanPodBeDisrupted (we_probe env) p x (st_probe st)) = Inr False"
proof -
  obtain r ps where "probe_CanPodBeDisrupted (we_probe env) p x (st_probe st) = (r, ps)" by (metis surj_pair)
  with assms show ?thesis
    by (auto simp: handle_probe_def Let_def accept_def admissionResponse_code
        dest: handleError_code handleNotAllowed_code split: sum.splits if_splits)
qed

lemma handle_budget_429:
  assumes "\<not> wh_dryRun h" "handle_budget env h inp req p x me st = (Ok resp, st')"
  shows "ar_code resp = 429 \<longleftrightarrow>
     (\<exists>b rs2. CanPodBeDisrupted (we_f2i env) (we_rpc env) (wh_pdb h) (in_stateOrder inp) p x (st_remote st) = (Ok b, rs2) \<and>
        (b \<longrightarrow> probe_wanted x \<and> fst (probe_CanPodBeDisrupted (we_probe env) p x (st_probe st)) = Inr False))"
proof -
  obtain r rs2 where c: "CanPodBeDisrupted (we_f2i env) (we_rpc env) (wh_pdb h) (in_stateOrder inp) p x (st_remote st)
      = (r, rs2)" by (metis surj_pair)
  show ?thesis
  proof (cases "r = Ok True")
    case True
    then have "handle_probe env h inp req p x me (st\<lparr>st_remote := rs2\<rparr>) = (Ok resp, st')"
      using assms(2) c by (simp add: handle_budget_def)
    from handle_probe_429 [OF assms(1) this] show ?thesis using c True by auto
  next
    case False
    then show ?thesis using assms c
      by (auto simp: handle_budget_def Let_def dest: handleError_code handleNotAllowed_code split: go.splits)
  qed
qed

lemma handle_xpdb_429:
  assumes "\<not> wh_dryRun h" "handle_xpdb env h inp req p x st = (Ok resp, st')"
    and "spec_suspend (xpdb_spec x) \<noteq> Some True"
  shows "ar_code resp = 429 \<longleftrightarrow> refuses env h inp p x st"
proof -
  obtain r s1 rs1 where l: "Lock (we_leases env) (we_rpc env) (wh_lock h) (in_lockClk inp) (in_lockOrder inp)
      (lock_identity h inp p) (xpdb_namespace x) (spec_selector (xpdb_spec x)) (st_leases st, st_remote st)
      = (r, s1, rs1)" by (metis surj_pair)
  show ?thesis
  proof (cases "r = Ok ()")
    case True
    then have "handle_budget env h inp req p x (lock_identity h inp p) (st\<lparr>st_leases := s1, st_remote := rs1\<rparr>)
        = (Ok resp, st')" using assms l by (simp add: handle_xpdb_def)
    from handle_budget_429 [OF assms(1) this] show ?thesis using l True by (simp add: refuses_def)
  next
    case False
    then show ?thesis using assms l
      by (auto simp: handle_xpdb_def Let_def refuses_def admissionResponse_code split: go.splits)
  qed
qed

text \<open>A pod with one budget that is not suspended reaches the stage of this budget.\<close>

lemma Handle_one_xpdb:
  assumes "decodePod env req (st_pods st) = Inr p" "\<not> exempt p" "\<not> has_preactivity p"
    and "GetXPdbsForPod (wh_pdb h) p = Inr [x]"
  shows "Handle env h inp req st = handle_xpdb env h inp req p x st"
proof -
  have "preactivities_CanPodBeDisrupted (we_updatePod env) p (st_pods st) = (Inr True, st_pods st)"
    using assms(3) by (simp add: preactivities_allow)
  then show ?thesis using assms(1,2,4) by (simp add: Handle_def handle_xpdbs_def exempt_def)
qed

end
