(* ===== verification/Webhook_Records.thy ===== *)
theory Webhook_Records
  imports Webhook
begin

text \<open>
  What a request leaves in the records of the program (\<^verbatim>\<open>internal/webhooks/validation.go\<close>, the calls of
  \<^verbatim>\<open>recorder.Eventf\<close> and of \<^verbatim>\<open>internal/metrics\<close>), and which requests are answered with code 429.
\<close>

section \<open>Events and metrics\<close>

lemma release_records:
  "release env h inp me x st = (r, st') \<Longrightarrow> st_events st' = st_events st \<and> st_metrics st' = st_metrics st"
  by (auto simp: release_def split: prod.splits)

lemma handleError_records:
  assumes "handleError env h inp xp d e me st = (r, st')"
  shows "st_events st' = st_events st \<and> st_metrics st' = st_metrics st"
proof (cases xp)
  case (Some x)
  with assms handleError_releases [of env h inp x d e me st r st'] show ?thesis using release_records by blast
qed (use assms in \<open>simp add: handleError_def\<close>)

lemma handleNotAllowed_records:
  assumes "handleNotAllowedDisruption env h inp req (Some x) p me m st = (r, st')"
  shows "st_events st' = st_events st @ [\<lparr>ev_object = XPdbObject (xpdb_namespace x) (xpdb_name x),
      ev_type = ''Normal'', ev_reason = XPDBEventReasonBlocked,
      ev_message = ''attempted eviction of '' @ pod_name p\<rparr>] \<and>
    st_metrics st' = ObserveEvictionRejected (xpdb_namespace x) (rq_resource req) (rq_subResource req)
      (rq_operation req) (st_metrics st)"
proof -
  let ?ev = "\<lparr>ev_object = XPdbObject (xpdb_namespace x) (xpdb_name x), ev_type = ''Normal'',
      ev_reason = XPDBEventReasonBlocked, ev_message = ''attempted eviction of '' @ pod_name p\<rparr>"
  let ?st = "observe (ObserveEvictionRejected (xpdb_namespace x) (rq_resource req) (rq_subResource req)
      (rq_operation req)) (Eventf ?ev st)"
  have "snd (release env h inp me x ?st) = st'"
    using assms by (intro respond_after_state) (simp add: handleNotAllowedDisruption_def Let_def)
  then have "st_events st' = st_events ?st" "st_metrics st' = st_metrics ?st"
    using release_records [of env h inp me x ?st] by (metis prod.collapse)+
  then show ?thesis by (simp add: observe_def Eventf_def)
qed

text \<open>
  The specification. A request for a pod that is not subject to a budget leaves no record. Several budgets: a
  configuration event on the pod and its counter. One active budget: the lock could not be taken, and only that is counted;
  the budget or the probe said no, with a blocked event and the counter of rejected evictions; the disruption
  was allowed, with an accepted event; or there was an error, without a record.
\<close>

definition budget_event :: "XPDBEventReason \<Rightarrow> xpdb \<Rightarrow> pod \<Rightarrow> event" where
  "budget_event reason x p =
     \<lparr>ev_object = XPdbObject (xpdb_namespace x) (xpdb_name x), ev_type = ''Normal'', ev_reason = reason,
      ev_message = ''attempted eviction of '' @ pod_name p\<rparr>"

definition config_event :: "pod \<Rightarrow> xpdb list \<Rightarrow> event" where
  "config_event p xs =
     \<lparr>ev_object = PodObject (pod_namespace p) (pod_name p), ev_type = ''Warning'', ev_reason = XPDBEventReasonInvalidConfiguration,
      ev_message = ''invalid configuration: pod matches multiple XPDBs: '' @ join_with '', '' (map xpdb_name xs)\<rparr>"

definition lock_fails ::
    "('s, 'c, 'w, 'd, 'v, 'p) webhook_env \<Rightarrow> webhook \<Rightarrow> inputs \<Rightarrow> pod \<Rightarrow> xpdb
     \<Rightarrow> ('s, 'c, 'w, 'd, 'v, 'p) webhook_state \<Rightarrow> bool" where
  "lock_fails env h inp p x st \<longleftrightarrow>
     fst (Lock (we_leases env) (we_rpc env) (wh_lock h) (in_lockClk inp) (in_lockOrder inp) (lock_identity h inp p)
       (xpdb_namespace x) (spec_selector (xpdb_spec x)) (st_leases st, st_remote st)) \<noteq> Ok ()"

definition records_of ::
    "('s, 'c, 'w, 'd, 'v, 'p) webhook_env \<Rightarrow> webhook \<Rightarrow> inputs \<Rightarrow> admission_request \<Rightarrow> pod \<Rightarrow> bool
     \<Rightarrow> ('s, 'c, 'w, 'd, 'v, 'p) webhook_state \<Rightarrow> event list \<times> (metrics \<Rightarrow> metrics)" where
  "records_of env h inp req p allowed st =
     (if exempt p \<or> has_preactivity p then ([], id)
      else
        (case GetXPdbsForPod (wh_pdb h) p of
           Inl _ \<Rightarrow> ([], id)
         | Inr xs \<Rightarrow>
             (case xs of
                [] \<Rightarrow> ([], id)
              | [x] \<Rightarrow>
                  if spec_suspend (xpdb_spec x) = Some True then ([], id)
                  else if lock_fails env h inp p x st then ([], ObserveLockError (pod_namespace p))
                  else if refuses env h inp p x st then
                    ([budget_event XPDBEventReasonBlocked x p],
                     ObserveEvictionRejected (xpdb_namespace x) (rq_resource req) (rq_subResource req) (rq_operation req))
                  else if allowed then ([budget_event XPDBEventReasonAccepted x p], id)
                  else ([], id)
              | _ \<Rightarrow> ([config_event p xs], ObservePodMatchingMultipleXPDBs (pod_namespace p)))))"

definition budget_refuses ::
    "('s, 'c, 'w, 'd, 'v, 'p) webhook_env \<Rightarrow> webhook \<Rightarrow> inputs \<Rightarrow> pod \<Rightarrow> xpdb
     \<Rightarrow> ('s, 'c, 'w, 'd, 'v, 'p) webhook_state \<Rightarrow> bool" where
  "budget_refuses env h inp p x st \<longleftrightarrow>
     (\<exists>b rs2. CanPodBeDisrupted (we_f2i env) (we_rpc env) (wh_pdb h) (in_stateOrder inp) p x (st_remote st) = (Ok b, rs2) \<and>
        (b \<longrightarrow> probe_wanted x \<and> fst (probe_CanPodBeDisrupted (we_probe env) p x (st_probe st)) = Inr False))"

lemma refuses_locked:
  assumes "Lock (we_leases env) (we_rpc env) (wh_lock h) (in_lockClk inp) (in_lockOrder inp) (lock_identity h inp p)
      (xpdb_namespace x) (spec_selector (xpdb_spec x)) (st_leases st, st_remote st) = (r, s1, rs1)"
  shows "refuses env h inp p x st \<longleftrightarrow> r = Ok () \<and> budget_refuses env h inp p x (st\<lparr>st_leases := s1, st_remote := rs1\<rparr>)"
  using assms by (auto simp: refuses_def budget_refuses_def)

lemma handle_budget_records:
  assumes "handle_budget env h inp req p x me st = (Ok resp, st')"
  shows "st_events st' = st_events st @ (if budget_refuses env h inp p x st then [budget_event XPDBEventReasonBlocked x p]
      else if ar_allowed resp then [budget_event XPDBEventReasonAccepted x p] else []) \<and>
    st_metrics st' = (if budget_refuses env h inp p x st
      then ObserveEvictionRejected (xpdb_namespace x) (rq_resource req) (rq_subResource req) (rq_operation req) (st_metrics st)
      else st_metrics st)"
proof -
  obtain r rs2 where c: "CanPodBeDisrupted (we_f2i env) (we_rpc env) (wh_pdb h) (in_stateOrder inp) p x (st_remote st)
      = (r, rs2)" by (metis surj_pair)
  obtain q ps where q: "probe_CanPodBeDisrupted (we_probe env) p x (st_probe st) = (q, ps)" by (metis surj_pair)
  note unfolded = assms [unfolded handle_budget_def Let_def c prod.case]
  consider "r = Panic" | e where "r = Err e" | "r = Ok False" | "r = Ok True" "\<not> probe_wanted x"
    | e where "r = Ok True" "probe_wanted x" "q = Inl e" | "r = Ok True" "probe_wanted x" "q = Inr False"
    | "r = Ok True" "probe_wanted x" "q = Inr True"
    by (cases r) (auto, metis (full_types) obj_sumE)
  then show ?thesis
  proof cases
    case (2 e)
    then have "\<not> budget_refuses env h inp p x st" using c by (simp add: budget_refuses_def)
    with 2 unfolded handleError_records [of env h inp "Some x"] handleError_denies [of env h inp "Some x"] show ?thesis by fastforce
  next
    case 3
    then have "budget_refuses env h inp p x st" using c by (auto simp: budget_refuses_def)
    with 3 unfolded handleNotAllowed_records [of env h inp req x p] show ?thesis by (fastforce simp: budget_event_def)
  next
    case 4
    then have "\<not> budget_refuses env h inp p x st" using c by (simp add: budget_refuses_def)
    with 4 unfolded show ?thesis by (auto simp: handle_probe_def accept_def Eventf_def budget_event_def)
  next
    case (5 e)
    then have "\<not> budget_refuses env h inp p x st" using c q by (simp add: budget_refuses_def)
    with 5 unfolded q handleError_records [of env h inp "Some x"] handleError_denies [of env h inp "Some x"] show ?thesis
      by (fastforce simp: handle_probe_def)
  next
    case 6
    then have "budget_refuses env h inp p x st" using c q by (auto simp: budget_refuses_def)
    with 6 unfolded q handleNotAllowed_records [of env h inp req x p] show ?thesis
      by (fastforce simp: handle_probe_def budget_event_def)
  next
    case 7
    then have "\<not> budget_refuses env h inp p x st" using c q by (simp add: budget_refuses_def)
    with 7 unfolded q show ?thesis by (auto simp: handle_probe_def accept_def Eventf_def budget_event_def)
  qed (use unfolded in simp)
qed

lemma handle_xpdb_records:
  assumes "handle_xpdb env h inp req p x st = (Ok resp, st')" "\<not> exempt p" "\<not> has_preactivity p"
    and "GetXPdbsForPod (wh_pdb h) p = Inr [x]"
  shows "st_events st' = st_events st @ fst (records_of env h inp req p (ar_allowed resp) st) \<and>
    st_metrics st' = snd (records_of env h inp req p (ar_allowed resp) st) (st_metrics st)"
proof (cases "spec_suspend (xpdb_spec x) = Some True")
  case True
  with assms show ?thesis by (simp add: handle_xpdb_def records_of_def)
next
  case False
  obtain r s1 rs1 where l: "Lock (we_leases env) (we_rpc env) (wh_lock h) (in_lockClk inp) (in_lockOrder inp)
      (lock_identity h inp p) (xpdb_namespace x) (spec_selector (xpdb_spec x)) (st_leases st, st_remote st)
      = (r, s1, rs1)" by (metis surj_pair)
  note spec = records_of_def lock_fails_def refuses_locked [OF l]
  show ?thesis
  proof (cases r)
    case (Ok u)
    then have "handle_budget env h inp req p x (lock_identity h inp p) (st\<lparr>st_leases := s1, st_remote := rs1\<rparr>)
        = (Ok resp, st')" using assms(1) l False by (simp add: handle_xpdb_def)
    from handle_budget_records [OF this] show ?thesis using assms(2-4) l False Ok by (simp add: spec)
  next
    case (Err e)
    then show ?thesis using assms l False by (auto simp: handle_xpdb_def spec observe_def)
  next
    case Panic
    then show ?thesis using assms(1) l False by (simp add: handle_xpdb_def)
  qed
qed

text \<open>A pod with a pending pre-activity is marked; the request ends there.\<close>

lemma Handle_preactivity:
  assumes "decodePod env req (st_pods st) = Inr p" "\<not> exempt p" "has_preactivity p"
  shows "Handle env h inp req st =
    (let (oe, pods1) = we_updatePod env (with_pending_disruption p) (st_pods st) in
     (Ok (case oe of
        None \<Rightarrow> admissionResponse h False PendingActivitiesDisruptionNotAllowedMessage (Some 429)
      | Some _ \<Rightarrow> admissionResponse h False '': could not add pending disruption annotation to pod'' None), st\<lparr>st_pods := pods1\<rparr>))"
  using assms
  by (auto simp: Handle_def exempt_def preactivities_CanPodBeDisrupted_def getPendingPreactivities_Nil
      setPendingDisruptionAnnotationOnPod_def handleError_def handleNotAllowedDisruption_def split: prod.split option.split)

lemma Handle_no_preactivity:
  assumes "decodePod env req (st_pods st) = Inr p" "\<not> exempt p" "\<not> has_preactivity p"
  shows "Handle env h inp req st = handle_xpdbs env h inp req p st"
proof -
  have "preactivities_CanPodBeDisrupted (we_updatePod env) p (st_pods st) = (Inr True, st_pods st)"
    using assms(3) by (simp add: preactivities_allow)
  then show ?thesis using assms(1,2) by (simp add: Handle_def exempt_def)
qed

lemma Handle_records:
  assumes "decodePod env req (st_pods st) = Inr p" "Handle env h inp req st = (Ok resp, st')"
  shows "st_events st' = st_events st @ fst (records_of env h inp req p (ar_allowed resp) st) \<and>
    st_metrics st' = snd (records_of env h inp req p (ar_allowed resp) st) (st_metrics st)"
proof -
  consider "exempt p" | "\<not> exempt p" "has_preactivity p" | "\<not> exempt p" "\<not> has_preactivity p" by blast
  then show ?thesis
  proof cases
    case 1
    with assms show ?thesis by (auto simp: Handle_exempt records_of_def)
  next
    case 2
    with assms show ?thesis by (auto simp: Handle_preactivity [OF assms(1) 2] records_of_def split: prod.splits)
  next
    case 3
    then have x: "handle_xpdbs env h inp req p st = (Ok resp, st')" using Handle_no_preactivity [OF assms(1) 3] assms(2) by simp
    consider e where "GetXPdbsForPod (wh_pdb h) p = Inl e" | "GetXPdbsForPod (wh_pdb h) p = Inr []"
      | y where "GetXPdbsForPod (wh_pdb h) p = Inr [y]" | y z zs where "GetXPdbsForPod (wh_pdb h) p = Inr (y # z # zs)"
      by (metis neq_Nil_conv obj_sumE)
    then show ?thesis
    proof cases
      case (3 y)
      with x \<open>\<not> exempt p\<close> \<open>\<not> has_preactivity p\<close> show ?thesis
        by (intro handle_xpdb_records) (simp_all add: handle_xpdbs_def)
    next
      case (4 y z zs)
      with x \<open>\<not> exempt p\<close> \<open>\<not> has_preactivity p\<close> show ?thesis
        by (auto simp: handle_xpdbs_def observe_def Eventf_def records_of_def config_event_def)
    qed (use x in \<open>auto simp: handle_xpdbs_def records_of_def\<close>)
  qed
qed


section \<open>Code 429\<close>

text \<open>
  A pod that is subject to the webhook has a pre-activity and could be marked, or has one active budget, and the budget
  or its probe refused under the lock.
\<close>

definition must_wait ::
    "('s, 'c, 'w, 'd, 'v, 'p) webhook_env \<Rightarrow> webhook \<Rightarrow> inputs \<Rightarrow> admission_request
     \<Rightarrow> ('s, 'c, 'w, 'd, 'v, 'p) webhook_state \<Rightarrow> bool" where
  "must_wait env h inp req st \<longleftrightarrow>
     (\<exists>p. decodePod env req (st_pods st) = Inr p \<and> \<not> exempt p \<and>
        (if has_preactivity p then fst (we_updatePod env (with_pending_disruption p) (st_pods st)) = None
         else \<exists>x. GetXPdbsForPod (wh_pdb h) p = Inr [x] \<and> spec_suspend (xpdb_spec x) \<noteq> Some True \<and> refuses env h inp p x st))"

lemma handle_xpdbs_429:
  assumes "\<not> wh_dryRun h" "handle_xpdbs env h inp req p st = (Ok resp, st')"
  shows "ar_code resp = 429 \<longleftrightarrow>
    (\<exists>x. GetXPdbsForPod (wh_pdb h) p = Inr [x] \<and> spec_suspend (xpdb_spec x) \<noteq> Some True \<and> refuses env h inp p x st)"
proof -
  consider e where "GetXPdbsForPod (wh_pdb h) p = Inl e" | "GetXPdbsForPod (wh_pdb h) p = Inr []"
    | x where "GetXPdbsForPod (wh_pdb h) p = Inr [x]" | y z zs where "GetXPdbsForPod (wh_pdb h) p = Inr (y # z # zs)"
    by (metis neq_Nil_conv obj_sumE)
  then show ?thesis
  proof cases
    case (3 x)
    then have "handle_xpdb env h inp req p x st = (Ok resp, st')" using assms(2) by (simp add: handle_xpdbs_def)
    with 3 handle_xpdb_429 [OF assms(1) this] assms(1) show ?thesis
      by (cases "spec_suspend (xpdb_spec x) = Some True") (auto simp: handle_xpdb_def admissionResponse_code)
  qed (use assms in \<open>auto simp: handle_xpdbs_def admissionResponse_code\<close>)
qed

lemma Handle_429:
  assumes "\<not> wh_dryRun h" "Handle env h inp req st = (Ok resp, st')"
  shows "ar_code resp = 429 \<longleftrightarrow> must_wait env h inp req st"
proof (cases "decodePod env req (st_pods st)")
  case (Inl e)
  with assms show ?thesis by (auto simp: Handle_def must_wait_def admissionResponse_code)
next
  case (Inr p)
  consider "exempt p" | "\<not> exempt p" "has_preactivity p" | "\<not> exempt p" "\<not> has_preactivity p" by blast
  then show ?thesis
  proof cases
    case 1
    with assms Inr show ?thesis by (auto simp: Handle_exempt must_wait_def admissionResponse_code)
  next
    case 2
    with assms Inr show ?thesis
      by (auto simp: Handle_preactivity [OF Inr 2] must_wait_def admissionResponse_code split: prod.splits option.splits)
  next
    case 3
    with assms Inr show ?thesis
      using handle_xpdbs_429 [of h env inp req p st] by (simp add: Handle_no_preactivity [OF Inr 3] must_wait_def)
  qed
qed

end
