(* ===== verification/Samples.thy ===== *)
theory Samples
  imports Webhook
begin

text \<open>
  A concrete installation, on which the properties are applied: two clusters, each with the same
  two-replica stateful set, one budget that lets one pod go at a time, in-memory API servers and a
  network without failures.
\<close>

section \<open>The objects\<close>

definition sample_selector :: label_selector where
  "sample_selector = \<lparr>match_labels = [(''app'', ''db'')], match_expressions = []\<rparr>"

definition sample_owner :: owner_reference where
  "sample_owner = \<lparr>or_apiVersion = ''apps/v1'', or_kind = ''StatefulSet'', or_name = ''db'', or_uid = ''u1'',
                   or_controller = Some True\<rparr>"

definition sample_pod :: "string \<Rightarrow> string \<Rightarrow> pod" where
  "sample_pod name ready =
     \<lparr>pod_name = name, pod_namespace = ''shop'', pod_labels = [(''app'', ''db'')], pod_annotations = [],
      pod_owners = [sample_owner], pod_deletionTimestamp = None,
      pod_conditions = [\<lparr>cond_type = ''Ready'', cond_status = ready, cond_reason = [], cond_message = []\<rparr>],
      pod_reason = []\<rparr>"

definition sample_workload :: workload where
  "sample_workload = \<lparr>wl_uid = ''u1'', wl_namespace = ''shop'', wl_owners = [], wl_replicas = Some 2\<rparr>"

definition sample_scale :: scale_api where
  "sample_scale =
     \<lparr>sa_ReplicaSet = (\<lambda>ns n. Inl (NotFound [])), sa_StatefulSet = (\<lambda>ns n. Inr sample_workload),
      sa_Deployment = (\<lambda>ns n. Inl (NotFound [])), sa_ReplicationController = (\<lambda>ns n. Inl (NotFound [])),
      sa_Scale = (\<lambda>gv k ns n. Inl (NotFound [])), sa_Resources = (\<lambda>gv. Inr []), sa_podString = (\<lambda>p. [])\<rparr>"

definition one_unavailable :: int_or_string where
  "one_unavailable = \<lparr>is_type = IntType, is_int = 1, is_str = []\<rparr>"

definition sample_spec :: xpdb_spec where
  "sample_spec = \<lparr>spec_suspend = None, spec_minAvailable = None, spec_selector = sample_selector,
                  spec_maxUnavailable = Some one_unavailable, spec_probe = None\<rparr>"

definition sample_xpdb :: xpdb where
  "sample_xpdb = \<lparr>xpdb_name = ''db'', xpdb_namespace = ''shop'', xpdb_spec = sample_spec\<rparr>"

definition sample_reader :: "string \<Rightarrow> reader" where
  "sample_reader ready = fake_reader [sample_pod ''db-0'' ''True'', sample_pod ''db-1'' ready] [sample_xpdb] sample_scale"

definition sample_pdb :: "string list \<Rightarrow> string \<Rightarrow> pdb_service" where
  "sample_pdb eps ready = \<lparr>ps_reader = sample_reader ready, ps_remoteEndpoints = eps\<rparr>"

definition sample_lock :: "string list \<Rightarrow> lock_service" where
  "sample_lock eps = \<lparr>ls_leaseNamespace = ''x-pdb'', ls_remoteEndpoints = eps\<rparr>"


section \<open>The installation\<close>

definition sample_dial :: "string dial_env" where
  "sample_dial = \<lparr>de_certwatcher = (\<lambda>c k. None), de_readFile = (\<lambda>f. Inr ''PEM''),
                  de_appendCerts = (\<lambda>b. True), de_grpcNewClient = Inr\<rparr>"

text \<open>The remote cluster at every endpoint; its second pod may be ready or not.\<close>

definition sample_cluster :: "string \<Rightarrow> tracker cluster" where
  "sample_cluster ready =
     \<lparr>cl_client = fake_client, cl_lock = sample_lock [], cl_pdb = sample_pdb [] ready,
      cl_clk = (1000, 2000, 3000), cl_now = 9000\<rparr>"

definition sample_mesh :: "string \<Rightarrow> tracker mesh" where
  "sample_mesh ready =
     \<lparr>ms_cluster = (\<lambda>e. sample_cluster ready), ms_dial = sample_dial, ms_connect = (\<lambda>e. None),
      ms_request = (\<lambda>e. None), ms_reply = (\<lambda>e. None)\<rparr>"

definition sample_env ::
    "string \<Rightarrow> (tracker, string, string \<Rightarrow> tracker, unit, unit, nat) webhook_env" where
  "sample_env ready =
     \<lparr>we_leases = fake_client, we_rpc = mesh_env (sample_mesh ready),
      we_probe = \<lparr>pe_dial = \<lparr>de_certwatcher = (\<lambda>c k. None), de_readFile = (\<lambda>f. Inr []), de_appendCerts = (\<lambda>b. True),
                             de_grpcNewClient = (\<lambda>e. Inr ())\<rparr>,
                  pe_IsDisruptionAllowed = (\<lambda>c r v. (Inr \<lparr>prs_isAllowed = True, prs_error = []\<rparr>, v))\<rparr>,
      we_updatePod = (\<lambda>p n. (None, Suc n)), we_getPod = (\<lambda>k s. Inr (sample_pod ''db-0'' ''True'')),
      we_decodeRaw = (\<lambda>r. Inl (EMsg [])), we_f2i = (\<lambda>q. 0)\<rparr>"

definition sample_webhook :: "bool \<Rightarrow> webhook" where
  "sample_webhook dry =
     \<lparr>wh_pdb = sample_pdb [''b:9643''] ''True'', wh_lock = sample_lock [''b:9643''], wh_clusterID = ''a'',
      wh_podID = ''x-pdb-0'', wh_dryRun = dry\<rparr>"

definition sample_inputs :: inputs where
  "sample_inputs =
     \<lparr>in_lockClk = (1000, 2000, 3000), in_unlockNow = 9000, in_uuid = ''uuid-1'',
      in_lockOrder = [''b:9643''], in_stateOrder = [''b:9643''], in_unlockOrder = [''b:9643'']\<rparr>"

definition sample_request :: admission_request where
  "sample_request =
     \<lparr>rq_namespace = ''shop'', rq_name = ''db-0'', rq_oldObject = [], rq_resource = ''pods'',
      rq_subResource = ''eviction'', rq_operation = ''CREATE''\<rparr>"

definition sample_state ::
    "(tracker, string, string \<Rightarrow> tracker, unit, unit, nat) webhook_state" where
  "sample_state =
     \<lparr>st_leases = Map.empty, st_remote = (NewClientPool ''/certs'', \<lambda>e. Map.empty),
      st_probe = (probe_NewClientPool ''/certs'', ()), st_pods = 0, st_metrics = no_metrics, st_events = []\<rparr>"


section \<open>What the services answer\<close>

lemma sample_counts: "GetPodCounts (sample_pdb eps ''True'') ''shop'' sample_selector = Ok (2, 2)"
  by code_simp

lemma sample_counts_unready: "GetPodCounts (sample_pdb eps ''False'') ''shop'' sample_selector = Ok (2, 1)"
  by code_simp

lemma sample_xpdbs: "GetXPdbsForPod (sample_pdb eps ready) (sample_pod n r) = Inr [sample_xpdb]"
  by code_simp


definition sample_pool :: "string client_pool" where
  "sample_pool = \<lparr>cp_clients = [''b:9643'' \<mapsto> ''b:9643''], cp_certsDir = ''/certs'', cp_watchers = 1\<rparr>"

lemma sample_dialled:
  "state_pool_Get (re_dial (mesh_env (sample_mesh ready))) (NewClientPool ''/certs'') ''b:9643'' =
     (Inr ''b:9643'', sample_pool)"
  by (simp add: state_pool_Get_def state_newClient_def dial_with_ca_def mesh_env_def sample_mesh_def sample_dial_def
      NewClientPool_def sample_pool_def)

lemma sample_cached: "state_pool_Get dial sample_pool ''b:9643'' = (Inr ''b:9643'', sample_pool)"
  by (simp add: state_pool_Get_def sample_pool_def)

lemma sample_remote_lock:
  "remoteLock (mesh_env (sample_mesh ready)) (sample_lock [''b:9643'']) [''b:9643''] me ns sel
       (NewClientPool ''/certs'', \<lambda>e. Map.empty) =
     (Ok (), (sample_pool, (\<lambda>e. Map.empty)(''b:9643'' := locked_by (sample_lock []) me ns sel 1000)))"
  by (simp add: remoteLock_def sample_lock_def rpc_task_def sample_dialled)
    (simp add: mesh_env_def over_network_def sample_mesh_def sample_cluster_def sample_lock_def
      stateServer_Lock_converted fake_lock_free)

lemma sample_get_state:
  "stateServer_GetState (sample_pdb eps ''True'') \<lparr>grq_namespace = ''shop'',
     grq_labelSelector = Some (ConvertLabelSelectorToState sample_selector)\<rparr> =
     Inr \<lparr>grs_desiredHealthy = 2, grs_healthy = 2\<rparr>"
  "stateServer_GetState (sample_pdb eps ''False'') \<lparr>grq_namespace = ''shop'',
     grq_labelSelector = Some (ConvertLabelSelectorToState sample_selector)\<rparr> =
     Inr \<lparr>grs_desiredHealthy = 2, grs_healthy = 1\<rparr>"
  by (simp_all add: stateServer_GetState_converted sample_counts sample_counts_unready)

lemma sample_verdicts:
  "disruptionAllowed f2i (Some sample_xpdb) (sample_pod ''db-0'' ''True'') 4 4 = Inr True"
  "disruptionAllowed f2i (Some sample_xpdb) (sample_pod ''db-0'' ''True'') 4 3 = Inr False"
  by code_simp+

lemma sample_xpdb_fields [simp]:
  "xpdb_namespace sample_xpdb = ''shop''" "spec_selector (xpdb_spec sample_xpdb) = sample_selector"
  "spec_suspend (xpdb_spec sample_xpdb) = None" "spec_probe (xpdb_spec sample_xpdb) = None"
  by (simp_all add: sample_xpdb_def sample_spec_def)

lemma sample_pdb_endpoints [simp]: "ps_remoteEndpoints (sample_pdb eps ready) = eps"
  by (simp add: sample_pdb_def)

lemma sample_lock_fields [simp]:
  "ls_remoteEndpoints (sample_lock eps) = eps" "ls_leaseNamespace (sample_lock eps) = ''x-pdb''"
  by (simp_all add: sample_lock_def)

lemma sample_remote_counts:
  "getRemotePodCounts (mesh_env (sample_mesh ''True'')) (sample_pdb [''b:9643''] ''True'') [''b:9643''] ''shop''
     sample_selector (sample_pool, w) = (Ok (2, 2), (sample_pool, w))"
  "getRemotePodCounts (mesh_env (sample_mesh ''False'')) (sample_pdb [''b:9643''] ''True'') [''b:9643''] ''shop''
     sample_selector (sample_pool, w) = (Ok (2, 1), (sample_pool, w))"
  by (simp_all add: getRemotePodCounts_def state_task_def rpc_task_def sample_cached)
    (simp_all add: mesh_env_def over_network_def sample_mesh_def sample_cluster_def sample_get_state add_counts_def)

lemma sample_decision:
  "CanPodBeDisrupted f2i (mesh_env (sample_mesh ''True'')) (sample_pdb [''b:9643''] ''True'') [''b:9643'']
     (sample_pod ''db-0'' ''True'') sample_xpdb (sample_pool, w) = (Ok True, (sample_pool, w))"
  "CanPodBeDisrupted f2i (mesh_env (sample_mesh ''False'')) (sample_pdb [''b:9643''] ''True'') [''b:9643'']
     (sample_pod ''db-0'' ''True'') sample_xpdb (sample_pool, w) = (Ok False, (sample_pool, w))"
  by (simp_all add: CanPodBeDisrupted_def sample_remote_counts sample_counts sample_verdicts)


section \<open>The handler on the installation\<close>

definition sample_identity :: string where
  "sample_identity = lock_identity (sample_webhook False) sample_inputs (sample_pod ''db-0'' ''True'')"

lemma sample_identity_dry [simp]:
  "lock_identity (sample_webhook dry) sample_inputs (sample_pod ''db-0'' ''True'') = sample_identity"
  by (simp add: sample_identity_def lock_identity_def sample_webhook_def)

definition sample_locked :: "string \<Rightarrow> tracker" where
  "sample_locked e = (if e = ''b:9643'' then locked_by (sample_lock []) sample_identity ''shop'' sample_selector 1000
                      else Map.empty)"

lemma sample_locked_upd:
  "(\<lambda>e. Map.empty)(''b:9643'' := locked_by (sample_lock []) sample_identity ''shop'' sample_selector 1000) = sample_locked"
  by (simp add: sample_locked_def fun_eq_iff)

lemma sample_lock_taken:
  "Lock fake_client (mesh_env (sample_mesh ready)) (sample_lock [''b:9643'']) (1000, 2000, 3000) [''b:9643'']
      sample_identity ''shop'' sample_selector (Map.empty, (NewClientPool ''/certs'', \<lambda>e. Map.empty)) =
    (Ok (), locked_by (sample_lock [''b:9643'']) sample_identity ''shop'' sample_selector 1000, (sample_pool, sample_locked))"
  using fake_lock_free sample_remote_lock [of ready sample_identity "''shop''" sample_selector]
  by (simp add: Lock_Ok sample_locked_upd)

lemma sample_not_exempt:
  "\<not> exempt (sample_pod ''db-0'' ''True'')" "\<not> has_preactivity (sample_pod n r)"
  by (simp_all add: exempt_def getDisruptionTargetCondition_def podHasNodeLostReason_def sample_pod_def
      DisruptionTarget_def NodeUnreachablePodReason_def has_preactivity_def)

lemma sample_decoded: "decodePod (sample_env ready) sample_request pods = Inr (sample_pod ''db-0'' ''True'')"
  by (simp add: decodePod_def sample_request_def sample_env_def)

definition sample_admitted ::
    "(tracker, string, string \<Rightarrow> tracker, unit, unit, nat) webhook_state" where
  "sample_admitted = snd (accept (sample_webhook False) (sample_pod ''db-0'' ''True'') sample_xpdb
     (sample_state\<lparr>st_leases := locked_by (sample_lock [''b:9643'']) sample_identity ''shop'' sample_selector 1000,
                   st_remote := (sample_pool, sample_locked), st_probe := st_probe sample_state\<rparr>))"

lemma sample_checks_passed:
  "checks_passed (sample_env ''True'') (sample_webhook False) sample_inputs (sample_pod ''db-0'' ''True'') sample_xpdb
     sample_state sample_admitted"
proof -
  let ?l = "locked_by (sample_lock [''b:9643'']) sample_identity ''shop'' sample_selector 1000"
  have a: "Lock (we_leases (sample_env ''True'')) (we_rpc (sample_env ''True'')) (wh_lock (sample_webhook False))
      (in_lockClk sample_inputs) (in_lockOrder sample_inputs)
      (lock_identity (sample_webhook False) sample_inputs (sample_pod ''db-0'' ''True''))
      (xpdb_namespace sample_xpdb) (spec_selector (xpdb_spec sample_xpdb))
      (st_leases sample_state, st_remote sample_state) = (Ok (), ?l, (sample_pool, sample_locked))"
    using sample_lock_taken [of "''True''"]
    by (simp add: sample_env_def sample_webhook_def sample_inputs_def sample_state_def
        sample_identity_def [unfolded sample_webhook_def sample_inputs_def])
  have b: "CanPodBeDisrupted (we_f2i (sample_env ''True'')) (we_rpc (sample_env ''True''))
      (wh_pdb (sample_webhook False)) (in_stateOrder sample_inputs) (sample_pod ''db-0'' ''True'') sample_xpdb
      (sample_pool, sample_locked) = (Ok True, (sample_pool, sample_locked))"
    using sample_decision(1) by (simp add: sample_env_def sample_webhook_def sample_inputs_def)
  show ?thesis
    unfolding checks_passed_def sample_admitted_def
    by (rule exI [of _ ?l], rule exI [of _ "(sample_pool, sample_locked)"],
        rule exI [of _ "(sample_pool, sample_locked)"], rule exI [of _ "st_probe sample_state"])
      (use a b in \<open>simp add: probe_wanted_def\<close>)
qed

lemma sample_handled:
  "\<exists>resp. Handle (sample_env ''True'') (sample_webhook False) sample_inputs sample_request sample_state
     = (Ok resp, sample_admitted) \<and> ar_allowed resp"
  unfolding Handle_allowed admits_def
  using sample_checks_passed sample_not_exempt sample_xpdbs
  by (simp add: sample_decoded sample_webhook_def)

text \<open>With an unready pod in the remote cluster the request is refused, and the locks are released.\<close>

lemma sample_remote_unlock:
  "remoteUnlock (mesh_env (sample_mesh ready)) (sample_lock [''b:9643'']) [''b:9643''] sample_identity ''shop''
     sample_selector (sample_pool, sample_locked) = (Ok (), (sample_pool, \<lambda>e. Map.empty))"
proof -
  have "sample_locked(''b:9643'' := Map.empty) = (\<lambda>e. Map.empty)"
    by (simp add: sample_locked_def fun_eq_iff)
  then show ?thesis
    by (simp add: remoteUnlock_def rpc_task_def sample_cached)
      (simp add: mesh_env_def over_network_def sample_mesh_def sample_cluster_def
        stateServer_Unlock_converted fake_unlock_locked sample_locked_def)
qed

lemma sample_unlocked:
  "Unlock fake_client (mesh_env (sample_mesh ready)) (sample_lock [''b:9643'']) 9000 [''b:9643''] sample_identity
     ''shop'' sample_selector
     (locked_by (sample_lock [''b:9643'']) sample_identity ''shop'' sample_selector 1000, (sample_pool, sample_locked)) =
   (Ok (), Map.empty, (sample_pool, \<lambda>e. Map.empty))"
  by (simp add: Unlock_Ok fake_unlock_locked sample_remote_unlock)

definition sample_refusal :: "bool \<Rightarrow> admission_response" where
  "sample_refusal dry = admissionResponse (sample_webhook dry) False XPDBDisruptionBudgetNotAllowedMessage (Some 429)"

lemma sample_handled_refused:
  "\<exists>st'. Handle (sample_env ''False'') (sample_webhook dry) sample_inputs sample_request sample_state
     = (Ok (sample_refusal dry), st')"
proof -
  let ?p = "sample_pod ''db-0'' ''True''" and ?env = "sample_env ''False''" and ?h = "sample_webhook dry"
  let ?st1 = "sample_state\<lparr>st_leases := locked_by (sample_lock [''b:9643'']) sample_identity ''shop'' sample_selector 1000,
      st_remote := (sample_pool, sample_locked)\<rparr>"
  have lock: "Lock (we_leases ?env) (we_rpc ?env) (wh_lock ?h) (in_lockClk sample_inputs) (in_lockOrder sample_inputs)
      (lock_identity ?h sample_inputs ?p) ''shop'' sample_selector (st_leases sample_state, st_remote sample_state)
    = (Ok (), st_leases ?st1, st_remote ?st1)"
    using sample_lock_taken [of "''False''"] sample_identity_dry [of dry]
    by (simp add: sample_env_def sample_webhook_def sample_inputs_def sample_state_def)
  have unlock: "Unlock (we_leases ?env) (we_rpc ?env) (wh_lock ?h) (in_unlockNow sample_inputs)
      (in_unlockOrder sample_inputs) sample_identity ''shop'' sample_selector
      (st_leases ?st1, st_remote ?st1) = (Ok (), Map.empty, (sample_pool, \<lambda>e. Map.empty))"
    using sample_unlocked [of "''False''"] by (simp add: sample_env_def sample_webhook_def sample_inputs_def)
  have can: "CanPodBeDisrupted (we_f2i ?env) (we_rpc ?env) (wh_pdb ?h) (in_stateOrder sample_inputs) ?p sample_xpdb
      (sample_pool, sample_locked) = (Ok False, (sample_pool, sample_locked))"
    using sample_decision(2) by (simp add: sample_env_def sample_webhook_def sample_inputs_def)
  have pre: "preactivities_CanPodBeDisrupted (we_updatePod ?env) ?p (st_pods sample_state) =
      (Inr True, st_pods sample_state)" by (simp add: preactivities_allow sample_not_exempt)
  have xs: "GetXPdbsForPod (wh_pdb ?h) ?p = Inr [sample_xpdb]"
    using sample_xpdbs by (simp add: sample_webhook_def)
  have "Handle ?env ?h sample_inputs sample_request sample_state =
      handle_xpdb ?env ?h sample_inputs sample_request ?p sample_xpdb sample_state"
    using pre xs sample_not_exempt(1) sample_decoded by (simp add: Handle_def handle_xpdbs_def exempt_def)
  also have "\<dots> = handle_budget ?env ?h sample_inputs sample_request ?p sample_xpdb sample_identity ?st1"
    using lock by (simp add: handle_xpdb_def)
  also have "\<dots> = handleNotAllowedDisruption ?env ?h sample_inputs sample_request (Some sample_xpdb) ?p sample_identity
      XPDBDisruptionBudgetNotAllowedMessage ?st1"
    using can by (simp add: handle_budget_def)
  finally show ?thesis
    using unlock by (simp add: handleNotAllowedDisruption_def release_def observe_def Eventf_def respond_after_def
        sample_refusal_def)
qed

end
