(* ===== verification/Mesh_Release.thy ===== *)
theory Mesh_Release
  imports Samples
begin

text \<open>
  The release of the lock over the mesh of clusters. A request that has taken the lock has dialled every
  endpoint, so the clients are in the pool for the release; the calls of the release are made even when
  the check that failed was a remote one. Together with the contract of the API servers this gives that
  a refused request leaves no lease behind in any cluster. The last section is about calls that may fail: what a
  run over the endpoints of an installation does to each of its clusters.
\<close>

section \<open>The clients are at hand\<close>

definition dialled :: "string client_pool \<Rightarrow> string list \<Rightarrow> bool" where
  "dialled p eps \<longleftrightarrow> honest_pool p \<and> (\<forall>e\<in>set eps. cp_clients p e = Some e)"

lemma dialled_task:
  assumes "rpc_task (re_dial (mesh_env m)) call e (p, w) = (r, (p', w'))" "honest_pool p"
  shows "dialled p eps \<Longrightarrow> dialled p' eps" "honest_pool p'" "r = Inr v \<Longrightarrow> cp_clients p' e = Some e"
proof -
  obtain g p1 where g: "state_pool_Get (re_dial (mesh_env m)) p e = (g, p1)" by fastforce
  have p1: "p' = p1" "r = Inr v \<Longrightarrow> \<exists>cli. g = Inr cli"
    using assms(1) g by (auto simp: rpc_task_def split: sum.splits prod.splits)
  show hon: "honest_pool p'" using honest_pool_Get(1) [OF assms(2) g] p1(1) by simp
  have keep: "cp_clients p1 e' = Some c" if "cp_clients p e' = Some c" for e' c
    using state_pool.get_keeps [OF that, of "re_dial (mesh_env m)" e] g by simp
  then show "dialled p eps \<Longrightarrow> dialled p' eps" using hon p1(1) by (auto simp: dialled_def)
  show "cp_clients p' e = Some e" if rv: "r = Inr v"
  proof -
    obtain cli where "g = Inr cli" using p1(2) [OF rv] by blast
    then show ?thesis using state_pool.get_caches [of _ p e cli p1] honest_pool_Get(2) [OF assms(2) g] g p1(1) by auto
  qed
qed

lemma dialled_pool:
  assumes "pool_run (rpc_task (re_dial (mesh_env m)) call) order (p, w) = (er, (p', w'))" "dialled p eps"
  shows "dialled p' eps"
  using assms
proof (induction order arbitrary: p w er)
  case (Cons e es)
  obtain r p1 w1 where t: "rpc_task (re_dial (mesh_env m)) call e (p, w) = (r, (p1, w1))" by (metis surj_pair)
  obtain er1 where rest: "pool_run (rpc_task (re_dial (mesh_env m)) call) es (p1, w1) = (er1, (p', w'))"
    using Cons.prems(1) t by (cases r) (auto split: prod.splits)
  have "dialled p1 eps" using dialled_task(1) [OF t] Cons.prems(2) by (auto simp: dialled_def)
  with Cons.IH [OF rest] show ?case .
qed simp

lemma dialled_tasks:
  assumes "all_tasks (rpc_task (re_dial (mesh_env m)) call) order (p, w) res (p', w')" "dialled p eps"
  shows "dialled p' (order @ eps)"
  using assms
proof (induction order arbitrary: p w res eps)
  case Nil
  then show ?case by (auto elim: all_tasks_NilE)
next
  case (Cons e es)
  obtain r rs p1 w1 where t: "rpc_task (re_dial (mesh_env m)) call e (p, w) = (Inr r, (p1, w1))"
    and rest: "all_tasks (rpc_task (re_dial (mesh_env m)) call) es (p1, w1) rs (p', w')"
    using Cons.prems(1) by (elim all_tasks_ConsE) auto
  have hon: "honest_pool p" using Cons.prems(2) by (simp add: dialled_def)
  have "dialled p1 (e # eps)" using dialled_task [OF t hon] Cons.prems(2) by (auto simp: dialled_def)
  from Cons.IH [OF rest this] show ?case by (auto simp: dialled_def)
qed

text \<open>A pool of calls on dialled endpoints that are reached: every handler runs once.\<close>

lemma dialled_run:
  assumes "pool_run (rpc_task (re_dial (mesh_env m)) (\<lambda>cli. over_network m cli (h cli))) order (p, w) = (er, (p', w'))"
    and "dialled p order" "distinct order" "\<forall>e\<in>set order. ms_request m e = None"
  shows "\<forall>e. w' e = (if e \<in> set order then snd (h e (w e)) else w e)"
  using assms
proof (induction order arbitrary: w er)
  case (Cons e es)
  let ?t = "rpc_task (re_dial (mesh_env m)) (\<lambda>cli. over_network m cli (h cli))"
  obtain r p1 w1 where t: "?t e (p, w) = (r, (p1, w1))" by (metis surj_pair)
  have "state_pool_Get (re_dial (mesh_env m)) p e = (Inr e, p)"
    using Cons.prems(2) by (simp add: state_pool_Get_def dialled_def)
  then have p1: "p1 = p" "w1 = w(e := snd (h e (w e)))"
    using t Cons.prems(4) by (auto simp: rpc_task_def over_network_def split: prod.splits option.splits)
  obtain er1 where rest: "pool_run ?t es (p, w1) = (er1, (p', w'))"
    using Cons.prems(1) t p1(1) by (cases r) (auto split: prod.splits)
  have "\<forall>e'. w' e' = (if e' \<in> set es then snd (h e' (w1 e')) else w1 e')"
    using Cons.IH [OF rest] Cons.prems(2-4) by (auto simp: dialled_def)
  then show ?case using p1(2) Cons.prems(3) by (auto split: if_splits)
qed simp


section \<open>The release in every cluster\<close>

lemma remoteUnlock_everywhere:
  assumes "remoteUnlock (mesh_env m) svc order me ns sel (p, w) = (r, (p', w'))"
    and "dialled p order" "distinct order" "\<forall>e\<in>set order. ms_request m e = None" "e \<in> set order"
    and "ls_remoteEndpoints svc \<noteq> []"
  shows "w' e = snd (LocalUnlock (cl_client (ms_cluster m e)) (cl_lock (ms_cluster m e)) (cl_now (ms_cluster m e))
    me ns sel (w e))"
proof -
  let ?req = "\<lparr>urq_leaseHolderIdentity = me, urq_namespace = ns,
      urq_labelSelector = Some (ConvertLabelSelectorToState sel)\<rparr>"
  let ?h = "\<lambda>e. stateServer_Unlock (cl_client (ms_cluster m e)) (cl_lock (ms_cluster m e)) (cl_now (ms_cluster m e)) ?req"
  obtain er where "pool_run (rpc_task (re_dial (mesh_env m)) (\<lambda>cli. re_Unlock (mesh_env m) cli ?req)) order (p, w)
      = (er, (p', w'))"
    using assms(1,6) by (auto simp: remoteUnlock_def Let_def split: prod.splits sum.splits if_splits)
  then have "pool_run (rpc_task (re_dial (mesh_env m)) (\<lambda>cli. over_network m cli (?h cli))) order (p, w) = (er, (p', w'))"
    by (simp add: mesh_env_def)
  from dialled_run [OF this assms(2-4)] assms(5) have "w' e = snd (?h e (w e))" by simp
  then show ?thesis unfolding stateServer_Unlock_converted by (auto split: prod.splits go.splits)
qed

lemma accept_allows: "accept h p x st = (Ok resp, st') \<Longrightarrow> ar_allowed resp"
  by (auto simp: accept_def)

text \<open>The end of a refused request: the release, after the remote counts have been read.\<close>

lemma handleError_released:
  assumes "handleError env h inp (Some x) d e me st = (r, st')"
  shows "\<exists>st2 r2. release env h inp me x st2 = (r2, st') \<and> st_leases st2 = st_leases st \<and> st_remote st2 = st_remote st"
  using handleError_releases [OF assms] by blast

lemma handle_probe_release:
  assumes "handle_probe env h inp req p x me st = (Ok resp, st')" "\<not> ar_allowed resp"
  shows "\<exists>st2 r2. release env h inp me x st2 = (r2, st') \<and> st_leases st2 = st_leases st \<and> st_remote st2 = st_remote st"
proof -
  obtain q ps where q: "probe_CanPodBeDisrupted (we_probe env) p x (st_probe st) = (q, ps)" by (metis surj_pair)
  have wanted: "probe_wanted x" using assms by (auto simp: handle_probe_def dest: accept_allows split: if_splits)
  show ?thesis
  proof (cases q)
    case (Inl e)
    then have "handleError env h inp (Some x) XPDBDisruptionProbeErrorMessage e me (st\<lparr>st_probe := ps\<rparr>) = (Ok resp, st')"
      using assms(1) q wanted by (simp add: handle_probe_def)
    from handleError_released [OF this] show ?thesis by simp
  next
    case (Inr v)
    then have "handleNotAllowedDisruption env h inp req (Some x) p me XPDBDisruptionProbeNotAllowedMessage
        (st\<lparr>st_probe := ps\<rparr>) = (Ok resp, st')"
      using assms q wanted by (cases v) (auto simp: handle_probe_def dest: accept_allows)
    from handleNotAllowed_releases [OF this] show ?thesis by simp
  qed
qed

lemma handle_budget_release:
  assumes "handle_budget env h inp req p x me st = (Ok resp, st')" "\<not> ar_allowed resp"
  shows "\<exists>st2 r2. release env h inp me x st2 = (r2, st') \<and> st_leases st2 = st_leases st \<and>
    st_remote st2 = snd (CanPodBeDisrupted (we_f2i env) (we_rpc env) (wh_pdb h) (in_stateOrder inp) p x (st_remote st))"
proof -
  obtain b rs where c: "CanPodBeDisrupted (we_f2i env) (we_rpc env) (wh_pdb h) (in_stateOrder inp) p x (st_remote st)
      = (b, rs)" by (metis surj_pair)
  show ?thesis
  proof (cases b)
    case Panic
    then show ?thesis using assms(1) c by (simp add: handle_budget_def)
  next
    case (Err e)
    then have "handleError env h inp (Some x) XPDBDisruptionBudgetErrorMessage e me (st\<lparr>st_remote := rs\<rparr>) = (Ok resp, st')"
      using assms(1) c by (simp add: handle_budget_def)
    from handleError_released [OF this] c show ?thesis by simp
  next
    case (Ok v)
    show ?thesis
    proof (cases v)
      case True
      then have "handle_probe env h inp req p x me (st\<lparr>st_remote := rs\<rparr>) = (Ok resp, st')"
        using assms(1) c Ok by (simp add: handle_budget_def)
      from handle_probe_release [OF this assms(2)] c show ?thesis by simp
    next
      case False
      then have "handleNotAllowedDisruption env h inp req (Some x) p me XPDBDisruptionBudgetNotAllowedMessage
          (st\<lparr>st_remote := rs\<rparr>) = (Ok resp, st')"
        using assms(1) c Ok by (simp add: handle_budget_def)
      from handleNotAllowed_releases [OF this] c show ?thesis by simp
    qed
  qed
qed

text \<open>Reading the remote counts changes no cluster and keeps the clients, also when it fails.\<close>

lemma CanPodBeDisrupted_keeps:
  assumes "CanPodBeDisrupted f2i (mesh_env m) svc order p x (pl, w) = (r, (pl', w'))" "dialled pl eps"
  shows "dialled pl' eps \<and> w' = w"
proof (cases "ps_remoteEndpoints svc = []")
  case True
  then show ?thesis using assms by (auto simp: CanPodBeDisrupted_def split: go.splits prod.splits)
next
  case False
  let ?t = "state_task (mesh_env m) (xpdb_namespace x) (spec_selector (xpdb_spec x))"
  obtain er where run: "pool_run ?t order (pl, w) = (er, (pl', w'))"
    using assms(1) False
    by (auto simp: CanPodBeDisrupted_def getRemotePodCounts_def Let_def split: go.splits prod.splits sum.splits)
  have "w' = w" using run
  proof (induction order arbitrary: pl er)
    case (Cons e es)
    obtain q pl1 w1 where t: "?t e (pl, w) = (q, (pl1, w1))" by (metis surj_pair)
    have "w1 = w"
      using t by (auto simp: state_task_def rpc_task_def mesh_env_def over_network_def split: sum.splits prod.splits option.splits)
    then show ?case using Cons.IH Cons.prems t by (cases q) (auto split: prod.splits)
  qed simp
  then show ?thesis using dialled_pool [OF run [unfolded state_task_def] assms(2)] by simp
qed

lemma Lock_dialled:
  assumes "Lock c (mesh_env m) svc clk order me ns sel (s, (pl, w)) = (Ok (), s', (pl', w'))" "honest_pool pl"
    and "set order = set (ls_remoteEndpoints svc)"
  shows "dialled pl' order"
proof (cases "ls_remoteEndpoints svc = []")
  case True
  then show ?thesis using assms by (simp add: Lock_Ok dialled_def)
next
  case False
  then have r: "remoteLock (mesh_env m) svc order me ns sel (pl, w) = (Ok (), (pl', w'))" using assms(1) by (simp add: Lock_Ok)
  obtain results where "all_tasks (rpc_task (re_dial (mesh_env m)) (\<lambda>cli. re_Lock (mesh_env m) cli
       \<lparr>lrq_leaseHolderIdentity = me, lrq_namespace = ns,
        lrq_labelSelector = Some (ConvertLabelSelectorToState sel)\<rparr>)) order (pl, w) results (pl', w')"
    using remoteLock_tasks [OF r False] by metis
  from dialled_tasks [OF this, of "[]"] assms(2) show ?thesis by (auto simp: dialled_def)
qed

lemma tasks_reached:
  assumes "all_tasks (rpc_task (re_dial (mesh_env m)) (\<lambda>cli. over_network m cli (h cli))) order (p, w) res (p', w')"
    and "honest_pool p" "e \<in> set order"
  shows "ms_request m e = None"
  using assms
proof (induction order arbitrary: p w res)
  case (Cons x xs)
  obtain r rs p1 w1 where
    t: "rpc_task (re_dial (mesh_env m)) (\<lambda>cli. over_network m cli (h cli)) x (p, w) = (Inr r, (p1, w1))"
    and rest: "all_tasks (rpc_task (re_dial (mesh_env m)) (\<lambda>cli. over_network m cli (h cli))) xs (p1, w1) rs (p', w')"
    using Cons.prems(1) by (elim all_tasks_ConsE) auto
  obtain g p2 where g: "state_pool_Get (re_dial (mesh_env m)) p x = (g, p2)" by fastforce
  have "ms_request m x = None"
    using t g honest_pool_Get(2) [OF Cons.prems(2) g]
    by (auto simp: rpc_task_def over_network_def split: sum.splits option.splits prod.splits)
  moreover have "honest_pool p1" using dialled_task(2) [OF t Cons.prems(2)] .
  ultimately show ?case using Cons.IH [OF rest] Cons.prems(3) by auto
qed simp

lemma Lock_reached:
  assumes "Lock c (mesh_env m) svc clk order me ns sel (s, (pl, w)) = (Ok (), s', (pl', w'))" "honest_pool pl"
    and "set order = set (ls_remoteEndpoints svc)" "e \<in> set order"
  shows "ms_request m e = None"
proof -
  have False: "ls_remoteEndpoints svc \<noteq> []" using assms(3,4) by auto
  then have r: "remoteLock (mesh_env m) svc order me ns sel (pl, w) = (Ok (), (pl', w'))" using assms(1) by (simp add: Lock_Ok)
  obtain results where "all_tasks (rpc_task (re_dial (mesh_env m)) (\<lambda>cli. re_Lock (mesh_env m) cli
       \<lparr>lrq_leaseHolderIdentity = me, lrq_namespace = ns,
        lrq_labelSelector = Some (ConvertLabelSelectorToState sel)\<rparr>)) order (pl, w) results (pl', w')"
    using remoteLock_tasks [OF r False] by metis
  then show ?thesis
    using tasks_reached [where h = "\<lambda>e. stateServer_Lock (cl_client (ms_cluster m e)) (cl_lock (ms_cluster m e))
      (cl_clk (ms_cluster m e)) \<lparr>lrq_leaseHolderIdentity = me, lrq_namespace = ns,
        lrq_labelSelector = Some (ConvertLabelSelectorToState sel)\<rparr>", OF _ assms(2,4)]
    by (simp add: mesh_env_def)
qed

text \<open>A lease of the caller, in a cluster whose API server answers.\<close>

definition held_by :: "('s \<Rightarrow> object_key \<Rightarrow> lease option) \<Rightarrow> object_key \<Rightarrow> string \<Rightarrow> 's \<Rightarrow> bool" where
  "held_by stored k me s \<longleftrightarrow> (\<exists>l. stored s k = Some l \<and> lease_holderIdentity l = Some me)"

lemma LocalLock_held:
  assumes "lease_store c stored valid" "valid s" "LocalLock c svc clk me ns sel s = (Ok (), s')"
  shows "held_by stored (lock_key svc ns sel) me s' \<and> valid s'"
proof -
  obtain n0 n1 n2 where clk: "clk = (n0, n1, n2)" by (metis surj_pair)
  then show ?thesis unfolding held_by_def
    using lease_store.LocalLock_acquired [OF assms(1) _ assms(2)] lease_store.LocalLock_wf_frame [OF assms(1) _ assms(2)]
      assms(3) by metis
qed

lemma Unlock_everywhere:
  assumes served: "served_store c stored valid" "valid s" "held_by stored (lock_key svc ns sel) me s"
    and un: "Unlock c (mesh_env m) svc now order me ns sel (s, (pl, w)) = (r, s', (pl', w'))"
    and order: "dialled pl order" "distinct order" "set order = set (ls_remoteEndpoints svc)"
    and e: "e \<in> set order" "\<forall>e\<in>set order. ms_request m e = None"
    and remote: "served_store (cl_client (ms_cluster m e)) stored valid" "valid (w e)"
      "held_by stored (lock_key (cl_lock (ms_cluster m e)) ns sel) me (w e)"
  shows "stored (w' e) (lock_key (cl_lock (ms_cluster m e)) ns sel) = None"
proof -
  obtain r0 s1 where l: "LocalUnlock c svc now me ns sel s = (r0, s1)" by fastforce
  have ok: "r0 = Ok ()" using served_store.LocalUnlock_frees [OF served(1,2) _ _ l] served(3) by (auto simp: held_by_def)
  have ne: "ls_remoteEndpoints svc \<noteq> []" using order(3) e(1) by auto
  obtain r1 where r1: "remoteUnlock (mesh_env m) svc order me ns sel (pl, w) = (r1, (pl', w'))"
    using un l ok ne by (auto simp: Unlock_def split: go.splits prod.splits)
  have w': "w' e = snd (LocalUnlock (cl_client (ms_cluster m e)) (cl_lock (ms_cluster m e)) (cl_now (ms_cluster m e))
      me ns sel (w e))" using remoteUnlock_everywhere [OF r1 order(1,2) e(2,1) ne] .
  obtain r2 s2 where "LocalUnlock (cl_client (ms_cluster m e)) (cl_lock (ms_cluster m e)) (cl_now (ms_cluster m e))
      me ns sel (w e) = (r2, s2)" by fastforce
  then show ?thesis using served_store.LocalUnlock_frees [OF remote(1,2)] remote(3) w' by (auto simp: held_by_def)
qed

section \<open>Calls that may fail\<close>

text \<open>The configuration of an installation: both services call the same, distinct endpoints.\<close>

definition configured :: "webhook \<Rightarrow> inputs \<Rightarrow> string list \<Rightarrow> bool" where
  "configured h inp eps \<longleftrightarrow>
     distinct eps \<and> ls_remoteEndpoints (wh_lock h) = eps \<and> ps_remoteEndpoints (wh_pdb h) = eps \<and>
     mset (in_lockOrder inp) = mset eps \<and> mset (in_stateOrder inp) = mset eps"

lemma configured_orders:
  assumes "configured h inp eps"
  shows "distinct (in_lockOrder inp)" "set (in_lockOrder inp) = set eps"
    "distinct (in_stateOrder inp)" "set (in_stateOrder inp) = set eps"
  using assms mset_eq_imp_distinct_iff mset_eq_setD unfolding configured_def by blast+

text \<open>A pool of calls over the mesh, whatever comes back: every cluster is as before, or its handler has run once.\<close>

lemma mesh_run:
  assumes "pool_run (rpc_task (re_dial (mesh_env m)) (\<lambda>cli. over_network m cli (f cli))) order (pl, w) = (er, (pl', w'))"
    and "honest_pool pl" "distinct order"
  shows "honest_pool pl' \<and> (\<forall>e. w' e = w e \<or> e \<in> set order \<and> w' e = snd (f e (w e)))"
  using assms
proof (induction order arbitrary: pl w er)
  case (Cons e es)
  let ?t = "rpc_task (re_dial (mesh_env m)) (\<lambda>cli. over_network m cli (f cli))"
  obtain r pl1 w1 where t: "?t e (pl, w) = (r, (pl1, w1))" by (metis surj_pair)
  obtain er1 where rest: "pool_run ?t es (pl1, w1) = (er1, (pl', w'))"
    using Cons.prems(1) t by (cases r) (auto split: prod.splits)
  note t' = mesh_task [OF Cons.prems(2) t]
  have ih: "honest_pool pl'" "\<And>e'. w' e' = w1 e' \<or> e' \<in> set es \<and> w' e' = snd (f e' (w1 e'))"
    using Cons.IH [OF rest t'(1)] Cons.prems(3) by simp_all
  have "w1 e = w e \<or> w1 e = snd (f e (w e))"
    using t honest_pool_Get(2) [OF Cons.prems(2)]
    by (auto simp: rpc_task_def over_network_def split: sum.splits option.splits prod.splits)
  then have "w' e' = w e' \<or> e' \<in> set (e # es) \<and> w' e' = snd (f e' (w e'))" for e'
    using ih(2) [of e'] t'(2) [of e'] Cons.prems(3) by (cases "e' = e") auto
  then show ?case using ih(1) by blast
qed simp

lemma remoteLock_run:
  assumes "remoteLock (mesh_env m) svc order me ns sel (pl, w) = (r, (pl', w'))" "honest_pool pl" "distinct order"
  shows "honest_pool pl' \<and> (\<forall>e. w' e = w e \<or> e \<in> set order \<and>
    w' e = snd (LocalLock (cl_client (ms_cluster m e)) (cl_lock (ms_cluster m e)) (cl_clk (ms_cluster m e)) me ns sel (w e)))"
proof (cases "ls_remoteEndpoints svc = []")
  case True
  then show ?thesis using assms(1,2) by (simp add: remoteLock_def)
next
  case False
  let ?req = "\<lparr>lrq_leaseHolderIdentity = me, lrq_namespace = ns,
      lrq_labelSelector = Some (ConvertLabelSelectorToState sel)\<rparr>"
  let ?f = "\<lambda>e. stateServer_Lock (cl_client (ms_cluster m e)) (cl_lock (ms_cluster m e)) (cl_clk (ms_cluster m e)) ?req"
  obtain er where "pool_run (rpc_task (re_dial (mesh_env m)) (\<lambda>cli. re_Lock (mesh_env m) cli ?req)) order (pl, w)
      = (er, (pl', w'))"
    using assms(1) False by (auto simp: remoteLock_def Let_def split: prod.splits sum.splits if_splits)
  then have "pool_run (rpc_task (re_dial (mesh_env m)) (\<lambda>cli. over_network m cli (?f cli))) order (pl, w) = (er, (pl', w'))"
    by (simp add: mesh_env_def)
  from mesh_run [OF this assms(2,3)] have "honest_pool pl' \<and> (\<forall>e. w' e = w e \<or> e \<in> set order \<and> w' e = snd (?f e (w e)))" .
  moreover have "snd (?f e s) = snd (LocalLock (cl_client (ms_cluster m e)) (cl_lock (ms_cluster m e))
      (cl_clk (ms_cluster m e)) me ns sel s)" for e s
    unfolding stateServer_Lock_converted by (auto split: prod.splits go.splits)
  ultimately show ?thesis by simp
qed

lemma remoteUnlock_run:
  assumes "remoteUnlock (mesh_env m) svc order me ns sel (pl, w) = (r, (pl', w'))" "honest_pool pl" "distinct order"
  shows "\<forall>e. w' e = w e \<or> e \<in> set order \<and>
    w' e = snd (LocalUnlock (cl_client (ms_cluster m e)) (cl_lock (ms_cluster m e)) (cl_now (ms_cluster m e)) me ns sel (w e))"
proof (cases "ls_remoteEndpoints svc = []")
  case True
  then show ?thesis using assms(1,2) by (simp add: remoteUnlock_def)
next
  case False
  let ?req = "\<lparr>urq_leaseHolderIdentity = me, urq_namespace = ns,
      urq_labelSelector = Some (ConvertLabelSelectorToState sel)\<rparr>"
  let ?f = "\<lambda>e. stateServer_Unlock (cl_client (ms_cluster m e)) (cl_lock (ms_cluster m e)) (cl_now (ms_cluster m e)) ?req"
  obtain er where "pool_run (rpc_task (re_dial (mesh_env m)) (\<lambda>cli. re_Unlock (mesh_env m) cli ?req)) order (pl, w)
      = (er, (pl', w'))"
    using assms(1) False by (auto simp: remoteUnlock_def Let_def split: prod.splits sum.splits if_splits)
  then have "pool_run (rpc_task (re_dial (mesh_env m)) (\<lambda>cli. over_network m cli (?f cli))) order (pl, w) = (er, (pl', w'))"
    by (simp add: mesh_env_def)
  from mesh_run [OF this assms(2,3)] have "\<forall>e. w' e = w e \<or> e \<in> set order \<and> w' e = snd (?f e (w e))" by blast
  moreover have "snd (?f e s) = snd (LocalUnlock (cl_client (ms_cluster m e)) (cl_lock (ms_cluster m e))
      (cl_now (ms_cluster m e)) me ns sel s)" for e s
    unfolding stateServer_Unlock_converted by (auto split: prod.splits go.splits)
  ultimately show ?thesis by simp
qed

end
