(* ===== verification/Panic_Freedom.thy ===== *)
theory Panic_Freedom
  imports Mesh_Release
begin

text \<open>
  Where the program could crash. The code dereferences pointers of objects it has read: the times and the
  holder of a lease (\<^verbatim>\<open>internal/lock/service.go\<close>), the replicas of a workload (\<^verbatim>\<open>internal/pdb/scale.go\<close>). The
  API server fills in the replicas, and the program itself writes all fields of its leases; under these two
  conditions no request panics. A panic in the handler of another cluster is turned into an error there.
\<close>

section \<open>The scale finder\<close>

definition replicas_set :: "scale_api \<Rightarrow> bool" where
  "replicas_set api \<longleftrightarrow>
     (\<forall>get\<in>{sa_ReplicaSet api, sa_StatefulSet api, sa_Deployment api, sa_ReplicationController api}.
        \<forall>ns n w. get ns n = Inr w \<longrightarrow> wl_replicas w \<noteq> None)"

lemma replicas_of_Panic: "replicas_of w = Panic \<longleftrightarrow> wl_replicas w = None"
  by (cases "wl_replicas w") (auto simp: replicas_of_def)

lemma finders_no_panic:
  assumes "replicas_set api" "f \<in> set (finders api)"
  shows "f ref ns \<noteq> Panic"
proof -
  note ok = assms(1) [unfolded replicas_set_def]
  have "getPodReplicationController api ref ns \<noteq> Panic"
    using ok by (auto simp: getPodReplicationController_def replicas_of_Panic split: sum.splits bool.splits)
  moreover have "getPodDeployment api ref ns \<noteq> Panic"
    using ok by (auto simp: getPodDeployment_def replicas_of_Panic split: sum.splits bool.splits option.splits)
  moreover have "getPodReplicaSet api ref ns \<noteq> Panic"
    using ok by (auto simp: getPodReplicaSet_def replicas_of_Panic split: sum.splits bool.splits option.splits)
  moreover have "getPodStatefulSet api ref ns \<noteq> Panic"
    using ok by (auto simp: getPodStatefulSet_def replicas_of_Panic split: sum.splits bool.splits)
  moreover have "getScaleController api ref ns \<noteq> Panic"
    by (auto simp: getScaleController_def split: sum.splits nested_int64.splits)
  ultimately show ?thesis using assms(2) by (auto simp: finders_def)
qed

lemma first_controller_no_panic:
  assumes "replicas_set api" "set fs \<subseteq> set (finders api)"
  shows "first_controller fs ref ns \<noteq> Panic"
  using assms(2) by (induction fs) (auto dest: finders_no_panic [OF assms(1), of _ ref ns] split: go.splits option.splits)

lemma collect_scales_no_panic:
  assumes "replicas_set api"
  shows "collect_scales api ps m un \<noteq> Panic"
  using first_controller_no_panic [OF assms, of "finders api"]
  by (induction ps arbitrary: m un) (auto split: option.splits go.splits)

lemma GetPodCounts_no_panic:
  assumes "replicas_set (rd_scale (ps_reader svc))"
  shows "GetPodCounts svc ns sel \<noteq> Panic"
proof -
  have "FindExpectedScale (rd_scale (ps_reader svc)) pods \<noteq> Panic" for pods
    using collect_scales_no_panic [OF assms, of pods "[]" "[]"]
    by (cases "collect_scales (rd_scale (ps_reader svc)) pods [] []") (auto simp: FindExpectedScale_def)
  then show ?thesis by (auto simp: GetPodCounts_def split: sum.splits go.splits prod.splits)
qed

lemma CanPodBeDisrupted_no_panic:
  assumes "replicas_set (rd_scale (ps_reader svc))"
  shows "fst (CanPodBeDisrupted f2i env svc order p x rs) \<noteq> Panic"
proof -
  have "fst (getRemotePodCounts env svc order ns ls rs) \<noteq> Panic" for ns ls
    by (auto simp: getRemotePodCounts_def split: prod.splits sum.splits)
  moreover have "of_sum v \<noteq> Panic" for v :: "go_err + bool" by (cases v) auto
  ultimately show ?thesis
    using GetPodCounts_no_panic [OF assms]
    by (auto simp: CanPodBeDisrupted_def Let_def split: go.splits prod.splits) (metis fst_conv)+
qed


section \<open>The lock\<close>

definition complete_leases :: "('s \<Rightarrow> object_key \<Rightarrow> lease option) \<Rightarrow> 's \<Rightarrow> bool" where
  "complete_leases stored s \<longleftrightarrow> (\<forall>k l. stored s k = Some l \<longrightarrow> complete_lease l)"

context lease_store
begin

lemma LocalLock_no_panic:
  assumes "LocalLock c svc clk me ns sel s = (r, s')" "wf s" "complete_leases stored s"
  shows "r \<noteq> Panic"
proof -
  obtain n0 n1 n2 where "clk = (n0, n1, n2)" by (metis surj_pair)
  with assms(1) have call: "LocalLock c svc (n0, n1, n2) me ns sel s = (r, s')" by simp
  show ?thesis using call
  proof (cases rule: LocalLock_cases)
    case (incomplete e seen)
    have "wf s'" "stored s' = stored s"
      using wf_create [OF assms(2)] create_exists [OF assms(2)] incomplete(1,2) by (metis snd_conv, blast)
    then have "complete_lease seen" using get_ok incomplete(3) assms(3) by (metis complete_leases_def)
    then show ?thesis using incomplete(4) by blast
  qed simp_all
qed

lemma LocalUnlock_no_panic:
  assumes "LocalUnlock c svc now me ns sel s = (r, s')" "wf s"
    and "\<And>l. stored s (lock_key svc ns sel) = Some l \<Longrightarrow> lease_holderIdentity l \<noteq> None"
  shows "r \<noteq> Panic"
  using assms(1)
proof (cases rule: LocalUnlock_cases)
  case (incomplete l)
  then show ?thesis using get_ok [OF assms(2)] assms(3) by blast
qed (auto split: option.splits)

end

lemma remote_no_panic:
  "fst (remoteLock env svc order me ns sel rs) \<noteq> Panic" "fst (remoteUnlock env svc order me ns sel rs) \<noteq> Panic"
  by (auto simp: remoteLock_def remoteUnlock_def Let_def split: prod.splits sum.splits)

lemma Lock_no_panic:
  assumes "LocalLock c svc clk me ns sel s = (r0, s0)" "r0 \<noteq> Panic"
  shows "fst (Lock c env svc clk order me ns sel (s, rs)) \<noteq> Panic"
  using assms remote_no_panic(1) [of env svc order me ns sel rs]
  by (auto simp: Lock_def split: go.splits prod.splits)

lemma Unlock_no_panic:
  assumes "LocalUnlock c svc now me ns sel s = (r0, s0)" "r0 \<noteq> Panic"
  shows "fst (Unlock c env svc now order me ns sel (s, rs)) \<noteq> Panic"
  using assms remote_no_panic(2) [of env svc order me ns sel rs]
  by (auto simp: Unlock_def split: go.splits prod.splits)


section \<open>The handler\<close>

lemma respond_after_no_panic: "fst released \<noteq> Panic \<Longrightarrow> fst (respond_after released resp) \<noteq> Panic"
  by (cases released; cases "fst released") (auto simp: respond_after_def)

lemma handleError_no_panic:
  assumes "\<And>x. xp = Some x \<Longrightarrow> fst (release env h inp me x st) \<noteq> Panic"
  shows "fst (handleError env h inp xp d e me st) \<noteq> Panic"
  using assms by (cases xp) (auto simp: handleError_def dest: respond_after_no_panic)

lemma release_state: "st_leases st' = st_leases st \<Longrightarrow> st_remote st' = st_remote st \<Longrightarrow>
    fst (release env h inp me x st') = fst (release env h inp me x st)"
  by (simp add: release_def split: prod.splits)

lemma handleNotAllowed_no_panic:
  assumes "\<And>x. xp = Some x \<Longrightarrow> fst (release env h inp me x st) \<noteq> Panic"
  shows "fst (handleNotAllowedDisruption env h inp req xp p me msg st) \<noteq> Panic"
proof (cases xp)
  case (Some x)
  let ?st2 = "observe (ObserveEvictionRejected (xpdb_namespace x) (rq_resource req) (rq_subResource req) (rq_operation req))
    (Eventf \<lparr>ev_object = XPdbObject (xpdb_namespace x) (xpdb_name x), ev_type = ''Normal'',
      ev_reason = XPDBEventReasonBlocked, ev_message = ''attempted eviction of '' @ pod_name p\<rparr> st)"
  have "fst (release env h inp me x ?st2) \<noteq> Panic"
    using assms [OF Some] release_state [of ?st2 st] by (simp add: observe_def Eventf_def)
  from respond_after_no_panic [OF this] show ?thesis using Some by (simp add: handleNotAllowedDisruption_def Let_def)
qed (simp add: handleNotAllowedDisruption_def)

lemma no_budget_no_panic:
  "fst (handleError env h inp None d e me st) \<noteq> Panic" "fst (handleNotAllowedDisruption env h inp req None p me msg st) \<noteq> Panic"
  by (simp_all add: handleError_def handleNotAllowedDisruption_def)

lemma accept_no_panic: "fst (accept h p x st) \<noteq> Panic"
  by (simp add: accept_def)

text \<open>The stages under the lock: the lease names a holder, so the release does not panic.\<close>

lemma release_no_panic:
  assumes "lease_store (we_leases env) stored valid" "valid (st_leases st)"
    and "held_by stored (lock_key (wh_lock h) (xpdb_namespace x) (spec_selector (xpdb_spec x))) me (st_leases st)"
  shows "fst (release env h inp me x st) \<noteq> Panic"
proof -
  obtain r0 s0 where u: "LocalUnlock (we_leases env) (wh_lock h) (in_unlockNow inp) me (xpdb_namespace x)
      (spec_selector (xpdb_spec x)) (st_leases st) = (r0, s0)" by fastforce
  have "r0 \<noteq> Panic" using lease_store.LocalUnlock_no_panic [OF assms(1) u assms(2)] assms(3) by (auto simp: held_by_def)
  from Unlock_no_panic [OF u this, of "we_rpc env" "in_unlockOrder inp" "st_remote st"] show ?thesis
    by (auto simp: release_def split: prod.splits)
qed

lemma handle_probe_no_panic:
  assumes "\<And>ps. fst (release env h inp me x (st\<lparr>st_probe := ps\<rparr>)) \<noteq> Panic"
  shows "fst (handle_probe env h inp req p x me st) \<noteq> Panic"
  using assms
  by (auto simp: handle_probe_def Let_def accept_no_panic intro!: handleError_no_panic [simplified] handleNotAllowed_no_panic
      split: prod.splits sum.splits)

lemma handle_budget_no_panic:
  assumes "lease_store (we_leases env) stored valid" "valid (st_leases st)" "replicas_set (rd_scale (ps_reader (wh_pdb h)))"
    and "held_by stored (lock_key (wh_lock h) (xpdb_namespace x) (spec_selector (xpdb_spec x))) me (st_leases st)"
  shows "fst (handle_budget env h inp req p x me st) \<noteq> Panic"
proof -
  have rel: "fst (release env h inp me x (st\<lparr>st_remote := rs, st_probe := ps\<rparr>)) \<noteq> Panic" for rs ps
    by (rule release_no_panic [OF assms(1)]) (use assms(2,4) in simp_all)
  have rel': "fst (release env h inp me x (st\<lparr>st_remote := rs\<rparr>)) \<noteq> Panic" for rs
    by (rule release_no_panic [OF assms(1)]) (use assms(2,4) in simp_all)
  obtain b rs where c: "CanPodBeDisrupted (we_f2i env) (we_rpc env) (wh_pdb h) (in_stateOrder inp) p x (st_remote st)
      = (b, rs)" by (metis surj_pair)
  have "b \<noteq> Panic" using CanPodBeDisrupted_no_panic [OF assms(3)] c by (metis fst_conv)
  then show ?thesis
    using c handleError_no_panic [of "Some x", simplified, OF rel'] handleNotAllowed_no_panic [of "Some x", simplified, OF rel']
      handle_probe_no_panic [of env h inp me x "st\<lparr>st_remote := rs\<rparr>", simplified, OF rel]
    by (cases b) (simp_all add: handle_budget_def Let_def)
qed

lemma handle_xpdb_no_panic:
  assumes "lease_store (we_leases env) stored valid" "valid (st_leases st)" "complete_leases stored (st_leases st)"
    and "replicas_set (rd_scale (ps_reader (wh_pdb h)))"
  shows "fst (handle_xpdb env h inp req p x st) \<noteq> Panic"
proof (cases "spec_suspend (xpdb_spec x) = Some True")
  case False
  let ?me = "lock_identity h inp p" and ?sel = "spec_selector (xpdb_spec x)" and ?ns = "xpdb_namespace x"
  obtain r0 s0 where l: "LocalLock (we_leases env) (wh_lock h) (in_lockClk inp) ?me ?ns ?sel (st_leases st) = (r0, s0)"
    by fastforce
  have np: "r0 \<noteq> Panic" using lease_store.LocalLock_no_panic [OF assms(1) l assms(2,3)] .
  obtain r s1 rs1 where lock: "Lock (we_leases env) (we_rpc env) (wh_lock h) (in_lockClk inp) (in_lockOrder inp) ?me ?ns ?sel
      (st_leases st, st_remote st) = (r, s1, rs1)" by (metis surj_pair)
  have "r \<noteq> Panic" using Lock_no_panic [OF l np, of "we_rpc env" "in_lockOrder inp" "st_remote st"] lock by simp
  moreover have "fst (handle_budget env h inp req p x ?me (st\<lparr>st_leases := s1, st_remote := rs1\<rparr>)) \<noteq> Panic" if "r = Ok ()"
  proof -
    have "LocalLock (we_leases env) (wh_lock h) (in_lockClk inp) ?me ?ns ?sel (st_leases st) = (Ok (), s1)"
      using lock that by (simp add: Lock_Ok)
    from LocalLock_held [OF assms(1,2) this] show ?thesis
      using handle_budget_no_panic [OF assms(1) _ assms(4), of "st\<lparr>st_leases := s1, st_remote := rs1\<rparr>"] by simp
  qed
  ultimately show ?thesis using False lock by (cases r) (simp_all add: handle_xpdb_def Let_def)
qed (simp add: handle_xpdb_def)

lemma Handle_no_panic:
  assumes "lease_store (we_leases env) stored valid" "valid (st_leases st)" "complete_leases stored (st_leases st)"
    and "replicas_set (rd_scale (ps_reader (wh_pdb h)))"
  shows "fst (Handle env h inp req st) \<noteq> Panic"
proof -
  have xpdbs: "fst (handle_xpdbs env h inp req p st1) \<noteq> Panic" if "st_leases st1 = st_leases st" for p st1
  proof -
    have "fst (handle_xpdb env h inp req p x st1) \<noteq> Panic" for x
      by (rule handle_xpdb_no_panic [OF assms(1)]) (use assms(2-4) that in simp_all)
    then show ?thesis by (auto simp: handle_xpdbs_def split: sum.splits list.splits)
  qed
  then show ?thesis
    by (auto simp: Handle_def Let_def no_budget_no_panic split: sum.splits prod.splits)
qed


section \<open>Properties\<close>

text \<open>
  C8. The webhook does not crash and always answers: when every lease in the store of the local cluster
  has its times and its holder, and every workload that is read has its replicas, the handling of a
  request ends with a response, whatever the request, the other clusters, the probe and the API server
  (errors and lost replies included) answer.
\<close>

theorem handler_always_answers:
  assumes "lease_store (we_leases env) stored valid" "valid (st_leases st)" "complete_leases stored (st_leases st)"
    and "replicas_set (rd_scale (ps_reader (wh_pdb h)))"
  shows "\<exists>resp st'. Handle env h inp req st = (Ok resp, st')"
proof -
  obtain r st' where h: "Handle env h inp req st = (r, st')" by fastforce
  have "r \<noteq> Panic" using Handle_no_panic [OF assms, of inp req] h by simp
  moreover have "r \<noteq> Err e" for e using built_Handle [of h env inp req st] h by (auto simp: built_outcome_def)
  ultimately show ?thesis using h by (cases r) auto
qed

theorem handler_always_answers_witness:
  "\<exists>resp st'. Handle (sample_env ''False'') (sample_webhook True) sample_inputs
     (sample_request\<lparr>rq_name := ''db-1''\<rparr>) sample_state = (Ok resp, st')"
proof (rule handler_always_answers)
  show "lease_store (we_leases (sample_env ''False'')) fake_stored fake_wf"
    using fake.lease_store_axioms by (simp add: sample_env_def)
  show "complete_leases fake_stored (st_leases sample_state)"
    by (simp add: complete_leases_def sample_state_def fake_stored_def)
  show "replicas_set (rd_scale (ps_reader (wh_pdb (sample_webhook True))))"
    by (auto simp: replicas_set_def sample_webhook_def sample_pdb_def sample_reader_def fake_reader_def sample_scale_def
        sample_workload_def)
qed (simp add: sample_state_def)

end
