(* ===== verification/Controller_Main.thy ===== *)
theory Controller_Main
  imports Webhook
begin

text \<open>
  \<^verbatim>\<open>cmd/controller/main.go\<close>: the flags, the list of remote endpoints and the wiring of the services.
  Connecting to Kubernetes, the manager and its servers are parameters that may fail.
\<close>

section \<open>The remote endpoints\<close>

fun sanitize_endpoints :: "string list \<Rightarrow> string list \<times> go_err list" where
  "sanitize_endpoints [] = ([], [])"
| "sanitize_endpoints (ep # eps) =
     (case sanitize_endpoints eps of (endpoints, errs) \<Rightarrow>
      (let sanitizedEndpoint = TrimSpace ep
       in if sanitizedEndpoint = [] then (endpoints, EMsg ''endpoint cannot be empty'' # errs)
          else (sanitizedEndpoint # endpoints, errs)))"

text \<open>\<^verbatim>\<open>errors.Join\<close>: nil when there is no error.\<close>

definition errors_Join :: "go_err list \<Rightarrow> go_err option" where
  "errors_Join errs = (if errs = [] then None else Some (EJoin errs))"

definition parseEndpoints :: "string \<Rightarrow> string list \<times> go_err option" where
  "parseEndpoints endpointString =
     (let splitEndpoints = split_on CHR '','' endpointString
      in if length splitEndpoints = 1 \<and> splitEndpoints ! 0 = [] then ([], None)
         else (case sanitize_endpoints splitEndpoints of (endpoints, errs) \<Rightarrow> (endpoints, errors_Join errs)))"

lemma sanitize_endpoints_eq:
  "sanitize_endpoints eps =
     (filter (\<lambda>e. e \<noteq> []) (map TrimSpace eps),
      replicate (length (filter (\<lambda>e. TrimSpace e = []) eps)) (EMsg ''endpoint cannot be empty''))"
  by (induction eps) (simp_all add: Let_def)

lemma split_on_single_Nil: "split_on c s = [[]] \<longleftrightarrow> s = []"
  by (cases s) (auto split: list.splits)

lemma single_Nil: "length xs = 1 \<and> xs ! 0 = [] \<longleftrightarrow> xs = [[]]"
  by (cases xs) auto

lemma parseEndpoints_None:
  "parseEndpoints s = (eps, None) \<longleftrightarrow>
     s = [] \<and> eps = [] \<or>
     s \<noteq> [] \<and> eps = map TrimSpace (split_on CHR '','' s) \<and>
       (\<forall>e\<in>set (split_on CHR '','' s). TrimSpace e \<noteq> [])"
proof (cases "s = []")
  case True
  then show ?thesis by (auto simp: parseEndpoints_def)
next
  case False
  then have "\<not> (length (split_on CHR '','' s) = 1 \<and> split_on CHR '','' s ! 0 = [])"
    unfolding single_Nil split_on_single_Nil .
  moreover have "replicate n x = [] \<longleftrightarrow> n = 0" for n and x :: go_err by (cases n) auto
  ultimately show ?thesis using False
    by (auto simp: parseEndpoints_def Let_def sanitize_endpoints_eq errors_Join_def filter_empty_conv
        filter_id_conv split: if_splits)
qed


section \<open>Starting the program\<close>

record flags =
  fl_metricsAddr :: string
  fl_probeAddr :: string
  fl_webhookCertsDir :: string
  fl_webhookPort :: nat
  fl_controllerCertsDir :: string
  fl_controllerPort :: nat
  fl_remoteEndpoints :: string
  fl_leaseNamespace :: string
  fl_podID :: string
  fl_clusterID :: string
  fl_kubeContext :: string
  fl_dryRun :: bool

text \<open>The values of flags that are not given; the pod ID is the host name.\<close>

definition default_flags :: "string \<Rightarrow> flags" where
  "default_flags hostname =
     \<lparr>fl_metricsAddr = '':8080'', fl_probeAddr = '':8081'', fl_webhookCertsDir = [], fl_webhookPort = 9443,
      fl_controllerCertsDir = [], fl_controllerPort = 9643, fl_remoteEndpoints = [],
      fl_leaseNamespace = ''kube-system'', fl_podID = hostname, fl_clusterID = ''no-id-set'', fl_kubeContext = [],
      fl_dryRun = False\<rparr>"

text \<open>The steps that depend on the environment, and the reader of the manager.\<close>

record setup_env =
  su_getConfig :: "string \<Rightarrow> go_err option"
  su_newManager :: "string \<Rightarrow> string \<Rightarrow> go_err option"
  su_newForConfig :: "go_err option"
  su_addHookServer :: "nat \<Rightarrow> string \<Rightarrow> go_err option"
  su_addStateServer :: "nat \<Rightarrow> string \<Rightarrow> go_err option"
  su_addHealthz :: "go_err option"
  su_addReadyz :: "go_err option"
  su_start :: "go_err option"
  su_reader :: reader

text \<open>What runs: the webhook and the state server with their services, and the directory of the certificates.\<close>

record installation =
  inst_webhook :: webhook
  inst_serverLock :: lock_service
  inst_serverPdb :: pdb_service
  inst_certsDir :: string

text \<open>
  \<^verbatim>\<open>main\<close>: the message and the error of the step that ends the program with status 1, if any, and the
  installation that was started.
\<close>

definition main ::
    "setup_env \<Rightarrow> flags \<Rightarrow> (string \<times> go_err) option \<times> installation option" where
  "main env fl =
     (case su_getConfig env (fl_kubeContext fl) of
        Some e \<Rightarrow> (Some (''unable to get kubernetes config'', e), None)
      | None \<Rightarrow>
     (case su_newManager env (fl_metricsAddr fl) (fl_probeAddr fl) of
        Some e \<Rightarrow> (Some (''unable to start manager'', e), None)
      | None \<Rightarrow>
     (case su_newForConfig env of
        Some e \<Rightarrow> (Some (''unable to create kubernetes client'', e), None)
      | None \<Rightarrow>
     (case parseEndpoints (fl_remoteEndpoints fl) of
        (_, Some e) \<Rightarrow> (Some (''unable to parse remote endpoints'', e), None)
      | (remoteEndpointsList, None) \<Rightarrow>
          (let lockService = \<lparr>ls_leaseNamespace = fl_leaseNamespace fl, ls_remoteEndpoints = remoteEndpointsList\<rparr>;
               pdbService = \<lparr>ps_reader = su_reader env, ps_remoteEndpoints = remoteEndpointsList\<rparr>;
               podValidationWebhook =
                 \<lparr>wh_pdb = pdbService, wh_lock = lockService, wh_clusterID = fl_clusterID fl, wh_podID = fl_podID fl,
                  wh_dryRun = fl_dryRun fl\<rparr>
           in case su_addHookServer env (fl_webhookPort fl) (fl_webhookCertsDir fl) of
                Some e \<Rightarrow> (Some (''unable to create pod mutator webhook server'', e), None)
              | None \<Rightarrow>
             (case su_addStateServer env (fl_controllerPort fl) (fl_controllerCertsDir fl) of
                Some e \<Rightarrow> (Some (''unable to create state server'', e), None)
              | None \<Rightarrow>
             (case su_addHealthz env of
                Some e \<Rightarrow> (Some (''unable to set up health check'', e), None)
              | None \<Rightarrow>
             (case su_addReadyz env of
                Some e \<Rightarrow> (Some (''unable to set up ready check'', e), None)
              | None \<Rightarrow>
                  (map_option (\<lambda>e. (''problem running manager'', e)) (su_start env),
                   Some \<lparr>inst_webhook = podValidationWebhook, inst_serverLock = lockService,
                         inst_serverPdb = pdbService, inst_certsDir = fl_controllerCertsDir fl\<rparr>)))))))))"

section \<open>Properties\<close>

text \<open>
  A list of endpoints survives the flag: joining endpoints with commas and parsing the result
  gives the endpoints back, in order and without error, when no endpoint is empty, contains a comma or
  begins or ends with white space.
\<close>

theorem endpoints_round_trip:
  assumes "\<forall>e\<in>set eps. e \<noteq> [] \<and> CHR '','' \<notin> set e \<and> TrimSpace e = e"
  shows "parseEndpoints (join_with '','' eps) = (eps, None)"
proof (cases "eps = []")
  case False
  then have split: "split_on CHR '','' (join_with '','' eps) = eps" using assms by (intro split_join) auto
  have "join_with '','' eps \<noteq> []"
  proof
    assume "join_with '','' eps = []"
    with split have "eps = [[]]" by simp
    with assms show False by simp
  qed
  moreover have "map TrimSpace eps = eps" using assms by (simp add: map_idI)
  ultimately show ?thesis using assms split by (simp add: parseEndpoints_None)
qed (simp add: parseEndpoints_def)

theorem endpoints_round_trip_witness:
  "parseEndpoints (join_with '','' [''b:9643'', ''c:9643'']) = ([''b:9643'', ''c:9643''], None)"
proof (rule endpoints_round_trip)
  have "TrimSpace ''b:9643'' = ''b:9643''" "TrimSpace ''c:9643'' = ''c:9643''" by code_simp+
  then show "\<forall>e\<in>set [''b:9643'', ''c:9643'']. e \<noteq> [] \<and> CHR '','' \<notin> set e \<and> TrimSpace e = e" by simp
qed

text \<open>
  What starts is wired consistently: whenever the manager is started, the lock service and the
  budget service of the webhook and of the state server are the same and call the same endpoints, the
  ones of the flag, none of them empty; the lease namespace, the identity parts and the dry-run mode
  are those of the flags.
\<close>

theorem started_services_agree:
  assumes "main env fl = (r, Some inst)"
  shows "parseEndpoints (fl_remoteEndpoints fl) = (ls_remoteEndpoints (inst_serverLock inst), None) \<and>
     (\<forall>e\<in>set (ls_remoteEndpoints (inst_serverLock inst)). e \<noteq> []) \<and>
     ps_remoteEndpoints (inst_serverPdb inst) = ls_remoteEndpoints (inst_serverLock inst) \<and>
     wh_lock (inst_webhook inst) = inst_serverLock inst \<and> wh_pdb (inst_webhook inst) = inst_serverPdb inst \<and>
     ls_leaseNamespace (inst_serverLock inst) = fl_leaseNamespace fl \<and>
     wh_clusterID (inst_webhook inst) = fl_clusterID fl \<and> wh_podID (inst_webhook inst) = fl_podID fl \<and>
     wh_dryRun (inst_webhook inst) = fl_dryRun fl"
proof -
  obtain eps e where p: "parseEndpoints (fl_remoteEndpoints fl) = (eps, e)" by fastforce
  have m: "e = None \<and> inst_serverLock inst = \<lparr>ls_leaseNamespace = fl_leaseNamespace fl, ls_remoteEndpoints = eps\<rparr> \<and>
      inst_serverPdb inst = \<lparr>ps_reader = su_reader env, ps_remoteEndpoints = eps\<rparr> \<and>
      inst_webhook inst = \<lparr>wh_pdb = inst_serverPdb inst, wh_lock = inst_serverLock inst,
        wh_clusterID = fl_clusterID fl, wh_podID = fl_podID fl, wh_dryRun = fl_dryRun fl\<rparr>"
    using assms unfolding main_def Let_def p by (auto split: option.splits)
  then have "parseEndpoints (fl_remoteEndpoints fl) = (eps, None)" using p by simp
  then have "\<forall>e\<in>set eps. e \<noteq> []" unfolding parseEndpoints_None by (elim disjE conjE) simp_all
  then show ?thesis using m p by simp
qed

definition quiet_setup :: setup_env where
  "quiet_setup =
     \<lparr>su_getConfig = (\<lambda>c. None), su_newManager = (\<lambda>a b. None), su_newForConfig = None,
      su_addHookServer = (\<lambda>n d. None), su_addStateServer = (\<lambda>n d. None), su_addHealthz = None, su_addReadyz = None,
      su_start = None,
      su_reader = \<lparr>rd_Pods = (\<lambda>ns sel. Inr []), rd_XPdbs = (\<lambda>ns. Inr []),
        rd_scale = \<lparr>sa_ReplicaSet = (\<lambda>ns n. Inl (NotFound [])), sa_StatefulSet = (\<lambda>ns n. Inl (NotFound [])),
          sa_Deployment = (\<lambda>ns n. Inl (NotFound [])), sa_ReplicationController = (\<lambda>ns n. Inl (NotFound [])),
          sa_Scale = (\<lambda>gv k ns n. Inl (NotFound [])), sa_Resources = (\<lambda>gv. Inr []), sa_podString = (\<lambda>p. [])\<rparr>\<rparr>\<rparr>"

theorem started_services_agree_witness:
  "\<exists>inst. main quiet_setup (default_flags ''x-pdb-0'') = (None, Some inst) \<and>
     wh_lock (inst_webhook inst) = inst_serverLock inst \<and> ls_leaseNamespace (inst_serverLock inst) = ''kube-system''"
proof -
  obtain inst where m: "main quiet_setup (default_flags ''x-pdb-0'') = (None, Some inst)"
    by (simp add: main_def quiet_setup_def default_flags_def parseEndpoints_def Let_def)
  with started_services_agree [OF m] show ?thesis by (simp add: default_flags_def)
qed

end
