(* ===== verification/Mesh_Config.thy ===== *)
theory Mesh_Config
  imports Controller_Main Mesh_Release
begin

text \<open>
  The endpoints of the configuration. \<^verbatim>\<open>parseEndpoints\<close> keeps duplicates. The remote lock then calls the same
  cluster twice for one request, and the second call finds the lease that the first one has written: the lock
  is never obtained, so every disruption under a budget is refused.
\<close>

lemma all_tasks_append:
  assumes "all_tasks f (xs @ ys) s rs s'"
  obtains rs1 rs2 s1 where "rs = rs1 @ rs2" "all_tasks f xs s rs1 s1" "all_tasks f ys s1 rs2 s'"
  using assms
proof (induction xs arbitrary: s rs thesis)
  case Nil
  then show ?case using all_tasks.none by fastforce
next
  case (Cons x xs)
  from Cons.prems(2) obtain r rs0 s1 where x: "f x s = (Inr r, s1)" "rs = r # rs0" "all_tasks f (xs @ ys) s1 rs0 s'"
    by (auto elim: all_tasks_ConsE)
  from Cons.IH [OF _ x(3)] obtain rs1 rs2 s2 where "rs0 = rs1 @ rs2" "all_tasks f xs s1 rs1 s2" "all_tasks f ys s2 rs2 s'" .
  with x(1,2) Cons.prems(1) [of "r # rs1" rs2 s2] show ?case by (auto intro: all_tasks.task)
qed

text \<open>A cluster of the mesh that keeps the contract, whose leases last five seconds, and whose clock does not jump.\<close>

definition steady_cluster ::
    "'s cluster \<Rightarrow> ('s \<Rightarrow> object_key \<Rightarrow> lease option) \<Rightarrow> ('s \<Rightarrow> bool) \<Rightarrow> 's \<Rightarrow> string \<Rightarrow> label_selector \<Rightarrow> bool" where
  "steady_cluster cl stored valid s ns sel \<longleftrightarrow>
     lease_store (cl_client cl) stored valid \<and> valid s \<and>
     (\<forall>l. stored s (lock_key (cl_lock cl) ns sel) = Some l \<longrightarrow> lease_durationSeconds l = Some LeaseDurationSeconds) \<and>
     (case cl_clk cl of (n0, n1, n2) \<Rightarrow>
        n1 < lease_deadline (micro n0) LeaseDurationSeconds \<and> n1 < lease_deadline (micro n2) LeaseDurationSeconds)"

lemma second_lock_fails:
  assumes "steady_cluster cl stored valid s ns sel"
    and "LocalLock (cl_client cl) (cl_lock cl) (cl_clk cl) me ns sel s = (Ok (), s1)"
  shows "fst (LocalLock (cl_client cl) (cl_lock cl) (cl_clk cl) me ns sel s1) \<noteq> Ok ()"
proof -
  obtain n0 n1 n2 where clk: "cl_clk cl = (n0, n1, n2)" by (metis surj_pair)
  have store: "lease_store (cl_client cl) stored valid" and v: "valid s"
    and n1: "n1 < lease_deadline (micro n0) LeaseDurationSeconds" "n1 < lease_deadline (micro n2) LeaseDurationSeconds"
    and dur: "\<And>l. stored s (lock_key (cl_lock cl) ns sel) = Some l \<Longrightarrow> lease_durationSeconds l = Some LeaseDurationSeconds"
    using assms(1) clk by (simp_all add: steady_cluster_def)
  have call: "LocalLock (cl_client cl) (cl_lock cl) (n0, n1, n2) me ns sel s = (Ok (), s1)" using assms(2) clk by simp
  have v1: "valid s1" using lease_store.LocalLock_wf_frame [OF store call v] by blast
  obtain l where l: "stored s1 (lock_key (cl_lock cl) ns sel) = Some l" "live_lease l n1"
  proof (rule lease_store.LocalLock_acquired [OF store call v])
    fix l
    assume "stored s1 (lock_key (cl_lock cl) ns sel) = Some l" "lease_holderIdentity l = Some me"
      and "stored s (lock_key (cl_lock cl) ns sel) = None \<and> lease_acquireTime l = Some (micro n0) \<and>
           lease_durationSeconds l = Some LeaseDurationSeconds \<or>
         (\<exists>old. stored s (lock_key (cl_lock cl) ns sel) = Some old \<and> \<not> live_lease old n1 \<and>
           lease_acquireTime l = Some (micro n2) \<and>
           lease_durationSeconds l = lease_durationSeconds old \<and> lease_durationSeconds old \<noteq> None)"
    then show thesis using that [of l] n1 dur by (auto simp: live_lease_def complete_lease_def lease_until_def)
  qed
  obtain r s2 where again: "LocalLock (cl_client cl) (cl_lock cl) (n0, n1, n2) me ns sel s1 = (r, s2)" by fastforce
  then show ?thesis using lease_store.LocalLock_keeps_live [OF store again v1 l] clk by auto
qed

lemma duplicate_endpoint_blocks:
  assumes "honest_pool p" "set order = set (ls_remoteEndpoints svc)" "\<not> distinct order"
    and "\<forall>e\<in>set order. steady_cluster (ms_cluster m e) stored valid (w e) ns sel"
  shows "fst (remoteLock (mesh_env m) svc order me ns sel (p, w)) \<noteq> Ok ()"
proof
  assume "fst (remoteLock (mesh_env m) svc order me ns sel (p, w)) = Ok ()"
  then obtain p' w' where ok: "remoteLock (mesh_env m) svc order me ns sel (p, w) = (Ok (), (p', w'))"
    by (metis prod.collapse)
  let ?req = "\<lparr>lrq_leaseHolderIdentity = me, lrq_namespace = ns, lrq_labelSelector = Some (ConvertLabelSelectorToState sel)\<rparr>"
  let ?h = "\<lambda>e. stateServer_Lock (cl_client (ms_cluster m e)) (cl_lock (ms_cluster m e)) (cl_clk (ms_cluster m e)) ?req"
  let ?f = "rpc_task (re_dial (mesh_env m)) (\<lambda>cli. over_network m cli (?h cli))"
  have granted: "lrs_acquired r \<Longrightarrow> ?h e s = (Inr r, s') \<Longrightarrow>
      LocalLock (cl_client (ms_cluster m e)) (cl_lock (ms_cluster m e)) (cl_clk (ms_cluster m e)) me ns sel s = (Ok (), s')"
    for r e s s' unfolding stateServer_Lock_converted by (cases r) (auto split: prod.splits go.splits)
  have "ls_remoteEndpoints svc \<noteq> []" using assms(2,3) by auto
  then obtain results where
    "all_tasks (rpc_task (re_dial (mesh_env m)) (\<lambda>cli. re_Lock (mesh_env m) cli ?req)) order (p, w) results (p', w')"
    and acq: "\<forall>r\<in>set results. lrs_acquired r"
    using remoteLock_tasks [OF ok] by metis
  then have all: "all_tasks ?f order (p, w) results (p', w')" by (simp add: mesh_env_def)
  obtain xs y ys where order: "order = xs @ y # ys" "distinct xs" "y \<in> set xs"
    using assms(3) by (auto simp: not_distinct_conv_prefix)
  obtain rs1 rs2 s1 where res: "results = rs1 @ rs2" "all_tasks ?f xs (p, w) rs1 s1" "all_tasks ?f (y # ys) s1 rs2 (p', w')"
    by (rule all_tasks_append [OF all [unfolded order(1)]])
  obtain p1 w1 where s1: "s1 = (p1, w1)" by fastforce
  obtain ans where first: "honest_pool p1" "rs1 = map ans xs" "\<forall>e\<in>set xs. ?h e (w e) = (Inr (ans e), w1 e)"
    using mesh_all_tasks [OF res(2) [unfolded s1] assms(1) order(2)] by blast
  obtain r s2 rs3 where second: "?f y (p1, w1) = (Inr r, s2)" "rs2 = r # rs3" using res(3) s1 by (auto elim: all_tasks_ConsE)
  obtain p2 w2 where s2: "s2 = (p2, w2)" by fastforce
  have "?h y (w1 y) = (Inr r, w2 y)" by (rule mesh_task(3) [OF first(1) second(1) [unfolded s2] refl])
  moreover have "?h y (w y) = (Inr (ans y), w1 y)" using first(3) order(3) by blast
  moreover have "lrs_acquired (ans y)" "lrs_acquired r" using acq res(1) first(2) second(2) order(3) by auto
  ultimately have
    "LocalLock (cl_client (ms_cluster m y)) (cl_lock (ms_cluster m y)) (cl_clk (ms_cluster m y)) me ns sel (w y) = (Ok (), w1 y)"
    "LocalLock (cl_client (ms_cluster m y)) (cl_lock (ms_cluster m y)) (cl_clk (ms_cluster m y)) me ns sel (w1 y) = (Ok (), w2 y)"
    using granted by blast+
  moreover have "steady_cluster (ms_cluster m y) stored valid (w y) ns sel" using assms(4) order by simp
  ultimately show False using second_lock_fails by fastforce
qed

text \<open>The configuration \<^verbatim>\<open>b:9643,b:9643\<close> is taken as it is.\<close>

lemma parseEndpoints_keeps_duplicates: "parseEndpoints ''b:9643, b:9643'' = ([''b:9643'', ''b:9643''], None)"
  by code_simp

end
