(* ===== verification/Wire_Format.thy ===== *)
theory Wire_Format
  imports Prelude
begin

text \<open>
  The protobuf wire format, as the vendored \<^verbatim>\<open>google.golang.org/protobuf/encoding/protowire\<close>
  reads and writes it: variable length integers, tags, length-prefixed bytes, and the reader that
  steps over the value of an unknown field. A Go byte slice is a \<^typ>\<open>string\<close>, a \<^verbatim>\<open>uint64\<close> a
  64-bit word. The negative lengths that stand for errors in Go are the left values of a sum.
\<close>

unbundle bit_operations_syntax

section \<open>Bytes and error codes\<close>

type_synonym uint64 = "64 word"

text \<open>The conversions \<^verbatim>\<open>byte(v)\<close>, which keeps the low eight bits, and \<^verbatim>\<open>uint64(b[i])\<close>.\<close>

definition byte :: "uint64 \<Rightarrow> char" where
  "byte v = char_of (unat v)"

definition uint64_of :: "char \<Rightarrow> uint64" where
  "uint64_of c = of_nat (of_char c)"

datatype wire_err =
    errCodeTruncated
  | errCodeFieldNumber
  | errCodeOverflow
  | errCodeReserved
  | errCodeEndGroup
  | errCodeRecursionDepth
  | wirePanic

text \<open>
  The index expression \<^verbatim>\<open>b[i]\<close> and the slice expressions \<^verbatim>\<open>b[n:]\<close> and \<^verbatim>\<open>b[:n]\<close>: the run-time check of Go, with
  \<^const>\<open>None\<close> for the panic. In the readers the panic is \<^const>\<open>wirePanic\<close>. (Go lets \<^verbatim>\<open>b[:n]\<close> reach beyond the length up to the
  capacity, which reads bytes that do not belong to the slice; here that counts as a panic too.) The
  conjunction of Go does not evaluate its right side when the left side is false.
\<close>

definition index :: "string \<Rightarrow> nat \<Rightarrow> char option" where
  "index b i = (if i < length b then Some (b ! i) else None)"

definition slice_from :: "string \<Rightarrow> nat \<Rightarrow> string option" where
  "slice_from b n = (if n \<le> length b then Some (drop n b) else None)"

definition slice_to :: "string \<Rightarrow> nat \<Rightarrow> string option" where
  "slice_to b n = (if n \<le> length b then Some (take n b) else None)"

definition go_and :: "bool \<Rightarrow> bool option \<Rightarrow> bool option" where
  "go_and p q = (if p then q else Some False)"

lemmas go_slices = index_def slice_from_def slice_to_def go_and_def

lemma slice_from_append [simp]: "slice_from (p @ rest) (length p) = Some rest"
  by (simp add: slice_from_def)

definition VarintType :: nat where "VarintType = 0"
definition Fixed32Type :: nat where "Fixed32Type = 5"
definition Fixed64Type :: nat where "Fixed64Type = 1"
definition BytesType :: nat where "BytesType = 2"
definition StartGroupType :: nat where "StartGroupType = 3"
definition EndGroupType :: nat where "EndGroupType = 4"

lemmas wire_types = VarintType_def Fixed32Type_def Fixed64Type_def BytesType_def
  StartGroupType_def EndGroupType_def

definition MinValidNumber :: int where "MinValidNumber = 1"
definition MaxValidNumber :: int where "MaxValidNumber = 2 ^ 29 - 1"
definition DefaultRecursionLimit :: int where "DefaultRecursionLimit = 10000"


section \<open>Variable length integers\<close>

text \<open>\<^verbatim>\<open>byte((v>>s)&0x7f|0x80)\<close>: seven bits of the value with the continuation bit.\<close>

definition more_byte :: "nat \<Rightarrow> uint64 \<Rightarrow> char" where
  "more_byte s v = byte ((drop_bit s v AND 0x7f) OR 0x80)"

definition AppendVarint :: "string \<Rightarrow> uint64 \<Rightarrow> string" where
  "AppendVarint b v =
     (if v < 2 ^ 7 then b @ [byte v]
      else if v < 2 ^ 14 then b @ [more_byte 0 v, byte (drop_bit 7 v)]
      else if v < 2 ^ 21 then b @ [more_byte 0 v, more_byte 7 v, byte (drop_bit 14 v)]
      else if v < 2 ^ 28 then b @ [more_byte 0 v, more_byte 7 v, more_byte 14 v, byte (drop_bit 21 v)]
      else if v < 2 ^ 35 then
        b @ [more_byte 0 v, more_byte 7 v, more_byte 14 v, more_byte 21 v, byte (drop_bit 28 v)]
      else if v < 2 ^ 42 then
        b @ [more_byte 0 v, more_byte 7 v, more_byte 14 v, more_byte 21 v, more_byte 28 v,
             byte (drop_bit 35 v)]
      else if v < 2 ^ 49 then
        b @ [more_byte 0 v, more_byte 7 v, more_byte 14 v, more_byte 21 v, more_byte 28 v,
             more_byte 35 v, byte (drop_bit 42 v)]
      else if v < 2 ^ 56 then
        b @ [more_byte 0 v, more_byte 7 v, more_byte 14 v, more_byte 21 v, more_byte 28 v,
             more_byte 35 v, more_byte 42 v, byte (drop_bit 49 v)]
      else if v < 2 ^ 63 then
        b @ [more_byte 0 v, more_byte 7 v, more_byte 14 v, more_byte 21 v, more_byte 28 v,
             more_byte 35 v, more_byte 42 v, more_byte 49 v, byte (drop_bit 56 v)]
      else
        b @ [more_byte 0 v, more_byte 7 v, more_byte 14 v, more_byte 21 v, more_byte 28 v,
             more_byte 35 v, more_byte 42 v, more_byte 49 v, more_byte 56 v, CHR 0x01])"

text \<open>
  \<^verbatim>\<open>ConsumeVarint\<close> is an unrolled loop over at most ten bytes; \<^term>\<open>i\<close> is the number of bytes read
  so far and \<^term>\<open>v\<close> the value without the continuation bits.
\<close>

function ConsumeVarint_at :: "nat \<Rightarrow> uint64 \<Rightarrow> string \<Rightarrow> wire_err + uint64 \<times> nat" where
  "ConsumeVarint_at i v b =
     (if length b \<le> i then Inl errCodeTruncated
      else case index b i of
        None \<Rightarrow> Inl wirePanic
      | Some c \<Rightarrow>
          let y = uint64_of c; v = v + push_bit (7 * i) y in
          if i < 9 then
            (if y < 0x80 then Inr (v, Suc i)
             else ConsumeVarint_at (Suc i) (v - push_bit (7 * i) 0x80) b)
          else if y < 2 then Inr (v, 10)
          else Inl errCodeOverflow)"
  by pat_completeness auto

termination
  by (relation "measure (\<lambda>(i, v, b). 9 - i)") auto

declare ConsumeVarint_at.simps [simp del]

definition ConsumeVarint :: "string \<Rightarrow> wire_err + uint64 \<times> nat" where
  "ConsumeVarint b = ConsumeVarint_at 0 0 b"

text \<open>\<^verbatim>\<open>bits.Len64\<close>: the number of bits of a value.\<close>

fun bit_count :: "nat \<Rightarrow> nat" where
  "bit_count n = (if n = 0 then 0 else Suc (bit_count (n div 2)))"

declare bit_count.simps [simp del]

definition SizeVarint :: "uint64 \<Rightarrow> nat" where
  "SizeVarint v = (9 * bit_count (unat v) + 64) div 64"


section \<open>Tags and length-prefixed bytes\<close>

text \<open>A field number is an \<^verbatim>\<open>int32\<close>, a wire type one of the eight values of the low three bits.\<close>

definition DecodeTag :: "uint64 \<Rightarrow> int \<times> nat" where
  "DecodeTag x =
     (if drop_bit 3 x > 2 ^ 31 - 1 then (-1, 0)
      else (uint (drop_bit 3 x), unat (x AND 7)))"

definition EncodeTag :: "int \<Rightarrow> nat \<Rightarrow> uint64" where
  "EncodeTag num wtyp = push_bit 3 (of_int num) OR (of_nat wtyp AND 7)"

definition AppendTag :: "string \<Rightarrow> int \<Rightarrow> nat \<Rightarrow> string" where
  "AppendTag b num wtyp = AppendVarint b (EncodeTag num wtyp)"

definition ConsumeTag :: "string \<Rightarrow> wire_err + int \<times> nat \<times> nat" where
  "ConsumeTag b =
     (case ConsumeVarint b of
        Inl e \<Rightarrow> Inl e
      | Inr (v, n) \<Rightarrow>
          (case DecodeTag v of (num, wtyp) \<Rightarrow>
             if num < MinValidNumber then Inl errCodeFieldNumber else Inr (num, wtyp, n)))"

definition SizeBytes :: "nat \<Rightarrow> nat" where
  "SizeBytes n = SizeVarint (of_nat n) + n"

definition AppendBytes :: "string \<Rightarrow> string \<Rightarrow> string" where
  "AppendBytes b v = AppendVarint b (of_nat (length v)) @ v"

definition AppendString :: "string \<Rightarrow> string \<Rightarrow> string" where
  "AppendString b v = AppendVarint b (of_nat (length v)) @ v"

definition ConsumeBytes :: "string \<Rightarrow> wire_err + string \<times> nat" where
  "ConsumeBytes b =
     (case ConsumeVarint b of
        Inl e \<Rightarrow> Inl e
      | Inr (m, n) \<Rightarrow>
          (case slice_from b n of
             None \<Rightarrow> Inl wirePanic
           | Some r \<Rightarrow>
               if m > of_nat (length r) then Inl errCodeTruncated
               else (case slice_to r (unat m) of
                       None \<Rightarrow> Inl wirePanic
                     | Some v \<Rightarrow> Inr (v, n + unat m))))"

definition DecodeBool :: "uint64 \<Rightarrow> bool" where
  "DecodeBool x \<longleftrightarrow> x \<noteq> 0"

definition EncodeBool :: "bool \<Rightarrow> uint64" where
  "EncodeBool x = (if x then 1 else 0)"


section \<open>Stepping over a field\<close>

text \<open>Little-endian words of fixed width; a reader of an unknown field only needs their length.\<close>

definition ConsumeFixed32 :: "string \<Rightarrow> wire_err + 32 word \<times> nat" where
  "ConsumeFixed32 b =
     (if length b < 4 then Inl errCodeTruncated
      else case those (map (index b) [0, 1, 2, 3]) of
        Some [b0, b1, b2, b3] \<Rightarrow>
          Inr (of_nat (of_char b0) OR push_bit 8 (of_nat (of_char b1)) OR push_bit 16 (of_nat (of_char b2))
               OR push_bit 24 (of_nat (of_char b3)), 4)
      | _ \<Rightarrow> Inl wirePanic)"

definition ConsumeFixed64 :: "string \<Rightarrow> wire_err + uint64 \<times> nat" where
  "ConsumeFixed64 b =
     (if length b < 8 then Inl errCodeTruncated
      else case those (map (index b) [0, 1, 2, 3, 4, 5, 6, 7]) of
        Some [b0, b1, b2, b3, b4, b5, b6, b7] \<Rightarrow>
          Inr (uint64_of b0 OR push_bit 8 (uint64_of b1) OR push_bit 16 (uint64_of b2) OR push_bit 24 (uint64_of b3)
               OR push_bit 32 (uint64_of b4) OR push_bit 40 (uint64_of b5) OR push_bit 48 (uint64_of b6)
               OR push_bit 56 (uint64_of b7), 8)
      | _ \<Rightarrow> Inl wirePanic)"

text \<open>The reader of variable length integers, on the bytes that are left.\<close>

fun ConsumeVarint_from :: "nat \<Rightarrow> uint64 \<Rightarrow> string \<Rightarrow> wire_err + uint64 \<times> nat" where
  "ConsumeVarint_from i v [] = Inl errCodeTruncated"
| "ConsumeVarint_from i v (c # cs) =
     (let y = uint64_of c; v = v + push_bit (7 * i) y in
      if i < 9 then
        (if y < 0x80 then Inr (v, Suc i)
         else ConsumeVarint_from (Suc i) (v - push_bit (7 * i) 0x80) cs)
      else if y < 2 then Inr (v, 10)
      else Inl errCodeOverflow)"

lemma ConsumeVarint_at_from: "ConsumeVarint_at i v b = ConsumeVarint_from i v (drop i b)"
proof (induction i v b rule: ConsumeVarint_at.induct)
  case (1 i v b)
  show ?case
  proof (cases "length b \<le> i")
    case True
    then show ?thesis by (simp add: ConsumeVarint_at.simps [of i])
  next
    case False
    then have "drop i b = b ! i # drop (Suc i) b" "index b i = Some (b ! i)"
      by (simp_all add: Cons_nth_drop_Suc index_def)
    then show ?thesis
      using False 1 [OF _ _ refl refl] by (subst ConsumeVarint_at.simps) (simp add: Let_def)
  qed
qed

lemma ConsumeVarint_eq: "ConsumeVarint b = ConsumeVarint_from 0 0 b"
  by (simp add: ConsumeVarint_def ConsumeVarint_at_from)

lemma ConsumeVarint_from_no_panic: "ConsumeVarint_from i v b \<noteq> Inl wirePanic"
  by (induction i v b rule: ConsumeVarint_from.induct) (auto simp: Let_def)

lemma ConsumeVarint_no_panic [simp]: "ConsumeVarint b \<noteq> Inl wirePanic"
  by (simp add: ConsumeVarint_eq ConsumeVarint_from_no_panic)

lemma ConsumeVarint_from_length:
  "ConsumeVarint_from i v b = Inr (x, n) \<Longrightarrow> i \<le> 9 \<Longrightarrow> i < n \<and> n \<le> i + length b"
  by (induction i v b rule: ConsumeVarint_from.induct) (fastforce simp: Let_def split: if_splits)+

lemma ConsumeVarint_length: "ConsumeVarint b = Inr (x, n) \<Longrightarrow> 0 < n \<and> n \<le> length b"
  unfolding ConsumeVarint_eq by (drule ConsumeVarint_from_length) simp_all

lemma ConsumeTag_length: "ConsumeTag b = Inr (num, wtyp, n) \<Longrightarrow> 0 < n \<and> n \<le> length b"
  unfolding ConsumeTag_def by (auto split: sum.splits prod.splits if_splits dest: ConsumeVarint_length)

lemma ConsumeTag_no_panic [simp]: "ConsumeTag b \<noteq> Inl wirePanic"
  by (auto simp: ConsumeTag_def split: sum.splits prod.splits)

text \<open>
  \<^verbatim>\<open>consumeFieldValueD\<close> with the loop of its group case as a second function; the loop keeps the
  number of bytes it has used. The loop is entered with a depth that is not negative; its own test
  of the depth repeats that.
\<close>

function consumeFieldValueD :: "int \<Rightarrow> nat \<Rightarrow> string \<Rightarrow> int \<Rightarrow> wire_err + nat"
  and consumeGroupLoop :: "int \<Rightarrow> nat \<Rightarrow> string \<Rightarrow> int \<Rightarrow> wire_err + nat" where
  "consumeFieldValueD num wtyp b depth =
     (if wtyp = VarintType then map_sum id snd (ConsumeVarint b)
      else if wtyp = Fixed32Type then map_sum id snd (ConsumeFixed32 b)
      else if wtyp = Fixed64Type then map_sum id snd (ConsumeFixed64 b)
      else if wtyp = BytesType then map_sum id snd (ConsumeBytes b)
      else if wtyp = StartGroupType then
        (if depth < 0 then Inl errCodeRecursionDepth else consumeGroupLoop num 0 b depth)
      else if wtyp = EndGroupType then Inl errCodeEndGroup
      else Inl errCodeReserved)"
| "consumeGroupLoop num used b depth =
     (if depth < 0 then Inl errCodeRecursionDepth
      else case ConsumeTag b of
        Inl e \<Rightarrow> Inl e
      | Inr (num2, typ2, n) \<Rightarrow>
          (case slice_from b n of
             None \<Rightarrow> Inl wirePanic
           | Some b1 \<Rightarrow>
               if typ2 = EndGroupType then (if num \<noteq> num2 then Inl errCodeEndGroup else Inr (used + n))
               else (case consumeFieldValueD num2 typ2 b1 (depth - 1) of
                       Inl e \<Rightarrow> Inl e
                     | Inr n2 \<Rightarrow>
                         (case slice_from b1 n2 of
                            None \<Rightarrow> Inl wirePanic
                          | Some b2 \<Rightarrow> consumeGroupLoop num (used + n + n2) b2 depth))))"
  by pat_completeness auto

termination
  by (relation "inv_image (less_than <*lex*> less_than <*lex*> less_than)
        (\<lambda>x. case x of Inl (num, wtyp, b, depth) \<Rightarrow> (nat (depth + 1), Suc (length b), 1 :: nat)
                     | Inr (num, used, b, depth) \<Rightarrow> (nat (depth + 1), length b, 0))")
     (auto simp: slice_from_def split: if_splits dest!: ConsumeTag_length)

declare consumeFieldValueD.simps [simp del] consumeGroupLoop.simps [simp del]

definition ConsumeFieldValue :: "int \<Rightarrow> nat \<Rightarrow> string \<Rightarrow> wire_err + nat" where
  "ConsumeFieldValue num wtyp b = consumeFieldValueD num wtyp b DefaultRecursionLimit"


section \<open>Round trips\<close>

text \<open>The encoding of a number in groups of seven bits, least significant first.\<close>

fun varint :: "nat \<Rightarrow> string" where
  "varint n = (if n < 128 then [char_of n] else char_of (n mod 128 + 128) # varint (n div 128))"

declare varint.simps [simp del]

lemma varint_small: "n < 128 \<Longrightarrow> varint n = [char_of n]"
  by (subst varint.simps) simp

lemma varint_more: "128 \<le> n \<Longrightarrow> varint n = char_of (n mod 128 + 128) # varint (n div 128)"
  by (subst varint.simps) simp

lemma unat_drop: "unat (drop_bit s (v :: uint64)) = unat v div 2 ^ s"
  unfolding unat_drop_bit_eq by (rule drop_bit_eq_div)

lemma unat_take_7: "unat (take_bit 7 (x :: uint64)) = unat x mod 128"
  by (simp add: take_bit_eq_mod unat_mod)

lemma unat_more: "unat (((x :: uint64) AND 0x7f) OR 0x80) = unat x mod 128 + 128"
proof -
  have m: "x AND 0x7f = take_bit 7 x"
    by (simp add: take_bit_eq_mask mask_eq_exp_minus_1)
  have "(take_bit 7 x) OR 0x80 = take_bit 7 x + (0x80 :: uint64)"
  proof (rule disjunctive_add [symmetric])
    fix n
    have "bit (0x80 :: uint64) n \<longleftrightarrow> n = 7"
      using bit_exp_iff [where 'a = uint64, of 7 n] by auto
    then show "\<not> bit (take_bit 7 x) n \<or> \<not> bit (0x80 :: uint64) n"
      by (auto simp: bit_take_bit_iff)
  qed
  moreover have "unat (take_bit 7 x + (0x80 :: uint64)) = unat (take_bit 7 x) + 128"
    by (subst unat_add_lem [THEN iffD1])
       (use pos_mod_bound [of 128 "unat x"] in \<open>simp_all add: unat_take_7\<close>)
  ultimately show ?thesis
    using m by (simp add: unat_take_7)
qed

lemma more_byte_eq: "more_byte s v = char_of (unat v div 2 ^ s mod 128 + 128)"
  by (simp add: more_byte_def byte_def unat_more unat_drop)

lemma byte_drop_eq: "byte (drop_bit s v) = char_of (unat v div 2 ^ s)"
  by (simp add: byte_def unat_drop)

lemma varint_step:
  "varint (unat v div 2 ^ i) =
     (if unat v < 2 ^ (i + 7) then [byte (drop_bit i v)]
      else more_byte i v # varint (unat v div 2 ^ (i + 7)))"
proof -
  have d: "unat v div 2 ^ i div 128 = unat v div 2 ^ (i + 7)"
    by (simp add: div_mult2_eq power_add)
  have "(unat v div 2 ^ i < 128) = (unat v < 2 ^ (i + 7))"
    by (simp add: div_less_iff_less_mult power_add mult.commute)
  then show ?thesis
    by (subst varint.simps) (simp add: more_byte_eq byte_drop_eq d)
qed

lemma less_power:
  assumes "k < 64"
  shows "(v :: uint64) < 2 ^ k \<longleftrightarrow> unat v < 2 ^ k"
proof -
  have "unat (2 ^ k :: uint64) = 2 ^ k"
    by (rule of_nat_inverse) (use assms power_strict_increasing [of k 64 "2 :: nat"] in simp_all)
  then show ?thesis
    by (simp add: word_less_nat_alt)
qed

lemma char_of_1: "char_of (1 :: nat) = CHR 0x01"
  by code_simp

lemma varint_last:
  "varint (unat (v :: uint64) div 2 ^ 56) =
     (if unat v < 2 ^ 63 then [byte (drop_bit 56 v)] else [more_byte 56 v, CHR 0x01])"
proof (cases "unat v < 2 ^ 63")
  case False
  moreover have "unat v < 2 ^ 64"
    using unsigned_less [of v] by simp
  ultimately have "unat v div 2 ^ 63 = 1"
    by (simp add: div_nat_eqI)
  then have "varint (unat v div 2 ^ 63) = [CHR 0x01]"
    using varint_small [of 1] char_of_1 by simp
  then show ?thesis
    using False varint_step [of v 56] by simp
qed (use varint_step [of v 56] in simp)

text \<open>The ten cases of \<^verbatim>\<open>AppendVarint\<close> are this encoding.\<close>

lemma AppendVarint_eq: "AppendVarint b v = b @ varint (unat v)"
proof -
  have w: "varint (unat v) = varint (unat v div 2 ^ 0)"
    by simp
  show ?thesis
    unfolding AppendVarint_def w
    by (simp only: less_power varint_step [of v 0] varint_step [of v 7] varint_step [of v 14]
        varint_step [of v 21] varint_step [of v 28] varint_step [of v 35] varint_step [of v 42]
        varint_step [of v 49] varint_last Num.arith_simps add_0 drop_bit_0 id_apply
        if_distrib [of "append b"] if_distrib [of "Cons x" for x])
qed

text \<open>\<^verbatim>\<open>ConsumeVarint\<close> reads back what \<^verbatim>\<open>AppendVarint\<close> wrote, whatever follows.\<close>

lemma uint64_of_char_of: "n < 256 \<Longrightarrow> uint64_of (char_of n) = of_nat n"
  by (simp add: uint64_of_def)

lemma regroup:
  "v + push_bit (7 * i) (of_nat (n mod 128 + 128)) - push_bit (7 * i) 0x80 +
     push_bit (7 * Suc i) (of_nat (n div 128)) = v + (push_bit (7 * i) (of_nat n) :: uint64)"
proof -
  have "(of_nat n :: uint64) = of_nat (n mod 128) + of_nat (n div 128) * 128"
    by (metis mod_div_mult_eq of_nat_add of_nat_mult of_nat_numeral)
  then show ?thesis
    by (simp add: push_bit_eq_mult algebra_simps power_add)
qed

lemma ConsumeVarint_from_varint:
  "i \<le> 9 \<Longrightarrow> n < 2 ^ (64 - 7 * i) \<Longrightarrow>
   ConsumeVarint_from i v (varint n @ rest) = Inr (v + push_bit (7 * i) (of_nat n), i + length (varint n))"
proof (induction n arbitrary: i v rule: varint.induct)
  case (1 n)
  show ?case
  proof (cases "n < 128")
    case True
    have y: "uint64_of (char_of n) = of_nat n" "(of_nat n :: uint64) < 0x80"
      using True by (simp_all add: uint64_of_char_of word_less_nat_alt unat_of_nat)
    have "i < 9 \<or> i = 9 \<and> (of_nat n :: uint64) < 2"
      using 1(2,3) True by (cases "i = 9") (auto simp: word_less_nat_alt unat_of_nat)
    then show ?thesis
      using True y by (auto simp: varint_small)
  next
    case False
    have i: "i < 9"
      using 1(2,3) False by (cases "i = 9") auto
    then have "64 - 7 * i = 7 + (64 - 7 * Suc i)"
      by simp
    then have p: "(2 :: nat) ^ (64 - 7 * i) = 128 * 2 ^ (64 - 7 * Suc i)"
      by (simp only: power_add) simp
    have m: "n mod 128 + 128 < 256"
      using mod_less_divisor [of 128 n] by linarith
    have y: "\<not> (of_nat (n mod 128 + 128) :: uint64) < 0x80"
      using m by (simp add: word_less_nat_alt unat_of_nat del: of_nat_add)
    have IH: "ConsumeVarint_from (Suc i) u (varint (n div 128) @ rest) =
        Inr (u + push_bit (7 * Suc i) (of_nat (n div 128)), Suc i + length (varint (n div 128)))" for u
      using 1(1) [OF False, of "Suc i" u] 1(3) i p by (simp add: less_mult_imp_div_less mult.commute)
    have "v + push_bit (7 * i) (of_nat (n mod 128 + 128)) - push_bit (7 * i) 0x80 +
        push_bit (7 * Suc i) (of_nat (n div 128)) = v + (push_bit (7 * i) (of_nat n) :: uint64)"
      by (rule regroup)
    then show ?thesis
      using False i y IH m by (simp add: varint_more uint64_of_char_of Let_def)
  qed
qed

lemma ConsumeVarint_varint:
  "n < 2 ^ 64 \<Longrightarrow> ConsumeVarint (varint n @ rest) = Inr (of_nat n, length (varint n))"
  by (simp add: ConsumeVarint_eq ConsumeVarint_from_varint)

text \<open>The size formula, with 9/64 for 1/7, is exact for every 64-bit value.\<close>

lemma bit_count_0 [simp]: "bit_count 0 = 0"
  by (simp add: bit_count.simps)

lemma bit_count_pos: "0 < n \<Longrightarrow> bit_count n = Suc (bit_count (n div 2))"
  by (subst bit_count.simps) simp

lemma bit_count_shift: "2 ^ k \<le> n \<Longrightarrow> bit_count n = k + bit_count (n div 2 ^ k)"
proof (induction k arbitrary: n)
  case (Suc k)
  then have "0 < n" "2 ^ k \<le> n div 2"
    using zero_less_power [of "2 :: nat" "Suc k"] by (linarith, simp)
  then show ?case
    using Suc.IH [of "n div 2"] by (simp add: bit_count_pos div_mult2_eq)
qed simp

lemma bit_count_le: "n < 2 ^ k \<Longrightarrow> bit_count n \<le> k"
proof (induction k arbitrary: n)
  case (Suc k)
  then show ?case
    by (cases "n = 0") (auto simp: bit_count_pos)
qed simp

lemma length_varint: "length (varint n) = (if n = 0 then 1 else (bit_count n + 6) div 7)"
proof (induction n rule: varint.induct)
  case (1 n)
  show ?case
  proof (cases "n < 128")
    case True
    then have "bit_count n \<le> 7"
      using bit_count_le [of n 7] by simp
    moreover have "n \<noteq> 0 \<Longrightarrow> 1 \<le> bit_count n"
      by (simp add: bit_count_pos)
    ultimately show ?thesis
      using True by (auto simp: varint_small intro!: div_nat_eqI [symmetric])
  next
    case False
    then have "bit_count n = 7 + bit_count (n div 128)" "n div 128 \<noteq> 0"
      using bit_count_shift [of 7 n] by (simp_all add: div_eq_0_iff)
    then show ?thesis
      using False 1 by (simp add: varint_more)
  qed
qed

lemma size_formula: "\<forall>k \<in> set [1..<65]. (9 * k + 64) div 64 = (k + 6 :: nat) div 7"
  by code_simp

lemma SizeVarint_exact: "SizeVarint v = length (varint (unat v))"
proof -
  have "bit_count (unat v) \<le> 64"
    using bit_count_le [of "unat v" 64] unsigned_less [of v] by simp
  moreover have "unat v \<noteq> 0 \<Longrightarrow> 1 \<le> bit_count (unat v)"
    by (simp add: bit_count_pos)
  moreover have "(9 * k + 64) div 64 = (k + 6) div 7" if "1 \<le> k" "k \<le> 64" for k :: nat
    using size_formula that by auto
  ultimately show ?thesis
    unfolding SizeVarint_def length_varint by (cases "unat v = 0") (simp_all only: bit_count_0, simp_all)
qed

lemma varint_not_Nil [simp]: "varint n \<noteq> []"
  by (subst varint.simps) simp

text \<open>Length-prefixed bytes.\<close>

lemma AppendString_eq:
  "length v < 2 ^ 64 \<Longrightarrow> AppendString b v = b @ varint (length v) @ v"
  by (simp add: AppendString_def AppendVarint_eq unat_of_nat)

lemma SizeBytes_exact: "n < 2 ^ 64 \<Longrightarrow> SizeBytes n = length (varint n) + n"
  by (simp add: SizeBytes_def SizeVarint_exact unat_of_nat)

lemma ConsumeBytes_varint:
  assumes "length v < 2 ^ 63" "length rest < 2 ^ 63"
  shows "ConsumeBytes (varint (length v) @ v @ rest) = Inr (v, length (varint (length v)) + length v)"
proof -
  have "length v + length rest < 2 ^ 64"
    using assms by simp
  then have "\<not> (of_nat (length v) :: uint64) > of_nat (length v + length rest)"
    by (simp add: word_less_nat_alt unat_of_nat del: of_nat_add)
  then show ?thesis
    using assms(1) by (simp add: ConsumeBytes_def ConsumeVarint_varint unat_of_nat go_slices)
qed

lemma ConsumeBytes_length:
  assumes "ConsumeBytes b = Inr (v, n)" "length b < 2 ^ 64"
  shows "n \<le> length b \<and> length v \<le> n"
proof -
  obtain m k where mk: "ConsumeVarint b = Inr (m, k)" "\<not> m > of_nat (length (drop k b))"
      "v = take (unat m) (drop k b)" "n = k + unat m"
    using assms(1) by (auto simp: ConsumeBytes_def go_slices split: sum.splits if_splits)
  moreover have "k \<le> length b"
    using mk(1) by (auto dest: ConsumeVarint_length)
  moreover have "unat m \<le> length b - k"
    using mk(2) assms(2) by (simp add: word_less_nat_alt unat_of_nat)
  ultimately show ?thesis
    by auto
qed

text \<open>Tags.\<close>

lemma and_7: "(x :: uint64) AND 7 = take_bit 3 x"
  by (simp add: take_bit_eq_mask mask_eq_exp_minus_1)

lemma unat_and_7: "unat ((x :: uint64) AND 7) = unat x mod 8"
  by (simp add: and_7 take_bit_eq_mod unat_mod)

lemma unat_EncodeTag:
  assumes "0 \<le> num" "num \<le> MaxValidNumber" "wtyp < 8"
  shows "unat (EncodeTag num wtyp) = 8 * nat num + wtyp"
proof -
  define k where "k = nat num"
  have k: "num = int k" "k < 2 ^ 29"
    using assms by (simp_all add: k_def MaxValidNumber_def nat_less_iff)
  have t: "take_bit 3 (of_nat wtyp) = (of_nat wtyp :: uint64)"
    using assms(3) by (simp add: take_bit_of_nat take_bit_nat_eq_self)
  have "EncodeTag num wtyp = push_bit 3 (of_nat k) OR take_bit 3 (of_nat wtyp)"
    by (simp add: EncodeTag_def and_7 k(1))
  also have "\<dots> = push_bit 3 (of_nat k) + take_bit 3 (of_nat wtyp)"
    by (rule disjunctive_add [symmetric]) (auto simp: bit_push_bit_iff bit_take_bit_iff)
  also have "\<dots> = of_nat (8 * k + wtyp)"
    using t by (simp add: push_bit_eq_mult)
  finally show ?thesis
    using k(2) assms(3) by (simp add: unat_of_nat k_def [symmetric] del: of_nat_add of_nat_mult)
qed

lemma tag_parts:
  assumes "0 \<le> num" "num \<le> MaxValidNumber" "wtyp < 8"
  shows "uint (drop_bit 3 (EncodeTag num wtyp)) = num" "unat (EncodeTag num wtyp AND 7) = wtyp"
proof -
  have "unat (drop_bit 3 (EncodeTag num wtyp)) = nat num"
    using unat_EncodeTag [OF assms] assms(3) by (simp add: unat_drop)
  then show "uint (drop_bit 3 (EncodeTag num wtyp)) = num"
    using assms(1) by (metis int_nat_eq uint_nat)
  show "unat (EncodeTag num wtyp AND 7) = wtyp"
    using unat_EncodeTag [OF assms] assms(3) by (simp add: unat_and_7)
qed

lemma ConsumeTag_varint:
  assumes "1 \<le> num" "num \<le> MaxValidNumber" "wtyp < 8"
  shows "ConsumeTag (varint (unat (EncodeTag num wtyp)) @ rest) =
           Inr (num, wtyp, length (varint (unat (EncodeTag num wtyp))))"
proof -
  have "unat (drop_bit 3 (EncodeTag num wtyp)) \<le> 2 ^ 29"
    using unat_EncodeTag [of num wtyp] assms by (simp add: unat_drop MaxValidNumber_def nat_le_iff)
  then have "\<not> drop_bit 3 (EncodeTag num wtyp) > 2 ^ 31 - 1"
    by (simp add: word_less_nat_alt)
  moreover have "unat (EncodeTag num wtyp) < 2 ^ 64"
    using unsigned_less [of "EncodeTag num wtyp"] by simp
  ultimately show ?thesis
    using assms tag_parts [of num wtyp]
    by (simp add: ConsumeTag_def ConsumeVarint_varint DecodeTag_def MinValidNumber_def)
qed

lemma ConsumeBytes_no_panic:
  assumes "length b < 2 ^ 64"
  shows "ConsumeBytes b \<noteq> Inl wirePanic"
proof (cases "ConsumeVarint b")
  case (Inr mn)
  obtain m n where mn: "mn = (m, n)"
    by (cases mn)
  have n: "n \<le> length b"
    using Inr mn by (auto dest: ConsumeVarint_length)
  moreover have "unat m \<le> length b - n" if "\<not> m > of_nat (length b - n)"
    using that assms by (simp add: word_less_nat_alt unat_of_nat)
  ultimately show ?thesis
    using Inr mn by (auto simp: ConsumeBytes_def go_slices)
qed (auto simp: ConsumeBytes_def)

lemma ConsumeFixed_no_panic [simp]:
  "ConsumeFixed32 b \<noteq> Inl wirePanic" "ConsumeFixed64 b \<noteq> Inl wirePanic"
  by (auto simp: ConsumeFixed32_def ConsumeFixed64_def index_def)

text \<open>Stepping over a value stays within the input, and no index or slice expression is out of range.\<close>

definition stays_in :: "nat \<Rightarrow> wire_err + nat \<Rightarrow> bool" where
  "stays_in k r \<longleftrightarrow> (case r of Inl e \<Rightarrow> e \<noteq> wirePanic | Inr n \<Rightarrow> n \<le> k)"

lemma stays_in_simps [simp]: "stays_in k (Inl e) \<longleftrightarrow> e \<noteq> wirePanic" "stays_in k (Inr n) \<longleftrightarrow> n \<le> k"
  by (simp_all add: stays_in_def)

lemma stays_in_value:
  assumes "x \<noteq> Inl wirePanic" "\<And>v n. x = Inr (v, n) \<Longrightarrow> n \<le> k"
  shows "stays_in k (map_sum id snd x)"
  using assms by (cases x) auto

lemma consume_within:
  "length b < 2 ^ 64 \<Longrightarrow> stays_in (length b) (consumeFieldValueD num wtyp b depth)"
  "length b < 2 ^ 64 \<Longrightarrow> stays_in (used + length b) (consumeGroupLoop num used b depth)"
proof (induction num wtyp b depth and num used b depth
    rule: consumeFieldValueD_consumeGroupLoop.induct)
  case (1 num wtyp b depth)
  have "stays_in (length b) (map_sum id snd (ConsumeVarint b))"
    by (rule stays_in_value) (auto dest: ConsumeVarint_length)
  moreover have "stays_in (length b) (map_sum id snd (ConsumeBytes b))"
    using 1(2) by (intro stays_in_value ConsumeBytes_no_panic) (auto dest: ConsumeBytes_length)
  moreover have "stays_in (length b) (map_sum id snd (ConsumeFixed32 b))"
    by (rule stays_in_value) (auto simp: ConsumeFixed32_def index_def split: if_splits)
  moreover have "stays_in (length b) (map_sum id snd (ConsumeFixed64 b))"
    by (rule stays_in_value) (auto simp: ConsumeFixed64_def index_def split: if_splits)
  ultimately show ?case
    using 1 by (subst consumeFieldValueD.simps) simp
next
  case (2 num used b depth)
  show ?case
  proof (cases "depth < 0")
    case False
    show ?thesis
    proof (cases "ConsumeTag b")
      case (Inl e)
      then show ?thesis
        using False by (subst consumeGroupLoop.simps) auto
    next
      case (Inr t)
      then obtain num2 typ2 k where t: "ConsumeTag b = Inr (num2, typ2, k)"
        by (cases t) auto
      then have k: "k \<le> length b"
        by (auto dest: ConsumeTag_length)
      then have s: "slice_from b k = Some (drop k b)"
        by (simp add: slice_from_def)
      show ?thesis
      proof (cases "typ2 = EndGroupType")
        case True
        then show ?thesis
          using False t s k by (subst consumeGroupLoop.simps) simp
      next
        case other: False
        have v: "stays_in (length b - k) (consumeFieldValueD num2 typ2 (drop k b) (depth - 1))"
          using 2(1) [OF False t refl refl s other] 2(3) by simp
        show ?thesis
        proof (cases "consumeFieldValueD num2 typ2 (drop k b) (depth - 1)")
          case (Inl e)
          then show ?thesis
            using False t s other v by (subst consumeGroupLoop.simps) simp
        next
          case (Inr n2)
          then have n2: "n2 \<le> length b - k" "slice_from (drop k b) n2 = Some (drop n2 (drop k b))"
            using v by (simp_all add: slice_from_def)
          have "stays_in (used + k + n2 + length (drop n2 (drop k b)))
              (consumeGroupLoop num (used + k + n2) (drop n2 (drop k b)) depth)"
            using 2(2) [OF False t refl refl s other Inr n2(2)] 2(3) by simp
          then show ?thesis
            using False t s other Inr n2 k by (subst consumeGroupLoop.simps) simp
        qed
      qed
    qed
  qed (simp add: consumeGroupLoop.simps)
qed

lemma ConsumeFieldValue_within:
  "length b < 2 ^ 64 \<Longrightarrow> stays_in (length b) (ConsumeFieldValue num wtyp b)"
  unfolding ConsumeFieldValue_def by (rule consume_within(1))

lemma ConsumeFieldValue_length:
  "ConsumeFieldValue num wtyp b = Inr n \<Longrightarrow> length b < 2 ^ 64 \<Longrightarrow> n \<le> length b"
  using ConsumeFieldValue_within [of b num wtyp] by simp

end
