(* ===== verification/Wire_Coders.thy ===== *)
theory Wire_Coders
  imports Wire_Format Kube_Types
begin

text \<open>
  The message coder of the vendored \<^verbatim>\<open>google.golang.org/protobuf/internal/impl\<close>: the coders of the
  field kinds the state service uses (strings, optional strings, repeated strings, booleans,
  \<^verbatim>\<open>int32\<close>, messages, repeated messages, string maps) and the loops over the fields of a message that
  write and read it. A coder works on a struct field; here it gets a reader and a writer of that
  field. Not kept are the bytes of unknown fields, which no code of x-pdb reads, and the flags that
  report required fields, which these messages do not have.
\<close>

unbundle bit_operations_syntax

section \<open>Errors\<close>

text \<open>
  An index or slice expression panics when it is out of range; the last value stands for that. Every such
  expression over the received bytes is checked, and a panic inside a reader of the wire format stays one: the
  other errors of the readers become \<^verbatim>\<open>errDecode\<close>.
\<close>

datatype pb_err =
    errUnknown
  | errDecode
  | errInvalidUTF8
  | errRecursionDepth
  | errSizeMismatch
  | slicePanic

definition decode_err :: "wire_err \<Rightarrow> pb_err" where
  "decode_err e = (if e = wirePanic then slicePanic else errDecode)"

lemma decode_err_simps [simp]: "decode_err e = slicePanic \<longleftrightarrow> e = wirePanic" "decode_err e \<noteq> errUnknown"
  by (simp_all add: decode_err_def)


section \<open>UTF-8\<close>

text \<open>\<^verbatim>\<open>utf8.Valid\<close>: no overlong form, no surrogate, nothing above U+10FFFF.\<close>

definition in_range :: "nat \<Rightarrow> nat \<Rightarrow> char \<Rightarrow> bool" where
  "in_range lo hi c \<longleftrightarrow> lo \<le> of_char c \<and> of_char c \<le> hi"

fun utf8_Valid :: "string \<Rightarrow> bool" where
  "utf8_Valid [] = True"
| "utf8_Valid (c # cs) =
     (if in_range 0 0x7F c then utf8_Valid cs
      else if in_range 0xC2 0xDF c then
        (case cs of c2 # r \<Rightarrow> in_range 0x80 0xBF c2 \<and> utf8_Valid r | _ \<Rightarrow> False)
      else if in_range 0xE0 0xEF c then
        (case cs of
           c2 # c3 # r \<Rightarrow>
             in_range (if of_char c = (0xE0 :: nat) then 0xA0 else 0x80)
                      (if of_char c = (0xED :: nat) then 0x9F else 0xBF) c2
             \<and> in_range 0x80 0xBF c3 \<and> utf8_Valid r
         | _ \<Rightarrow> False)
      else if in_range 0xF0 0xF4 c then
        (case cs of
           c2 # c3 # c4 # r \<Rightarrow>
             in_range (if of_char c = (0xF0 :: nat) then 0x90 else 0x80)
                      (if of_char c = (0xF4 :: nat) then 0x8F else 0xBF) c2
             \<and> in_range 0x80 0xBF c3 \<and> in_range 0x80 0xBF c4 \<and> utf8_Valid r
         | _ \<Rightarrow> False)
      else False)"

declare utf8_Valid.simps(2) [simp del]

lemma utf8_Valid_ascii: "\<forall>c \<in> set s. of_char c < (128 :: nat) \<Longrightarrow> utf8_Valid s"
  by (induction s) (simp_all add: utf8_Valid.simps(2) in_range_def)


section \<open>Fields and messages\<close>

text \<open>
  \<^verbatim>\<open>coderFieldInfo\<close>: the number of the field, whether its pointer is nil, and its size, marshal and
  unmarshal functions. An unmarshal function gets the bytes after the tag, the wire type, the depth
  left and the message; it returns the number of bytes read and the message with the field set.
\<close>

record 'm coder_field =
  cf_num :: int
  cf_isNil :: "'m \<Rightarrow> bool"
  cf_size :: "'m \<Rightarrow> nat"
  cf_marshal :: "string \<Rightarrow> 'm \<Rightarrow> pb_err + string"
  cf_unmarshal :: "string \<Rightarrow> nat \<Rightarrow> int \<Rightarrow> 'm \<Rightarrow> pb_err + nat \<times> 'm"

text \<open>
  \<^verbatim>\<open>sizePointer\<close>. The size cache holds the value this computes: the marshaller fills it right before
  it reads it.
\<close>

fun sizePointer :: "'m coder_field list \<Rightarrow> 'm option \<Rightarrow> nat" where
  "sizePointer fs None = 0"
| "sizePointer fs (Some m) = sum_list (map (\<lambda>f. if cf_isNil f m then 0 else cf_size f m) fs)"

fun marshal_fields :: "'m coder_field list \<Rightarrow> string \<Rightarrow> 'm \<Rightarrow> pb_err + string" where
  "marshal_fields [] b m = Inr b"
| "marshal_fields (f # fs) b m =
     (if cf_isNil f m then marshal_fields fs b m
      else case cf_marshal f b m of Inl e \<Rightarrow> Inl e | Inr b \<Rightarrow> marshal_fields fs b m)"

fun marshalAppendPointer :: "'m coder_field list \<Rightarrow> string \<Rightarrow> 'm option \<Rightarrow> pb_err + string" where
  "marshalAppendPointer fs b None = Inr b"
| "marshalAppendPointer fs b (Some m) = marshal_fields fs b m"

text \<open>The tag at the head of a non-empty input, with fast paths for one and two bytes.\<close>

definition unmarshal_tag :: "string \<Rightarrow> pb_err + uint64 \<times> string" where
  "unmarshal_tag b =
     (case index b 0 of
        None \<Rightarrow> Inl slicePanic
      | Some b0 \<Rightarrow>
          if uint64_of b0 < 0x80 then
            (case slice_from b 1 of None \<Rightarrow> Inl slicePanic | Some b' \<Rightarrow> Inr (uint64_of b0, b'))
          else
            (case go_and (length b \<ge> 2) (map_option (\<lambda>b1. uint64_of b1 < 128) (index b 1)) of
               None \<Rightarrow> Inl slicePanic
             | Some True \<Rightarrow>
                 (case (index b 1, slice_from b 2) of
                    (Some b1, Some b') \<Rightarrow> Inr ((uint64_of b0 AND 0x7f) + push_bit 7 (uint64_of b1), b')
                  | _ \<Rightarrow> Inl slicePanic)
             | Some False \<Rightarrow>
                 (case ConsumeVarint b of
                    Inl e \<Rightarrow> Inl (decode_err e)
                  | Inr (tag, n) \<Rightarrow>
                      (case slice_from b n of None \<Rightarrow> Inl slicePanic | Some b' \<Rightarrow> Inr (tag, b')))))"

lemma unmarshal_tag_eq:
  assumes "b \<noteq> []"
  shows "unmarshal_tag b =
     (if uint64_of (b ! 0) < 0x80 then Inr (uint64_of (b ! 0), drop 1 b)
      else if length b \<ge> 2 \<and> uint64_of (b ! 1) < 128 then
        Inr ((uint64_of (b ! 0) AND 0x7f) + push_bit 7 (uint64_of (b ! 1)), drop 2 b)
      else case ConsumeVarint b of Inl e \<Rightarrow> Inl errDecode | Inr (tag, n) \<Rightarrow> Inr (tag, drop n b))"
  using assms ConsumeVarint_length [of b] ConsumeVarint_no_panic [of b]
  by (cases b; cases "ConsumeVarint b") (auto simp: unmarshal_tag_def go_slices decode_err_def)

text \<open>
  One field record: the coder of the field reads it; an unknown field, or one of an unexpected wire
  type, is stepped over.
\<close>

definition unmarshal_field ::
    "'m coder_field list \<Rightarrow> string \<Rightarrow> int \<Rightarrow> nat \<Rightarrow> int \<Rightarrow> 'm \<Rightarrow> pb_err + nat \<times> 'm" where
  "unmarshal_field fs b num wtyp depth m =
     (case (case find (\<lambda>f. cf_num f = num) fs of
              Some f \<Rightarrow> cf_unmarshal f b wtyp depth m
            | None \<Rightarrow> Inl errUnknown) of
        Inr (n, m') \<Rightarrow> Inr (n, m')
      | Inl err \<Rightarrow>
          if err \<noteq> errUnknown then Inl err
          else (case ConsumeFieldValue num wtyp b of Inl e \<Rightarrow> Inl (decode_err e) | Inr n \<Rightarrow> Inr (n, m)))"

lemma unmarshal_tag_shorter:
  "b \<noteq> [] \<Longrightarrow> unmarshal_tag b = Inr (tag, b') \<Longrightarrow> length b' < length b"
  by (cases b) (auto simp: unmarshal_tag_eq split: if_splits sum.splits dest: ConsumeVarint_length)

function unmarshal_loop ::
    "'m coder_field list \<Rightarrow> string \<Rightarrow> 'm \<Rightarrow> int \<Rightarrow> int \<Rightarrow> pb_err + string \<times> 'm \<times> int" where
  "unmarshal_loop fs b m groupTag depth =
     (if b = [] then Inr (b, m, groupTag)
      else case unmarshal_tag b of
        Inl e \<Rightarrow> Inl e
      | Inr (tag, b1) \<Rightarrow>
          let n = uint (drop_bit 3 tag); wtyp = unat (tag AND 7) in
          if n < MinValidNumber \<or> n > MaxValidNumber then Inl errDecode
          else if wtyp = EndGroupType then
            (if n \<noteq> groupTag then Inl errDecode else Inr (b1, m, 0))
          else case unmarshal_field fs b1 n wtyp depth m of
            Inl e \<Rightarrow> Inl e
          | Inr (k, m') \<Rightarrow>
              (case slice_from b1 k of
                 None \<Rightarrow> Inl slicePanic
               | Some b2 \<Rightarrow> unmarshal_loop fs b2 m' groupTag depth))"
  by pat_completeness auto

termination
  by (relation "measure (\<lambda>(fs, b, m, groupTag, depth). length b)")
     (auto simp: slice_from_def split: if_splits dest!: unmarshal_tag_shorter)

declare unmarshal_loop.simps [simp del]

definition unmarshalPointer ::
    "'m coder_field list \<Rightarrow> string \<Rightarrow> 'm \<Rightarrow> int \<Rightarrow> int \<Rightarrow> pb_err + nat \<times> 'm" where
  "unmarshalPointer fs b m groupTag depth =
     (if depth - 1 < 0 then Inl errRecursionDepth
      else case unmarshal_loop fs b m groupTag (depth - 1) of
        Inl e \<Rightarrow> Inl e
      | Inr (b', m', groupTag') \<Rightarrow>
          if groupTag' \<noteq> 0 then Inl errDecode else Inr (length b - length b', m'))"


section \<open>Coders of scalar fields\<close>

text \<open>Strings: the zero value is not written; both directions check the encoding.\<close>

definition sizeStringNoZero :: "nat \<Rightarrow> string \<Rightarrow> nat" where
  "sizeStringNoZero tagsize v = (if length v = 0 then 0 else tagsize + SizeBytes (length v))"

definition appendStringNoZeroValidateUTF8 :: "uint64 \<Rightarrow> string \<Rightarrow> string \<Rightarrow> pb_err + string" where
  "appendStringNoZeroValidateUTF8 wiretag b v =
     (if length v = 0 then Inr b
      else let b = AppendVarint b wiretag; b = AppendString b v in
        if \<not> utf8_Valid v then Inl errInvalidUTF8 else Inr b)"

definition consumeStringValidateUTF8 :: "string \<Rightarrow> nat \<Rightarrow> pb_err + nat \<times> string" where
  "consumeStringValidateUTF8 b wtyp =
     (if wtyp \<noteq> BytesType then Inl errUnknown
      else case ConsumeBytes b of
        Inl e \<Rightarrow> Inl (decode_err e)
      | Inr (v, n) \<Rightarrow> if \<not> utf8_Valid v then Inl errInvalidUTF8 else Inr (n, v))"

definition string_field :: "int \<Rightarrow> ('m \<Rightarrow> string) \<Rightarrow> (string \<Rightarrow> 'm \<Rightarrow> 'm) \<Rightarrow> 'm coder_field" where
  "string_field num rd wr =
     (let wiretag = EncodeTag num BytesType; tagsize = SizeVarint wiretag in
      \<lparr>cf_num = num,
       cf_isNil = (\<lambda>m. False),
       cf_size = (\<lambda>m. sizeStringNoZero tagsize (rd m)),
       cf_marshal = (\<lambda>b m. appendStringNoZeroValidateUTF8 wiretag b (rd m)),
       cf_unmarshal = (\<lambda>b wtyp depth m. map_sum id (\<lambda>(n, v). (n, wr v m)) (consumeStringValidateUTF8 b wtyp))\<rparr>)"

text \<open>Optional strings: a pointer, written also when it points to the empty string.\<close>

definition sizeStringPtr :: "nat \<Rightarrow> string \<Rightarrow> nat" where
  "sizeStringPtr tagsize v = tagsize + SizeBytes (length v)"

definition appendStringPtrValidateUTF8 :: "uint64 \<Rightarrow> string \<Rightarrow> string \<Rightarrow> pb_err + string" where
  "appendStringPtrValidateUTF8 wiretag b v =
     (let b = AppendVarint b wiretag; b = AppendString b v in
      if \<not> utf8_Valid v then Inl errInvalidUTF8 else Inr b)"

definition consumeStringPtrValidateUTF8 :: "string \<Rightarrow> nat \<Rightarrow> pb_err + nat \<times> string option" where
  "consumeStringPtrValidateUTF8 b wtyp =
     (if wtyp \<noteq> BytesType then Inl errUnknown
      else case ConsumeBytes b of
        Inl e \<Rightarrow> Inl (decode_err e)
      | Inr (v, n) \<Rightarrow> if \<not> utf8_Valid v then Inl errInvalidUTF8 else Inr (n, Some v))"

definition optional_string_field ::
    "int \<Rightarrow> ('m \<Rightarrow> string option) \<Rightarrow> (string option \<Rightarrow> 'm \<Rightarrow> 'm) \<Rightarrow> 'm coder_field" where
  "optional_string_field num rd wr =
     (let wiretag = EncodeTag num BytesType; tagsize = SizeVarint wiretag in
      \<lparr>cf_num = num,
       cf_isNil = (\<lambda>m. rd m = None),
       cf_size = (\<lambda>m. sizeStringPtr tagsize (the (rd m))),
       cf_marshal = (\<lambda>b m. appendStringPtrValidateUTF8 wiretag b (the (rd m))),
       cf_unmarshal = (\<lambda>b wtyp depth m. map_sum id (\<lambda>(n, v). (n, wr v m)) (consumeStringPtrValidateUTF8 b wtyp))\<rparr>)"

text \<open>Repeated strings: one record for each element.\<close>

definition sizeStringSlice :: "nat \<Rightarrow> string list \<Rightarrow> nat" where
  "sizeStringSlice tagsize s = sum_list (map (\<lambda>v. tagsize + SizeBytes (length v)) s)"

fun appendStringSliceValidateUTF8 :: "uint64 \<Rightarrow> string \<Rightarrow> string list \<Rightarrow> pb_err + string" where
  "appendStringSliceValidateUTF8 wiretag b [] = Inr b"
| "appendStringSliceValidateUTF8 wiretag b (v # s) =
     (let b = AppendVarint b wiretag; b = AppendString b v in
      if \<not> utf8_Valid v then Inl errInvalidUTF8 else appendStringSliceValidateUTF8 wiretag b s)"

definition consumeStringSliceValidateUTF8 ::
    "string \<Rightarrow> nat \<Rightarrow> string list \<Rightarrow> pb_err + nat \<times> string list" where
  "consumeStringSliceValidateUTF8 b wtyp s =
     (if wtyp \<noteq> BytesType then Inl errUnknown
      else case ConsumeBytes b of
        Inl e \<Rightarrow> Inl (decode_err e)
      | Inr (v, n) \<Rightarrow> if \<not> utf8_Valid v then Inl errInvalidUTF8 else Inr (n, s @ [v]))"

definition string_slice_field ::
    "int \<Rightarrow> ('m \<Rightarrow> string list) \<Rightarrow> (string list \<Rightarrow> 'm \<Rightarrow> 'm) \<Rightarrow> 'm coder_field" where
  "string_slice_field num rd wr =
     (let wiretag = EncodeTag num BytesType; tagsize = SizeVarint wiretag in
      \<lparr>cf_num = num,
       cf_isNil = (\<lambda>m. rd m = []),
       cf_size = (\<lambda>m. sizeStringSlice tagsize (rd m)),
       cf_marshal = (\<lambda>b m. appendStringSliceValidateUTF8 wiretag b (rd m)),
       cf_unmarshal = (\<lambda>b wtyp depth m.
         map_sum id (\<lambda>(n, v). (n, wr v m)) (consumeStringSliceValidateUTF8 b wtyp (rd m)))\<rparr>)"

text \<open>
  Booleans and \<^verbatim>\<open>int32\<close> numbers: variable length integers, a negative number sign extended to 64
  bits. Reading has the fast paths of the tag.
\<close>

definition consume_varint_value :: "string \<Rightarrow> nat \<Rightarrow> pb_err + nat \<times> uint64" where
  "consume_varint_value b wtyp =
     (if wtyp \<noteq> VarintType then Inl errUnknown
      else case go_and (length b \<ge> 1) (map_option (\<lambda>b0. uint64_of b0 < 0x80) (index b 0)) of
        None \<Rightarrow> Inl slicePanic
      | Some True \<Rightarrow> (case index b 0 of None \<Rightarrow> Inl slicePanic | Some b0 \<Rightarrow> Inr (1, uint64_of b0))
      | Some False \<Rightarrow>
          (case go_and (length b \<ge> 2) (map_option (\<lambda>b1. uint64_of b1 < 128) (index b 1)) of
             None \<Rightarrow> Inl slicePanic
           | Some True \<Rightarrow>
               (case (index b 0, index b 1) of
                  (Some b0, Some b1) \<Rightarrow> Inr (2, (uint64_of b0 AND 0x7f) + push_bit 7 (uint64_of b1))
                | _ \<Rightarrow> Inl slicePanic)
           | Some False \<Rightarrow>
               (case ConsumeVarint b of Inl e \<Rightarrow> Inl (decode_err e) | Inr (v, n) \<Rightarrow> Inr (n, v))))"

lemma consume_varint_value_eq:
  "consume_varint_value b VarintType =
     (if length b \<ge> 1 \<and> uint64_of (b ! 0) < 0x80 then Inr (1, uint64_of (b ! 0))
      else if length b \<ge> 2 \<and> uint64_of (b ! 1) < 128 then
        Inr (2, (uint64_of (b ! 0) AND 0x7f) + push_bit 7 (uint64_of (b ! 1)))
      else case ConsumeVarint b of Inl e \<Rightarrow> Inl errDecode | Inr (v, n) \<Rightarrow> Inr (n, v))"
  using ConsumeVarint_no_panic [of b]
  by (cases b; cases "ConsumeVarint b") (auto simp: consume_varint_value_def go_slices decode_err_def)

definition sizeBoolNoZero :: "nat \<Rightarrow> bool \<Rightarrow> nat" where
  "sizeBoolNoZero tagsize v = (if v = False then 0 else tagsize + SizeVarint (EncodeBool v))"

definition appendBoolNoZero :: "uint64 \<Rightarrow> string \<Rightarrow> bool \<Rightarrow> pb_err + string" where
  "appendBoolNoZero wiretag b v =
     (if v = False then Inr b else Inr (AppendVarint (AppendVarint b wiretag) (EncodeBool v)))"

definition consumeBool :: "string \<Rightarrow> nat \<Rightarrow> pb_err + nat \<times> bool" where
  "consumeBool b wtyp = map_sum id (\<lambda>(n, v). (n, DecodeBool v)) (consume_varint_value b wtyp)"

definition bool_field :: "int \<Rightarrow> ('m \<Rightarrow> bool) \<Rightarrow> (bool \<Rightarrow> 'm \<Rightarrow> 'm) \<Rightarrow> 'm coder_field" where
  "bool_field num rd wr =
     (let wiretag = EncodeTag num VarintType; tagsize = SizeVarint wiretag in
      \<lparr>cf_num = num,
       cf_isNil = (\<lambda>m. False),
       cf_size = (\<lambda>m. sizeBoolNoZero tagsize (rd m)),
       cf_marshal = (\<lambda>b m. appendBoolNoZero wiretag b (rd m)),
       cf_unmarshal = (\<lambda>b wtyp depth m. map_sum id (\<lambda>(n, v). (n, wr v m)) (consumeBool b wtyp))\<rparr>)"

definition sizeInt32NoZero :: "nat \<Rightarrow> int32 \<Rightarrow> nat" where
  "sizeInt32NoZero tagsize v = (if v = 0 then 0 else tagsize + SizeVarint (scast v))"

definition appendInt32NoZero :: "uint64 \<Rightarrow> string \<Rightarrow> int32 \<Rightarrow> pb_err + string" where
  "appendInt32NoZero wiretag b v =
     (if v = 0 then Inr b else Inr (AppendVarint (AppendVarint b wiretag) (scast v)))"

definition consumeInt32 :: "string \<Rightarrow> nat \<Rightarrow> pb_err + nat \<times> int32" where
  "consumeInt32 b wtyp = map_sum id (\<lambda>(n, v). (n, ucast v)) (consume_varint_value b wtyp)"

definition int32_field :: "int \<Rightarrow> ('m \<Rightarrow> int32) \<Rightarrow> (int32 \<Rightarrow> 'm \<Rightarrow> 'm) \<Rightarrow> 'm coder_field" where
  "int32_field num rd wr =
     (let wiretag = EncodeTag num VarintType; tagsize = SizeVarint wiretag in
      \<lparr>cf_num = num,
       cf_isNil = (\<lambda>m. False),
       cf_size = (\<lambda>m. sizeInt32NoZero tagsize (rd m)),
       cf_marshal = (\<lambda>b m. appendInt32NoZero wiretag b (rd m)),
       cf_unmarshal = (\<lambda>b wtyp depth m. map_sum id (\<lambda>(n, v). (n, wr v m)) (consumeInt32 b wtyp))\<rparr>)"


section \<open>Coders of message fields and maps\<close>

text \<open>
  The coders of a nested message get the fields of its message type and, for reading, its zero
  value. The size is computed before the bytes are written and compared with them after.
\<close>

definition sizeMessageInfo :: "nat \<Rightarrow> 'n coder_field list \<Rightarrow> 'n option \<Rightarrow> nat" where
  "sizeMessageInfo tagsize fs p = SizeBytes (sizePointer fs p) + tagsize"

definition appendMessageInfo ::
    "uint64 \<Rightarrow> 'n coder_field list \<Rightarrow> string \<Rightarrow> 'n option \<Rightarrow> pb_err + string" where
  "appendMessageInfo wiretag fs b p =
     (let calculatedSize = sizePointer fs p;
          b = AppendVarint b wiretag;
          b = AppendVarint b (of_nat calculatedSize)
      in case marshalAppendPointer fs b p of
           Inl e \<Rightarrow> Inl e
         | Inr b' \<Rightarrow> if calculatedSize \<noteq> length b' - length b then Inl errSizeMismatch else Inr b')"

definition consumeMessageInfo ::
    "'n coder_field list \<Rightarrow> 'n \<Rightarrow> string \<Rightarrow> nat \<Rightarrow> int \<Rightarrow> 'n option \<Rightarrow> pb_err + nat \<times> 'n option" where
  "consumeMessageInfo fs zero b wtyp depth p =
     (if wtyp \<noteq> BytesType then Inl errUnknown
      else case ConsumeBytes b of
        Inl e \<Rightarrow> Inl (decode_err e)
      | Inr (v, n) \<Rightarrow>
          (case unmarshalPointer fs v (case p of None \<Rightarrow> zero | Some q \<Rightarrow> q) 0 depth of
             Inl e \<Rightarrow> Inl e
           | Inr (k, q) \<Rightarrow> Inr (n, Some q)))"

definition message_field ::
    "int \<Rightarrow> 'n coder_field list \<Rightarrow> 'n \<Rightarrow> ('m \<Rightarrow> 'n option) \<Rightarrow> ('n option \<Rightarrow> 'm \<Rightarrow> 'm) \<Rightarrow> 'm coder_field" where
  "message_field num fs zero rd wr =
     (let wiretag = EncodeTag num BytesType; tagsize = SizeVarint wiretag in
      \<lparr>cf_num = num,
       cf_isNil = (\<lambda>m. rd m = None),
       cf_size = (\<lambda>m. sizeMessageInfo tagsize fs (rd m)),
       cf_marshal = (\<lambda>b m. appendMessageInfo wiretag fs b (rd m)),
       cf_unmarshal = (\<lambda>b wtyp depth m.
         map_sum id (\<lambda>(n, v). (n, wr v m)) (consumeMessageInfo fs zero b wtyp depth (rd m)))\<rparr>)"

definition sizeMessageSliceInfo :: "nat \<Rightarrow> 'n coder_field list \<Rightarrow> 'n list \<Rightarrow> nat" where
  "sizeMessageSliceInfo tagsize fs s =
     sum_list (map (\<lambda>v. SizeBytes (sizePointer fs (Some v)) + tagsize) s)"

fun appendMessageSliceInfo ::
    "uint64 \<Rightarrow> 'n coder_field list \<Rightarrow> string \<Rightarrow> 'n list \<Rightarrow> pb_err + string" where
  "appendMessageSliceInfo wiretag fs b [] = Inr b"
| "appendMessageSliceInfo wiretag fs b (v # s) =
     (let b = AppendVarint b wiretag;
          siz = sizePointer fs (Some v);
          b = AppendVarint b (of_nat siz)
      in case marshalAppendPointer fs b (Some v) of
           Inl e \<Rightarrow> Inl e
         | Inr b' \<Rightarrow>
             if siz \<noteq> length b' - length b then Inl errSizeMismatch
             else appendMessageSliceInfo wiretag fs b' s)"

definition consumeMessageSliceInfo ::
    "'n coder_field list \<Rightarrow> 'n \<Rightarrow> string \<Rightarrow> nat \<Rightarrow> int \<Rightarrow> 'n list \<Rightarrow> pb_err + nat \<times> 'n list" where
  "consumeMessageSliceInfo fs zero b wtyp depth s =
     (if wtyp \<noteq> BytesType then Inl errUnknown
      else case ConsumeBytes b of
        Inl e \<Rightarrow> Inl (decode_err e)
      | Inr (v, n) \<Rightarrow>
          (case unmarshalPointer fs v zero 0 depth of
             Inl e \<Rightarrow> Inl e
           | Inr (k, q) \<Rightarrow> Inr (n, s @ [q])))"

definition message_slice_field ::
    "int \<Rightarrow> 'n coder_field list \<Rightarrow> 'n \<Rightarrow> ('m \<Rightarrow> 'n list) \<Rightarrow> ('n list \<Rightarrow> 'm \<Rightarrow> 'm) \<Rightarrow> 'm coder_field" where
  "message_slice_field num fs zero rd wr =
     (let wiretag = EncodeTag num BytesType; tagsize = SizeVarint wiretag in
      \<lparr>cf_num = num,
       cf_isNil = (\<lambda>m. rd m = []),
       cf_size = (\<lambda>m. sizeMessageSliceInfo tagsize fs (rd m)),
       cf_marshal = (\<lambda>b m. appendMessageSliceInfo wiretag fs b (rd m)),
       cf_unmarshal = (\<lambda>b wtyp depth m.
         map_sum id (\<lambda>(n, v). (n, wr v m)) (consumeMessageSliceInfo fs zero b wtyp depth (rd m)))\<rparr>)"

text \<open>
  String maps: one record for each entry, which holds the key as field 1 and the value as field 2.
  The order of the list stands for the iteration order of \<^verbatim>\<open>mapRange\<close>.
\<close>

definition keyWiretag :: uint64 where "keyWiretag = EncodeTag 1 BytesType"
definition valWiretag :: uint64 where "valWiretag = EncodeTag 2 BytesType"

definition sizeStringValue :: "nat \<Rightarrow> string \<Rightarrow> nat" where
  "sizeStringValue tagsize v = tagsize + SizeBytes (length v)"

definition appendStringValueValidateUTF8 :: "uint64 \<Rightarrow> string \<Rightarrow> string \<Rightarrow> pb_err + string" where
  "appendStringValueValidateUTF8 wiretag b v =
     (let b = AppendVarint b wiretag; b = AppendString b v in
      if \<not> utf8_Valid v then Inl errInvalidUTF8 else Inr b)"

definition consumeStringValueValidateUTF8 :: "string \<Rightarrow> nat \<Rightarrow> pb_err + nat \<times> string" where
  "consumeStringValueValidateUTF8 b wtyp =
     (if wtyp \<noteq> BytesType then Inl errUnknown
      else case ConsumeBytes b of
        Inl e \<Rightarrow> Inl (decode_err e)
      | Inr (v, n) \<Rightarrow> if \<not> utf8_Valid v then Inl errInvalidUTF8 else Inr (n, v))"

definition sizeMap :: "nat \<Rightarrow> dict \<Rightarrow> nat" where
  "sizeMap tagsize d =
     sum_list (map (\<lambda>(k, v). tagsize + SizeBytes (sizeStringValue 1 k + sizeStringValue 1 v)) d)"

definition appendMapItem :: "string \<Rightarrow> string \<Rightarrow> string \<Rightarrow> pb_err + string" where
  "appendMapItem b key val =
     (let size = sizeStringValue 1 key + sizeStringValue 1 val;
          b = AppendVarint b (of_nat size)
      in case appendStringValueValidateUTF8 keyWiretag b key of
           Inl e \<Rightarrow> Inl e
         | Inr b1 \<Rightarrow>
             (case appendStringValueValidateUTF8 valWiretag b1 val of
                Inl e \<Rightarrow> Inl e
              | Inr b2 \<Rightarrow> if size \<noteq> length b2 - length b then Inl errSizeMismatch else Inr b2))"

fun appendMap :: "uint64 \<Rightarrow> string \<Rightarrow> dict \<Rightarrow> pb_err + string" where
  "appendMap wiretag b [] = Inr b"
| "appendMap wiretag b ((key, val) # d) =
     (let b = AppendVarint b wiretag in
      case appendMapItem b key val of Inl e \<Rightarrow> Inl e | Inr b \<Rightarrow> appendMap wiretag b d)"

text \<open>The loop of \<^verbatim>\<open>consumeMap\<close> over the fields of one entry.\<close>

definition consume_entry_field ::
    "string \<Rightarrow> int \<Rightarrow> nat \<Rightarrow> string \<Rightarrow> string \<Rightarrow> pb_err + nat \<times> string \<times> string" where
  "consume_entry_field b num wtyp key val =
     (let r = (if num = 1 then
                 map_sum id (\<lambda>(n, v). (n, v, val)) (consumeStringValueValidateUTF8 b wtyp)
               else if num = 2 then
                 map_sum id (\<lambda>(n, v). (n, key, v)) (consumeStringValueValidateUTF8 b wtyp)
               else Inl errUnknown)
      in case r of
           Inr x \<Rightarrow> Inr x
         | Inl err \<Rightarrow>
             if err = errUnknown then
               (case ConsumeFieldValue num wtyp b of
                  Inl e \<Rightarrow> Inl (decode_err e)
                | Inr n \<Rightarrow> Inr (n, key, val))
             else Inl err)"

function consume_entry :: "string \<Rightarrow> string \<Rightarrow> string \<Rightarrow> pb_err + string \<times> string" where
  "consume_entry b key val =
     (if b = [] then Inr (key, val)
      else case ConsumeTag b of
        Inl e \<Rightarrow> Inl (decode_err e)
      | Inr (num, wtyp, n) \<Rightarrow>
          if num > MaxValidNumber then Inl errDecode
          else case slice_from b n of
            None \<Rightarrow> Inl slicePanic
          | Some b1 \<Rightarrow>
              (case consume_entry_field b1 num wtyp key val of
                 Inl e \<Rightarrow> Inl e
               | Inr (k, key', val') \<Rightarrow>
                   (case slice_from b1 k of
                      None \<Rightarrow> Inl slicePanic
                    | Some b2 \<Rightarrow> consume_entry b2 key' val')))"
  by pat_completeness auto

termination
  by (relation "measure (\<lambda>(b, key, val). length b)")
     (auto simp: slice_from_def split: if_splits dest!: ConsumeTag_length)

declare consume_entry.simps [simp del]

text \<open>\<^verbatim>\<open>SetMapIndex\<close>: the entry replaces one with the same key.\<close>

fun SetMapIndex :: "dict \<Rightarrow> string \<Rightarrow> string \<Rightarrow> dict" where
  "SetMapIndex [] key val = [(key, val)]"
| "SetMapIndex ((k, v) # d) key val = (if k = key then (k, val) # d else (k, v) # SetMapIndex d key val)"

definition consumeMap :: "string \<Rightarrow> nat \<Rightarrow> dict \<Rightarrow> pb_err + nat \<times> dict" where
  "consumeMap b wtyp mapv =
     (if wtyp \<noteq> BytesType then Inl errUnknown
      else case ConsumeBytes b of
        Inl e \<Rightarrow> Inl (decode_err e)
      | Inr (v, n) \<Rightarrow>
          (case consume_entry v [] [] of
             Inl e \<Rightarrow> Inl e
           | Inr (key, val) \<Rightarrow> Inr (n, SetMapIndex mapv key val)))"

definition map_field :: "int \<Rightarrow> ('m \<Rightarrow> dict) \<Rightarrow> (dict \<Rightarrow> 'm \<Rightarrow> 'm) \<Rightarrow> 'm coder_field" where
  "map_field num rd wr =
     (let wiretag = EncodeTag num BytesType; tagsize = SizeVarint wiretag in
      \<lparr>cf_num = num,
       cf_isNil = (\<lambda>m. rd m = []),
       cf_size = (\<lambda>m. sizeMap tagsize (rd m)),
       cf_marshal = (\<lambda>b m. appendMap wiretag b (rd m)),
       cf_unmarshal = (\<lambda>b wtyp depth m. map_sum id (\<lambda>(n, v). (n, wr v m)) (consumeMap b wtyp (rd m)))\<rparr>)"


section \<open>Whole messages\<close>

text \<open>\<^verbatim>\<open>proto.Marshal\<close> and \<^verbatim>\<open>proto.Unmarshal\<close>, which resets the message first.\<close>

definition proto_Marshal :: "'m coder_field list \<Rightarrow> 'm \<Rightarrow> pb_err + string" where
  "proto_Marshal fs m = marshalAppendPointer fs [] (Some m)"

definition proto_Unmarshal :: "'m coder_field list \<Rightarrow> 'm \<Rightarrow> string \<Rightarrow> pb_err + 'm" where
  "proto_Unmarshal fs zero b = map_sum id snd (unmarshalPointer fs b zero 0 DefaultRecursionLimit)"

end
