(* ===== verification/Wire_Laws.thy ===== *)
theory Wire_Laws
  imports Wire_Coders
begin

text \<open>
  What the coders promise, as laws that compose: a coder appends the bytes of its field and knows
  their number, and the reading loop takes these bytes back into the message, whatever follows. The
  interface between the fields and a message is the locale \<^verbatim>\<open>message_coder\<close>: from the laws of the
  fields it derives the round trip of the whole message, for each message once.
\<close>

lemma sum_list_cong:
  "(\<And>x. x \<in> set xs \<Longrightarrow> f x = g x) \<Longrightarrow> sum_list (map f xs) = sum_list (map g xs)"
  by (induction xs) simp_all

section \<open>Fast paths\<close>

lemma uint64_of_less: "uint64_of (char_of (n :: nat)) < 0x80 \<longleftrightarrow> n mod 256 < 128"
proof -
  have "n mod 256 < 2 ^ 64"
    using mod_less_divisor [of 256 n] by (rule less_trans) simp_all
  then show ?thesis
    by (simp add: uint64_of_def word_less_nat_alt unat_of_nat)
qed

lemma of_nat_two_bytes: "of_nat (n mod 128) + push_bit 7 (of_nat (n div 128)) = (of_nat n :: uint64)"
proof -
  have "(of_nat n :: uint64) = of_nat (n mod 128) + of_nat (n div 128) * 128"
    by (metis mod_div_mult_eq of_nat_add of_nat_mult of_nat_numeral)
  then show ?thesis
    by (simp add: push_bit_eq_mult)
qed

lemma mask_more: "n < 128 \<Longrightarrow> uint64_of (char_of (n + 128 :: nat)) AND 0x7f = of_nat n"
proof -
  assume n: "n < 128"
  have "uint64_of (char_of (n + 128)) AND 0x7f = take_bit 7 (of_nat (n + 128))"
    using n by (simp add: uint64_of_char_of take_bit_eq_mask mask_eq_exp_minus_1 del: of_nat_add)
  also have "\<dots> = of_nat (take_bit 7 (n + 128))"
    by (simp only: take_bit_of_nat)
  also have "take_bit 7 (n + 128) = n"
    using n by (simp add: take_bit_eq_mod)
  finally show ?thesis .
qed

text \<open>One or two bytes are read directly, longer encodings by \<^verbatim>\<open>ConsumeVarint\<close>, with one result.\<close>

lemma fast_varint:
  assumes "n < 2 ^ 64" "b = varint n @ rest"
  shows "(if uint64_of (b ! 0) < 0x80 then Inr (uint64_of (b ! 0), 1)
          else if length b \<ge> 2 \<and> uint64_of (b ! 1) < 128 then
            Inr ((uint64_of (b ! 0) AND 0x7f) + push_bit 7 (uint64_of (b ! 1)), 2)
          else ConsumeVarint b) = Inr (of_nat n, length (varint n))"
proof -
  consider "n < 128" | "128 \<le> n" "n < 16384" | "16384 \<le> n"
    by linarith
  then show ?thesis
  proof cases
    case 1
    then show ?thesis
      using uint64_of_less [of n] by (simp add: assms(2) varint_small uint64_of_char_of)
  next
    case 2
    then have v: "varint n = [char_of (n mod 128 + 128), char_of (n div 128)]" "n div 128 < 128"
      by (auto simp: varint_more varint_small)
    then have "(uint64_of (char_of (n mod 128 + 128)) AND 0x7f) + push_bit 7 (uint64_of (char_of (n div 128))) = of_nat n"
      using of_nat_two_bytes [of n] mask_more [of "n mod 128"] uint64_of_char_of [of "n div 128"] by simp
    then show ?thesis
      using v by (simp add: assms(2) uint64_of_less)
  next
    case 3
    then have "varint n = char_of (n mod 128 + 128) # char_of (n div 128 mod 128 + 128) # varint (n div 128 div 128)"
      using varint_more [of n] varint_more [of "n div 128"] by simp
    moreover have "k mod 128 + 128 < 256" for k :: nat
      using mod_less_divisor [of 128 k] by simp
    ultimately show ?thesis
      using ConsumeVarint_varint [OF assms(1), of rest] by (simp add: assms(2) uint64_of_less)
  qed
qed

lemma unmarshal_tag_varint: "n < 2 ^ 64 \<Longrightarrow> unmarshal_tag (varint n @ rest) = Inr (of_nat n, rest)"
  using fast_varint [of n "varint n @ rest" rest]
  by (auto simp: unmarshal_tag_eq split: if_splits sum.splits)

lemma consume_varint_value_varint:
  "n < 2 ^ 64 \<Longrightarrow> consume_varint_value (varint n @ rest) VarintType = Inr (length (varint n), of_nat n)"
  using fast_varint [of n "varint n @ rest" rest] length_greater_0_conv [of "varint n"]
  by (auto simp: consume_varint_value_eq Suc_le_eq split: if_splits sum.splits)


section \<open>Writing and reading a field\<close>

text \<open>The coder of a field appends the bytes \<^term>\<open>e\<close> for a message, and its size is their number.\<close>

definition encodes :: "'m coder_field \<Rightarrow> 'm \<Rightarrow> string \<Rightarrow> bool" where
  "encodes f m e \<longleftrightarrow>
     (if cf_isNil f m then e = []
      else (\<forall>b. cf_marshal f b m = Inr (b @ e)) \<and> cf_size f m = length e)"

text \<open>The reading loop takes the bytes \<^term>\<open>e\<close> from message \<^term>\<open>s\<close> to message \<^term>\<open>s'\<close>, whatever follows.\<close>

definition decodes :: "'m coder_field list \<Rightarrow> int \<Rightarrow> string \<Rightarrow> 'm \<Rightarrow> 'm \<Rightarrow> bool" where
  "decodes fs depth e s s' \<longleftrightarrow>
     (\<forall>rest groupTag. length e + length rest < 2 ^ 63 \<longrightarrow>
        unmarshal_loop fs (e @ rest) s groupTag depth = unmarshal_loop fs rest s' groupTag depth)"

lemma decodes_Nil: "decodes fs depth [] s s"
  by (simp add: decodes_def)

lemma decodes_append:
  "decodes fs depth e1 s s1 \<Longrightarrow> decodes fs depth e2 s1 s2 \<Longrightarrow> decodes fs depth (e1 @ e2) s s2"
  by (simp add: decodes_def)

lemma decodes_concat:
  assumes "\<And>i. i < length es \<Longrightarrow> decodes fs depth (es ! i) (p i) (p (Suc i))"
  shows "decodes fs depth (concat es) (p 0) (p (length es))"
  using assms
proof (induction es rule: rev_induct)
  case (snoc e es)
  have "decodes fs depth (concat es) (p 0) (p (length es))"
    by (rule snoc.IH) (metis snoc.prems nth_append length_append_singleton less_SucI)
  moreover have "decodes fs depth e (p (length es)) (p (Suc (length es)))"
    using snoc.prems [of "length es"] by simp
  ultimately show ?case
    by (simp add: decodes_append)
qed (simp add: decodes_Nil)

lemma unmarshal_loop_Nil [simp]: "unmarshal_loop fs [] m groupTag depth = Inr ([], m, groupTag)"
  by (subst unmarshal_loop.simps) simp

lemma decodes_all:
  assumes "decodes fs depth e s s'" "length e < 2 ^ 63"
  shows "unmarshal_loop fs e s groupTag depth = Inr ([], s', groupTag)"
  using assms(1) [unfolded decodes_def, rule_format, of "[]" groupTag] assms(2) by simp

text \<open>A tag and a payload.\<close>

definition tagged :: "int \<Rightarrow> nat \<Rightarrow> string \<Rightarrow> string" where
  "tagged num wtyp p = varint (unat (EncodeTag num wtyp)) @ p"

definition block :: "string \<Rightarrow> string" where
  "block v = varint (length v) @ v"

lemma length_tagged: "length (tagged num wtyp p) = SizeVarint (EncodeTag num wtyp) + length p"
  by (simp add: tagged_def SizeVarint_exact)

lemma length_block: "length v < 2 ^ 63 \<Longrightarrow> length (block v) = SizeBytes (length v)"
  by (simp add: block_def SizeBytes_exact)

lemma AppendVarint_tag: "AppendVarint b (EncodeTag num wtyp) @ p = b @ tagged num wtyp p"
  by (simp add: tagged_def AppendVarint_eq)

lemma ConsumeBytes_block:
  "length (block v) + length rest < 2 ^ 63 \<Longrightarrow> ConsumeBytes (block v @ rest) = Inr (v, length (block v))"
  using ConsumeBytes_varint [of v rest] by (simp add: block_def)

lemma decodes_tagged:
  assumes num: "1 \<le> num" "num \<le> MaxValidNumber" and w: "wtyp < 8" "wtyp \<noteq> EndGroupType"
    and f: "find (\<lambda>f. cf_num f = num) fs = Some f"
    and un: "\<And>rest. length p + length rest < 2 ^ 63 \<Longrightarrow>
      cf_unmarshal f (p @ rest) wtyp depth s = Inr (length p, s')"
  shows "decodes fs depth (tagged num wtyp p) s s'"
  unfolding decodes_def
proof (intro allI impI)
  fix rest :: string and groupTag
  assume len: "length (tagged num wtyp p) + length rest < 2 ^ 63"
  have t: "unat (EncodeTag num wtyp) < 2 ^ 64"
    using unsigned_less [of "EncodeTag num wtyp"] by simp
  have "unmarshal_field fs (p @ rest) num wtyp depth s = Inr (length p, s')"
    using un [of rest] len by (simp add: unmarshal_field_def f length_tagged)
  then show "unmarshal_loop fs (tagged num wtyp p @ rest) s groupTag depth =
      unmarshal_loop fs rest s' groupTag depth"
    using unmarshal_tag_varint [OF t, of "p @ rest"] tag_parts [of num wtyp] num w
    by (subst unmarshal_loop.simps) (simp add: tagged_def Let_def MinValidNumber_def)
qed


section \<open>Messages\<close>

definition field_bytes :: "'m coder_field \<Rightarrow> 'm \<Rightarrow> string" where
  "field_bytes f m =
     (if cf_isNil f m then [] else case cf_marshal f [] m of Inl e \<Rightarrow> [] | Inr e \<Rightarrow> e)"

definition message_bytes :: "'m coder_field list \<Rightarrow> 'm \<Rightarrow> string" where
  "message_bytes fs m = concat (map (\<lambda>f. field_bytes f m) fs)"

lemma encodes_field_bytes: "encodes f m e \<Longrightarrow> field_bytes f m = e"
  by (simp add: encodes_def field_bytes_def split: if_splits)

definition carries :: "'m coder_field list \<Rightarrow> int \<Rightarrow> 'm coder_field \<Rightarrow> 'm \<Rightarrow> 'm \<Rightarrow> 'm \<Rightarrow> bool" where
  "carries fs nesting f m s s' \<longleftrightarrow>
     (\<exists>e. encodes f m e \<and> (\<forall>depth \<ge> nesting. decodes fs depth e s s'))"

lemma carries_field_bytes:
  assumes "carries fs nesting f m s s'"
  shows "encodes f m (field_bytes f m)"
    and "nesting \<le> depth \<Longrightarrow> decodes fs depth (field_bytes f m) s s'"
proof -
  obtain e where e: "encodes f m e" "\<forall>depth \<ge> nesting. decodes fs depth e s s'"
    using assms by (auto simp: carries_def)
  then show "encodes f m (field_bytes f m)" "nesting \<le> depth \<Longrightarrow> decodes fs depth (field_bytes f m) s s'"
    by (simp_all add: encodes_field_bytes [OF e(1)])
qed

text \<open>
  A field carries its value when the loop that decodes the bytes written for it copies it into the
  message. \<^verbatim>\<open>partial i m\<close> is the message that has the first \<^verbatim>\<open>i\<close> fields of \<^verbatim>\<open>m\<close> and is zero
  elsewhere; \<^verbatim>\<open>nesting\<close> is how deep the messages below this one are nested.
\<close>

locale message_coder =
  fixes fs :: "'m coder_field list"
    and zero :: 'm
    and partial :: "nat \<Rightarrow> 'm \<Rightarrow> 'm"
    and valid :: "'m \<Rightarrow> bool"
    and nesting :: int
  assumes nesting: "0 \<le> nesting"
    and partial_zero: "partial 0 m = zero"
    and partial_all: "partial (length fs) m = m"
    and valid_size: "valid m \<Longrightarrow> sizePointer fs (Some m) < 2 ^ 63"
    and field_carries: "valid m \<Longrightarrow> i < length fs \<Longrightarrow>
      carries fs nesting (fs ! i) m (partial i m) (partial (Suc i) m)"
begin

lemma field_encodes: "valid m \<Longrightarrow> f \<in> set fs \<Longrightarrow> encodes f m (field_bytes f m)"
  by (metis carries_field_bytes(1) field_carries in_set_conv_nth)

lemma field_decodes:
  "valid m \<Longrightarrow> i < length fs \<Longrightarrow> nesting \<le> depth \<Longrightarrow>
   decodes fs depth (field_bytes (fs ! i) m) (partial i m) (partial (Suc i) m)"
  by (rule carries_field_bytes(2) [OF field_carries])

lemma size_exact:
  assumes "valid m"
  shows "sizePointer fs (Some m) = length (message_bytes fs m)"
proof -
  have "sum_list (map (\<lambda>f. if cf_isNil f m then 0 else cf_size f m) fs) =
      sum_list (map (\<lambda>f. length (field_bytes f m)) fs)"
    using field_encodes [OF assms] by (intro sum_list_cong) (auto simp: encodes_def split: if_splits)
  then show ?thesis
    by (simp add: message_bytes_def length_concat comp_def)
qed

lemma bytes_bound: "valid m \<Longrightarrow> length (message_bytes fs m) < 2 ^ 63"
  using valid_size size_exact by simp

lemma marshal_exact:
  assumes "valid m"
  shows "marshalAppendPointer fs b (Some m) = Inr (b @ message_bytes fs m)"
proof -
  have "marshal_fields gs b m = Inr (b @ message_bytes gs m)" if "set gs \<subseteq> set fs" for gs
    using that
  proof (induction gs arbitrary: b)
    case (Cons g gs)
    then have "encodes g m (field_bytes g m)"
      using field_encodes [OF assms] by simp
    then show ?case
      using Cons by (auto simp: encodes_def message_bytes_def split: if_splits)
  qed (simp add: message_bytes_def)
  then show ?thesis
    by simp
qed

lemma message_decodes:
  assumes "valid m" "nesting \<le> depth"
  shows "decodes fs depth (message_bytes fs m) zero m"
  using decodes_concat [of "map (\<lambda>f. field_bytes f m) fs" fs depth "\<lambda>i. partial i m"]
    field_decodes [OF assms(1) _ assms(2)]
  by (simp add: message_bytes_def partial_zero partial_all)

lemma unmarshal_exact:
  assumes "valid m" "nesting < depth"
  shows "unmarshalPointer fs (message_bytes fs m) zero 0 depth = Inr (length (message_bytes fs m), m)"
proof -
  have "decodes fs (depth - 1) (message_bytes fs m) zero m"
    using message_decodes [OF assms(1)] assms(2) by simp
  then have "unmarshal_loop fs (message_bytes fs m) zero 0 (depth - 1) = Inr ([], m, 0)"
    using bytes_bound [OF assms(1)] by (simp add: decodes_all)
  then show ?thesis
    using assms(2) nesting by (simp add: unmarshalPointer_def)
qed

text \<open>What is marshalled is unmarshalled to the same message.\<close>

theorem round_trip:
  assumes "valid m" "nesting < DefaultRecursionLimit"
  shows "\<exists>b. proto_Marshal fs m = Inr b \<and> proto_Unmarshal fs zero b = Inr m"
  using marshal_exact [OF assms(1), of "[]"] unmarshal_exact [OF assms]
  by (simp add: proto_Marshal_def proto_Unmarshal_def)

end


section \<open>The laws of the coders\<close>

text \<open>A field is no larger than the message.\<close>

definition fits :: "'m coder_field list \<Rightarrow> 'm \<Rightarrow> bool" where
  "fits fs m \<longleftrightarrow> sizePointer fs (Some m) < 2 ^ 63"

lemma sum_list_member: "x \<in> set xs \<Longrightarrow> f x \<le> sum_list (map f xs)" for f :: "'a \<Rightarrow> nat"
  by (simp add: member_le_sum_list)

lemma fits_field: "fits fs m \<Longrightarrow> f \<in> set fs \<Longrightarrow> \<not> cf_isNil f m \<Longrightarrow> cf_size f m < 2 ^ 63"
  using sum_list_member [of f fs "\<lambda>f. if cf_isNil f m then 0 else cf_size f m"] by (simp add: fits_def)

text \<open>The coder of a field number.\<close>

definition field_at :: "'m coder_field list \<Rightarrow> int \<Rightarrow> 'm coder_field \<Rightarrow> bool" where
  "field_at fs num f \<longleftrightarrow>
     find (\<lambda>f. cf_num f = num) fs = Some f \<and> f \<in> set fs \<and> 1 \<le> num \<and> num \<le> MaxValidNumber"

lemmas field_defs = string_field_def optional_string_field_def string_slice_field_def bool_field_def
  int32_field_def message_field_def message_slice_field_def map_field_def Let_def

lemma append_string_tagged:
  "length v < 2 ^ 63 \<Longrightarrow>
   AppendString (AppendVarint b (EncodeTag num wtyp)) v = b @ tagged num wtyp (block v)"
  by (simp add: AppendString_eq AppendVarint_eq tagged_def block_def)

lemma SizeBytes_ge: "n \<le> SizeBytes n"
  by (simp add: SizeBytes_def)

text \<open>Strings and optional strings.\<close>

lemma string_field_encodes:
  assumes "utf8_Valid (rd m)" "cf_size (string_field num rd wr) m < 2 ^ 63"
  shows "encodes (string_field num rd wr) m
           (if rd m = [] then [] else tagged num BytesType (block (rd m)))"
proof -
  have "length (rd m) < 2 ^ 63"
    using assms(2) SizeBytes_ge [of "length (rd m)"]
    by (auto simp: field_defs sizeStringNoZero_def split: if_splits)
  then show ?thesis
    using assms(1)
    by (simp add: encodes_def field_defs sizeStringNoZero_def appendStringNoZeroValidateUTF8_def
        append_string_tagged length_tagged length_block)
qed

lemma string_field_decodes:
  assumes "find (\<lambda>f. cf_num f = num) fs = Some (string_field num rd wr)"
    and "1 \<le> num" "num \<le> MaxValidNumber" "utf8_Valid v"
  shows "decodes fs depth (tagged num BytesType (block v)) s (wr v s)"
  by (rule decodes_tagged [OF assms(2,3) _ _ assms(1)])
     (use assms(4) in \<open>simp_all add: field_defs consumeStringValidateUTF8_def ConsumeBytes_block wire_types\<close>)

lemma optional_string_field_encodes:
  assumes "pred_option utf8_Valid (rd m)"
    and "rd m \<noteq> None \<Longrightarrow> cf_size (optional_string_field num rd wr) m < 2 ^ 63"
  shows "encodes (optional_string_field num rd wr) m
           (case rd m of None \<Rightarrow> [] | Some v \<Rightarrow> tagged num BytesType (block v))"
proof (cases "rd m")
  case (Some v)
  have "length v < 2 ^ 63"
    using assms(2) Some SizeBytes_ge [of "length v"] by (simp add: field_defs sizeStringPtr_def)
  then show ?thesis
    using assms(1) Some
    by (simp add: encodes_def field_defs sizeStringPtr_def appendStringPtrValidateUTF8_def
        append_string_tagged length_tagged length_block)
qed (simp add: encodes_def field_defs)

lemma optional_string_field_decodes:
  assumes "find (\<lambda>f. cf_num f = num) fs = Some (optional_string_field num rd wr)"
    and "1 \<le> num" "num \<le> MaxValidNumber" "utf8_Valid v"
  shows "decodes fs depth (tagged num BytesType (block v)) s (wr (Some v) s)"
  by (rule decodes_tagged [OF assms(2,3) _ _ assms(1)])
     (use assms(4) in \<open>simp_all add: field_defs consumeStringPtrValidateUTF8_def ConsumeBytes_block wire_types\<close>)

text \<open>Booleans and numbers.\<close>

lemma bool_field_encodes:
  "encodes (bool_field num rd wr) m (if rd m then tagged num VarintType (varint 1) else [])"
  by (simp add: encodes_def field_defs sizeBoolNoZero_def appendBoolNoZero_def EncodeBool_def
      AppendVarint_eq tagged_def SizeVarint_exact)

lemma bool_field_decodes:
  assumes "find (\<lambda>f. cf_num f = num) fs = Some (bool_field num rd wr)"
    and "1 \<le> num" "num \<le> MaxValidNumber"
  shows "decodes fs depth (tagged num VarintType (varint 1)) s (wr True s)"
  by (rule decodes_tagged [OF assms(2,3) _ _ assms(1)])
     (simp_all add: field_defs consumeBool_def consume_varint_value_varint DecodeBool_def wire_types
        consume_varint_value_varint [unfolded wire_types])

lemma int32_field_encodes:
  "encodes (int32_field num rd wr) m
     (if rd m = 0 then [] else tagged num VarintType (varint (unat (scast (rd m) :: uint64))))"
  by (simp add: encodes_def field_defs sizeInt32NoZero_def appendInt32NoZero_def
      AppendVarint_eq tagged_def SizeVarint_exact)

lemma ucast_scast_32: "ucast (scast (v :: int32) :: uint64) = v"
  by (rule bit_word_eqI) (simp add: bit_simps)

lemma int32_field_decodes:
  assumes "find (\<lambda>f. cf_num f = num) fs = Some (int32_field num rd wr)"
    and "1 \<le> num" "num \<le> MaxValidNumber"
  shows "decodes fs depth (tagged num VarintType (varint (unat (scast v :: uint64)))) s (wr v s)"
proof (rule decodes_tagged [OF assms(2,3) _ _ assms(1)])
  have "unat (scast v :: uint64) < 2 ^ 64"
    using unsigned_less [of "scast v :: uint64"] by simp
  then show "cf_unmarshal (int32_field num rd wr) (varint (unat (scast v :: uint64)) @ rest) VarintType depth s =
      Inr (length (varint (unat (scast v :: uint64))), wr v s)" for rest
    by (simp add: field_defs consumeInt32_def consume_varint_value_varint ucast_scast_32)
qed (simp_all add: wire_types)


section \<open>Fields that collect records\<close>

text \<open>
  Repeated fields and maps are filled record by record: reader and writer of the struct field must
  be those of one field.
\<close>

locale struct_field =
  fixes rd :: "'m \<Rightarrow> 'a list"
    and wr :: "'a list \<Rightarrow> 'm \<Rightarrow> 'm"
  assumes rd_wr [simp]: "rd (wr x s) = x"
    and wr_wr [simp]: "wr x (wr y s) = wr x s"
begin

lemma decodes_each:
  assumes "\<And>pre q. prefix (pre @ [q]) qs \<Longrightarrow>
      decodes fs depth (e q) (wr pre s) (wr (pre @ [q]) s)"
  shows "decodes fs depth (concat (map e qs)) (wr [] s) (wr qs s)"
  using assms
proof (induction qs rule: rev_induct)
  case (snoc q qs)
  have "decodes fs depth (concat (map e qs)) (wr [] s) (wr qs s)"
    by (rule snoc.IH) (simp add: snoc.prems)
  then show ?case
    using snoc.prems [of qs q] by (simp add: decodes_append)
qed (simp add: decodes_Nil)

end

text \<open>Repeated strings.\<close>

lemma append_strings:
  "\<forall>v \<in> set s. utf8_Valid v \<and> length v < 2 ^ 63 \<Longrightarrow>
   appendStringSliceValidateUTF8 (EncodeTag num BytesType) b s =
     Inr (b @ concat (map (\<lambda>v. tagged num BytesType (block v)) s))"
  by (induction s arbitrary: b) (simp_all add: append_string_tagged)

lemma string_slice_field_encodes:
  assumes "\<forall>v \<in> set (rd m). utf8_Valid v"
    and "rd m \<noteq> [] \<Longrightarrow> cf_size (string_slice_field num rd wr) m < 2 ^ 63"
  shows "encodes (string_slice_field num rd wr) m
           (concat (map (\<lambda>v. tagged num BytesType (block v)) (rd m)))"
proof (cases "rd m = []")
  case False
  let ?t = "SizeVarint (EncodeTag num BytesType)"
  have total: "sum_list (map (\<lambda>v. ?t + SizeBytes (length v)) (rd m)) < 2 ^ 63"
    using assms(2) [OF False] by (simp add: field_defs sizeStringSlice_def)
  have small: "length v < 2 ^ 63" if "v \<in> set (rd m)" for v
    using sum_list_member [OF that, of "\<lambda>v. ?t + SizeBytes (length v)"] total SizeBytes_ge [of "length v"]
    by linarith
  have "sum_list (map (\<lambda>v. ?t + SizeBytes (length v)) (rd m)) =
      sum_list (map (\<lambda>v. length (tagged num BytesType (block v))) (rd m))"
    using small by (intro sum_list_cong) (simp add: length_tagged length_block)
  then show ?thesis
    using assms(1) small False
    by (simp add: encodes_def field_defs append_strings sizeStringSlice_def length_concat comp_def)
qed (simp add: encodes_def field_defs)

lemma string_slice_field_decodes:
  assumes sf: "struct_field rd wr"
    and f: "find (\<lambda>f. cf_num f = num) fs = Some (string_slice_field num rd wr)"
    and num: "1 \<le> num" "num \<le> MaxValidNumber"
    and valid: "\<forall>v \<in> set qs. utf8_Valid v"
  shows "decodes fs depth (concat (map (\<lambda>v. tagged num BytesType (block v)) qs)) (wr [] s) (wr qs s)"
proof (rule struct_field.decodes_each [OF sf])
  fix pre q
  assume "prefix (pre @ [q]) qs"
  then have "utf8_Valid q"
    using valid by (auto simp: prefix_def)
  then show "decodes fs depth (tagged num BytesType (block q)) (wr pre s) (wr (pre @ [q]) s)"
    using struct_field.rd_wr [OF sf] struct_field.wr_wr [OF sf]
    by (intro decodes_tagged [OF num _ _ f])
       (simp_all add: field_defs consumeStringSliceValidateUTF8_def ConsumeBytes_block wire_types)
qed

text \<open>Nested messages, single and repeated.\<close>

context message_coder
begin

abbreviation message_block :: "'m \<Rightarrow> string" where
  "message_block q \<equiv> block (message_bytes fs q)"

lemma append_message:
  assumes "valid q"
  shows "marshalAppendPointer fs (AppendVarint (AppendVarint b (EncodeTag num wtyp)) (of_nat (sizePointer fs (Some q)))) (Some q)
           = Inr (b @ tagged num wtyp (message_block q))"
    and "length (b @ tagged num wtyp (message_block q)) -
           length (AppendVarint (AppendVarint b (EncodeTag num wtyp)) (of_nat (sizePointer fs (Some q))))
           = sizePointer fs (Some q)"
  using marshal_exact [OF assms] size_exact [OF assms] bytes_bound [OF assms]
  by (simp_all add: AppendVarint_eq tagged_def block_def unat_of_nat)

lemma length_message_block: "valid q \<Longrightarrow> length (message_block q) = SizeBytes (sizePointer fs (Some q))"
  using size_exact bytes_bound by (simp add: length_block)

lemma message_field_encodes:
  assumes "pred_option valid (rd m)"
  shows "encodes (message_field num fs zero rd wr) m
           (case rd m of None \<Rightarrow> [] | Some q \<Rightarrow> tagged num BytesType (message_block q))"
  using assms append_message
  by (cases "rd m") (simp_all add: encodes_def field_defs appendMessageInfo_def sizeMessageInfo_def
      length_tagged length_message_block)

lemma message_field_decodes:
  assumes "find (\<lambda>f. cf_num f = num) gs = Some (message_field num fs zero rd wr)"
    and "1 \<le> num" "num \<le> MaxValidNumber" "valid q" "nesting < depth" "rd s = None"
  shows "decodes gs depth (tagged num BytesType (message_block q)) s (wr (Some q) s)"
  by (rule decodes_tagged [OF assms(2,3) _ _ assms(1)])
     (use assms(6) unmarshal_exact [OF assms(4,5)] in
       \<open>simp_all add: field_defs consumeMessageInfo_def ConsumeBytes_block wire_types\<close>)

lemma append_messages:
  "\<forall>q \<in> set s. valid q \<Longrightarrow>
   appendMessageSliceInfo (EncodeTag num BytesType) fs b s =
     Inr (b @ concat (map (\<lambda>q. tagged num BytesType (message_block q)) s))"
  using append_message by (induction s arbitrary: b) (simp_all add: Let_def)

lemma message_slice_field_encodes:
  assumes "\<forall>q \<in> set (rd m). valid q"
  shows "encodes (message_slice_field num fs zero rd wr) m
           (concat (map (\<lambda>q. tagged num BytesType (message_block q)) (rd m)))"
proof -
  have "sum_list (map (\<lambda>q. SizeBytes (sizePointer fs (Some q)) + SizeVarint (EncodeTag num BytesType)) (rd m)) =
      sum_list (map (\<lambda>q. length (tagged num BytesType (message_block q))) (rd m))"
    using assms by (intro sum_list_cong) (simp add: length_tagged length_message_block del: sizePointer.simps)
  then show ?thesis
    using assms
    by (simp add: encodes_def field_defs append_messages sizeMessageSliceInfo_def length_concat comp_def
        del: sizePointer.simps)
qed

lemma message_slice_field_decodes:
  assumes sf: "struct_field rd wr"
    and f: "find (\<lambda>f. cf_num f = num) gs = Some (message_slice_field num fs zero rd wr)"
    and num: "1 \<le> num" "num \<le> MaxValidNumber"
    and valid: "\<forall>q \<in> set qs. valid q" and depth: "nesting < depth"
  shows "decodes gs depth (concat (map (\<lambda>q. tagged num BytesType (message_block q)) qs)) (wr [] s) (wr qs s)"
proof (rule struct_field.decodes_each [OF sf])
  fix pre q
  assume "prefix (pre @ [q]) qs"
  then have "valid q"
    using valid by (auto simp: prefix_def)
  then show "decodes gs depth (tagged num BytesType (message_block q)) (wr pre s) (wr (pre @ [q]) s)"
    using struct_field.rd_wr [OF sf] struct_field.wr_wr [OF sf] unmarshal_exact [OF _ depth]
    by (intro decodes_tagged [OF num _ _ f])
       (simp_all add: field_defs consumeMessageSliceInfo_def ConsumeBytes_block wire_types)
qed

end

text \<open>Maps.\<close>

definition entry_bytes :: "string \<times> string \<Rightarrow> string" where
  "entry_bytes kv = tagged 1 BytesType (block (fst kv)) @ tagged 2 BytesType (block (snd kv))"

lemma entry_tag_sizes: "SizeVarint (EncodeTag 1 BytesType) = 1" "SizeVarint (EncodeTag 2 BytesType) = 1"
  by code_simp+

lemma length_entry_bytes:
  "length k < 2 ^ 63 \<Longrightarrow> length v < 2 ^ 63 \<Longrightarrow>
   length (entry_bytes (k, v)) = sizeStringValue 1 k + sizeStringValue 1 v"
  by (simp add: entry_bytes_def length_tagged length_block entry_tag_sizes sizeStringValue_def)

lemma append_value:
  "utf8_Valid v \<Longrightarrow> length v < 2 ^ 63 \<Longrightarrow>
   appendStringValueValidateUTF8 (EncodeTag num BytesType) b v = Inr (b @ tagged num BytesType (block v))"
  by (simp add: appendStringValueValidateUTF8_def append_string_tagged)

lemma appendMapItem_eq:
  assumes "utf8_Valid k" "utf8_Valid v" "sizeStringValue 1 k + sizeStringValue 1 v < 2 ^ 63"
  shows "appendMapItem b k v = Inr (b @ block (entry_bytes (k, v)))"
proof -
  have "length k < 2 ^ 63" "length v < 2 ^ 63"
    using assms(3) SizeBytes_ge [of "length k"] SizeBytes_ge [of "length v"]
    by (auto simp: sizeStringValue_def)
  then show ?thesis
    using assms length_entry_bytes [of k v]
    by (simp add: appendMapItem_def keyWiretag_def valWiretag_def append_value AppendVarint_eq
        block_def [of "tagged 1 BytesType (block k) @ tagged 2 BytesType (block v)"] unat_of_nat entry_bytes_def)
qed

definition entry_ok :: "string \<times> string \<Rightarrow> bool" where
  "entry_ok kv \<longleftrightarrow> utf8_Valid (fst kv) \<and> utf8_Valid (snd kv)"

lemma appendMap_eq:
  "\<forall>kv \<in> set d. entry_ok kv \<and> sizeStringValue 1 (fst kv) + sizeStringValue 1 (snd kv) < 2 ^ 63 \<Longrightarrow>
   appendMap (EncodeTag num BytesType) b d =
     Inr (b @ concat (map (\<lambda>kv. tagged num BytesType (block (entry_bytes kv))) d))"
proof (induction d arbitrary: b)
  case (Cons kv d)
  then show ?case
    by (cases kv) (simp add: appendMapItem_eq entry_ok_def AppendVarint_eq tagged_def)
qed simp

lemma map_field_encodes:
  assumes "\<forall>kv \<in> set (rd m). entry_ok kv"
    and "rd m \<noteq> [] \<Longrightarrow> cf_size (map_field num rd wr) m < 2 ^ 63"
  shows "encodes (map_field num rd wr) m
           (concat (map (\<lambda>kv. tagged num BytesType (block (entry_bytes kv))) (rd m)))"
proof (cases "rd m = []")
  case False
  let ?t = "SizeVarint (EncodeTag num BytesType)"
  let ?e = "\<lambda>kv. sizeStringValue 1 (fst kv) + sizeStringValue 1 (snd kv)"
  have total: "sum_list (map (\<lambda>kv. ?t + SizeBytes (?e kv)) (rd m)) < 2 ^ 63"
    using assms(2) [OF False] by (simp add: field_defs sizeMap_def case_prod_unfold)
  have small: "?e kv < 2 ^ 63" if "kv \<in> set (rd m)" for kv
    using sum_list_member [OF that, of "\<lambda>kv. ?t + SizeBytes (?e kv)"] total SizeBytes_ge [of "?e kv"]
    by linarith
  have len: "length (entry_bytes kv) = ?e kv" if "?e kv < 2 ^ 63" for kv
    using that SizeBytes_ge [of "length (fst kv)"] SizeBytes_ge [of "length (snd kv)"]
    by (cases kv) (auto simp: sizeStringValue_def length_entry_bytes)
  have "sum_list (map (\<lambda>kv. ?t + SizeBytes (?e kv)) (rd m)) =
      sum_list (map (\<lambda>kv. length (tagged num BytesType (block (entry_bytes kv)))) (rd m))"
    using small by (intro sum_list_cong) (simp add: length_tagged length_block len)
  then show ?thesis
    using assms(1) small False
    by (simp add: encodes_def field_defs appendMap_eq sizeMap_def length_concat comp_def case_prod_unfold)
qed (simp add: encodes_def field_defs)

lemma consume_entry_bytes:
  assumes "entry_ok (k, v)" "length (entry_bytes (k, v)) < 2 ^ 63"
  shows "consume_entry (entry_bytes (k, v)) [] [] = Inr (k, v)"
proof -
  have step: "consume_entry (tagged num BytesType (block x) @ rest) key val =
      consume_entry rest (if num = 1 then x else key) (if num = 2 then x else val)"
    if "num = 1 \<or> num = 2" "utf8_Valid x" "length (block x) + length rest < 2 ^ 63" for num x rest key val
    using that ConsumeTag_varint [of num BytesType "block x @ rest"] ConsumeBytes_block [of x rest]
    by (subst consume_entry.simps)
       (auto simp: tagged_def consume_entry_field_def consumeStringValueValidateUTF8_def
          MaxValidNumber_def wire_types)
  have "length (block k) + length (tagged 2 BytesType (block v)) < 2 ^ 63" "length (block v) < 2 ^ 63"
    using assms(2) by (simp_all add: entry_bytes_def length_tagged)
  then show ?thesis
    using assms(1) step [of 1 k "tagged 2 BytesType (block v)" "[]" "[]"] step [of 2 v "[]" k "[]"]
    by (simp add: entry_bytes_def entry_ok_def consume_entry.simps [of "[]"])
qed

lemma SetMapIndex_new: "k \<notin> fst ` set d \<Longrightarrow> SetMapIndex d k v = d @ [(k, v)]"
  by (induction d k v rule: SetMapIndex.induct) auto

lemma map_field_decodes:
  assumes sf: "struct_field rd wr"
    and f: "find (\<lambda>f. cf_num f = num) fs = Some (map_field num rd wr)"
    and num: "1 \<le> num" "num \<le> MaxValidNumber"
    and ok: "\<forall>kv \<in> set d. entry_ok kv" "distinct (map fst d)"
  shows "decodes fs depth (concat (map (\<lambda>kv. tagged num BytesType (block (entry_bytes kv))) d)) (wr [] s) (wr d s)"
proof (rule struct_field.decodes_each [OF sf])
  fix pre kv
  assume "prefix (pre @ [kv]) d"
  then obtain post where d: "d = pre @ kv # post"
    by (auto simp: prefix_def)
  obtain k v where kv: "kv = (k, v)"
    by (cases kv)
  have new: "k \<notin> fst ` set pre"
    using ok(2) by (auto simp: d kv)
  have c: "length (block (entry_bytes kv)) + length rest < 2 ^ 63 \<Longrightarrow>
      consume_entry (entry_bytes kv) [] [] = Inr (k, v)" for rest :: string
    unfolding kv by (rule consume_entry_bytes) (use ok(1) in \<open>simp_all add: d kv block_def\<close>)
  show "decodes fs depth (tagged num BytesType (block (entry_bytes kv))) (wr pre s) (wr (pre @ [kv]) s)"
    using struct_field.rd_wr [OF sf] struct_field.wr_wr [OF sf] c
    by (intro decodes_tagged [OF num _ _ f])
       (simp_all add: field_defs consumeMap_def ConsumeBytes_block wire_types SetMapIndex_new [OF new] kv)
qed


section \<open>What each kind of field carries\<close>

lemma string_field_carries:
  assumes "field_at fs num (string_field num rd wr)" "utf8_Valid (rd m)" "fits fs m"
    and "s' = (if rd m = [] then s else wr (rd m) s)"
  shows "carries fs n (string_field num rd wr) m s s'"
proof -
  have "encodes (string_field num rd wr) m (if rd m = [] then [] else tagged num BytesType (block (rd m)))"
    using assms by (intro string_field_encodes fits_field) (auto simp: field_at_def field_defs)
  moreover have "decodes fs depth (if rd m = [] then [] else tagged num BytesType (block (rd m))) s s'" for depth
    using assms string_field_decodes [of num fs rd wr "rd m"] by (auto simp: field_at_def decodes_Nil)
  ultimately show ?thesis
    by (auto simp only: carries_def)
qed

lemma optional_string_field_carries:
  assumes "field_at fs num (optional_string_field num rd wr)" "pred_option utf8_Valid (rd m)" "fits fs m"
    and "s' = (if rd m = None then s else wr (rd m) s)"
  shows "carries fs n (optional_string_field num rd wr) m s s'"
proof -
  have "encodes (optional_string_field num rd wr) m
      (case rd m of None \<Rightarrow> [] | Some v \<Rightarrow> tagged num BytesType (block v))"
    using assms by (intro optional_string_field_encodes fits_field) (auto simp: field_at_def field_defs)
  moreover have "decodes fs depth (case rd m of None \<Rightarrow> [] | Some v \<Rightarrow> tagged num BytesType (block v)) s s'" for depth
    using assms optional_string_field_decodes [of num fs rd wr]
    by (cases "rd m") (auto simp: field_at_def decodes_Nil)
  ultimately show ?thesis
    by (auto simp only: carries_def)
qed

lemma bool_field_carries:
  assumes "field_at fs num (bool_field num rd wr)" "s' = (if rd m then wr True s else s)"
  shows "carries fs n (bool_field num rd wr) m s s'"
  using bool_field_encodes [of num rd wr m] bool_field_decodes [of num fs rd wr] assms
  by (auto simp: carries_def field_at_def decodes_Nil split: if_splits)

lemma int32_field_carries:
  assumes "field_at fs num (int32_field num rd wr)" "s' = (if rd m = 0 then s else wr (rd m) s)"
  shows "carries fs n (int32_field num rd wr) m s s'"
  using int32_field_encodes [of num rd wr m] int32_field_decodes [of num fs rd wr _ "rd m"] assms
  by (auto simp: carries_def field_at_def decodes_Nil split: if_splits)

lemma string_slice_field_carries:
  assumes "field_at fs num (string_slice_field num rd wr)" "list_all utf8_Valid (rd m)" "fits fs m"
    and "struct_field rd wr" "s = wr [] t" "s' = wr (rd m) t"
  shows "carries fs n (string_slice_field num rd wr) m s s'"
proof -
  have "encodes (string_slice_field num rd wr) m (concat (map (\<lambda>v. tagged num BytesType (block v)) (rd m)))"
    using assms by (intro string_slice_field_encodes fits_field) (auto simp: field_at_def field_defs list_all_iff)
  moreover have "decodes fs depth (concat (map (\<lambda>v. tagged num BytesType (block v)) (rd m))) s s'" for depth
    using assms string_slice_field_decodes [of rd wr num fs "rd m"] by (auto simp: field_at_def list_all_iff)
  ultimately show ?thesis
    by (auto simp only: carries_def)
qed

lemma map_field_carries:
  assumes "field_at fs num (map_field num rd wr)" "list_all entry_ok (rd m)" "distinct (map fst (rd m))"
    and "fits fs m" "struct_field rd wr" "s = wr [] t" "s' = wr (rd m) t"
  shows "carries fs n (map_field num rd wr) m s s'"
proof -
  have "encodes (map_field num rd wr) m (concat (map (\<lambda>kv. tagged num BytesType (block (entry_bytes kv))) (rd m)))"
    using assms by (intro map_field_encodes fits_field) (auto simp: field_at_def field_defs list_all_iff)
  moreover have "decodes fs depth (concat (map (\<lambda>kv. tagged num BytesType (block (entry_bytes kv))) (rd m))) s s'" for depth
    using assms map_field_decodes [of rd wr num fs "rd m"] by (auto simp: field_at_def list_all_iff)
  ultimately show ?thesis
    by (auto simp only: carries_def)
qed

context message_coder
begin

lemma message_field_carries:
  assumes "field_at gs num (message_field num fs zero rd wr)" "pred_option valid (rd m)" "nesting < n"
    and "rd s = None" "s' = (if rd m = None then s else wr (rd m) s)"
  shows "carries gs n (message_field num fs zero rd wr) m s s'"
proof -
  have "decodes gs depth (case rd m of None \<Rightarrow> [] | Some q \<Rightarrow> tagged num BytesType (message_block q)) s s'"
    if "n \<le> depth" for depth
    using assms that message_field_decodes [of num gs rd wr] by (cases "rd m") (auto simp: field_at_def decodes_Nil)
  then show ?thesis
    using message_field_encodes [where rd = rd and m = m, OF assms(2)] by (auto simp only: carries_def)
qed

lemma message_slice_field_carries:
  assumes "field_at gs num (message_slice_field num fs zero rd wr)" "list_all valid (rd m)" "nesting < n"
    and "struct_field rd wr" "s = wr [] t" "s' = wr (rd m) t"
  shows "carries gs n (message_slice_field num fs zero rd wr) m s s'"
proof -
  have "encodes (message_slice_field num fs zero rd wr) m
      (concat (map (\<lambda>q. tagged num BytesType (message_block q)) (rd m)))"
    using assms(2) by (intro message_slice_field_encodes) (auto simp: list_all_iff)
  moreover have "decodes gs depth (concat (map (\<lambda>q. tagged num BytesType (message_block q)) (rd m))) s s'"
    if "n \<le> depth" for depth
    using assms that message_slice_field_decodes [of rd wr num gs "rd m" depth]
    by (auto simp: field_at_def list_all_iff)
  ultimately show ?thesis
    by (auto simp only: carries_def)
qed

end


section \<open>Fields of a newer version\<close>

text \<open>A length-prefixed field that this version does not know is stepped over.\<close>

lemma unknown_field_skipped:
  assumes num: "1 \<le> num" "num \<le> MaxValidNumber"
    and new: "find (\<lambda>f. cf_num f = num) fs = None"
  shows "decodes fs depth (tagged num BytesType (block v)) s s"
  unfolding decodes_def
proof (intro allI impI)
  fix rest :: string and groupTag
  assume len: "length (tagged num BytesType (block v)) + length rest < 2 ^ 63"
  have t: "unat (EncodeTag num BytesType) < 2 ^ 64"
    using unsigned_less [of "EncodeTag num BytesType"] by simp
  have "ConsumeFieldValue num BytesType (block v @ rest) = Inr (length (block v))"
    using ConsumeBytes_block [of v rest] len
    by (simp add: ConsumeFieldValue_def consumeFieldValueD.simps wire_types length_tagged)
  then have "unmarshal_field fs (block v @ rest) num BytesType depth s = Inr (length (block v), s)"
    by (simp add: unmarshal_field_def new)
  then show "unmarshal_loop fs (tagged num BytesType (block v) @ rest) s groupTag depth =
      unmarshal_loop fs rest s groupTag depth"
    using unmarshal_tag_varint [OF t, of "block v @ rest"] tag_parts [of num BytesType] num
    by (subst unmarshal_loop.simps) (simp add: tagged_def Let_def MinValidNumber_def wire_types)
qed

context message_coder
begin

lemma newer_peer_is_understood:
  assumes "valid m" "nesting < depth" "1 \<le> num" "num \<le> MaxValidNumber"
    and "find (\<lambda>f. cf_num f = num) fs = None"
    and "length (message_bytes fs m @ tagged num BytesType (block v)) < 2 ^ 63"
  shows "unmarshalPointer fs (message_bytes fs m @ tagged num BytesType (block v)) zero 0 depth =
     Inr (length (message_bytes fs m @ tagged num BytesType (block v)), m)"
proof -
  have "decodes fs (depth - 1) (message_bytes fs m @ tagged num BytesType (block v)) zero m"
    using message_decodes [OF assms(1), of "depth - 1"] unknown_field_skipped [OF assms(3-5)] assms(2)
    by (auto intro: decodes_append)
  from decodes_all [OF this assms(6)] show ?thesis
    using assms(2) nesting by (simp add: unmarshalPointer_def)
qed

end

end
