(* ===== verification/State_Messages.thy ===== *)
theory State_Messages
  imports Wire_Laws Lease_Name
begin

text \<open>
  The messages of the state service (\<^verbatim>\<open>pkg/proto/state/v1/state.pb.go\<close>) on the wire: for each message
  the table of its fields, with the numbers and kinds of the struct tags, an interpretation of
  \<^verbatim>\<open>message_coder\<close>, and so its round trip.
\<close>

declare option.pred_inject [code]

section \<open>Field tables\<close>

definition LabelSelectorRequirement_fields :: "pb_label_selector_requirement coder_field list" where
  "LabelSelectorRequirement_fields =
     [optional_string_field 1 pb_key (\<lambda>v m. m\<lparr>pb_key := v\<rparr>),
      optional_string_field 2 pb_operator (\<lambda>v m. m\<lparr>pb_operator := v\<rparr>),
      string_slice_field 3 pb_values (\<lambda>v m. m\<lparr>pb_values := v\<rparr>)]"

definition LabelSelectorRequirement_zero :: pb_label_selector_requirement where
  "LabelSelectorRequirement_zero = \<lparr>pb_key = None, pb_operator = None, pb_values = []\<rparr>"

definition LabelSelector_fields :: "pb_label_selector coder_field list" where
  "LabelSelector_fields =
     [map_field 1 pb_match_labels (\<lambda>v m. m\<lparr>pb_match_labels := v\<rparr>),
      message_slice_field 2 LabelSelectorRequirement_fields LabelSelectorRequirement_zero
        pb_match_expressions (\<lambda>v m. m\<lparr>pb_match_expressions := v\<rparr>)]"

definition LabelSelector_zero :: pb_label_selector where
  "LabelSelector_zero = \<lparr>pb_match_labels = [], pb_match_expressions = []\<rparr>"

definition LockRequest_fields :: "lock_request coder_field list" where
  "LockRequest_fields =
     [string_field 1 lrq_leaseHolderIdentity (\<lambda>v m. m\<lparr>lrq_leaseHolderIdentity := v\<rparr>),
      string_field 2 lrq_namespace (\<lambda>v m. m\<lparr>lrq_namespace := v\<rparr>),
      message_field 3 LabelSelector_fields LabelSelector_zero
        lrq_labelSelector (\<lambda>v m. m\<lparr>lrq_labelSelector := v\<rparr>)]"

definition LockRequest_zero :: lock_request where
  "LockRequest_zero = \<lparr>lrq_leaseHolderIdentity = [], lrq_namespace = [], lrq_labelSelector = None\<rparr>"

definition LockResponse_fields :: "lock_response coder_field list" where
  "LockResponse_fields =
     [bool_field 1 lrs_acquired (\<lambda>v m. m\<lparr>lrs_acquired := v\<rparr>),
      string_field 2 lrs_error (\<lambda>v m. m\<lparr>lrs_error := v\<rparr>)]"

definition LockResponse_zero :: lock_response where
  "LockResponse_zero = \<lparr>lrs_acquired = False, lrs_error = []\<rparr>"

definition UnlockRequest_fields :: "unlock_request coder_field list" where
  "UnlockRequest_fields =
     [string_field 1 urq_leaseHolderIdentity (\<lambda>v m. m\<lparr>urq_leaseHolderIdentity := v\<rparr>),
      string_field 2 urq_namespace (\<lambda>v m. m\<lparr>urq_namespace := v\<rparr>),
      message_field 3 LabelSelector_fields LabelSelector_zero
        urq_labelSelector (\<lambda>v m. m\<lparr>urq_labelSelector := v\<rparr>)]"

definition UnlockRequest_zero :: unlock_request where
  "UnlockRequest_zero = \<lparr>urq_leaseHolderIdentity = [], urq_namespace = [], urq_labelSelector = None\<rparr>"

definition UnlockResponse_fields :: "unlock_response coder_field list" where
  "UnlockResponse_fields =
     [bool_field 1 urs_unlocked (\<lambda>v m. m\<lparr>urs_unlocked := v\<rparr>),
      string_field 2 urs_error (\<lambda>v m. m\<lparr>urs_error := v\<rparr>)]"

definition UnlockResponse_zero :: unlock_response where
  "UnlockResponse_zero = \<lparr>urs_unlocked = False, urs_error = []\<rparr>"

definition GetStateRequest_fields :: "get_state_request coder_field list" where
  "GetStateRequest_fields =
     [string_field 1 grq_namespace (\<lambda>v m. m\<lparr>grq_namespace := v\<rparr>),
      message_field 2 LabelSelector_fields LabelSelector_zero
        grq_labelSelector (\<lambda>v m. m\<lparr>grq_labelSelector := v\<rparr>)]"

definition GetStateRequest_zero :: get_state_request where
  "GetStateRequest_zero = \<lparr>grq_namespace = [], grq_labelSelector = None\<rparr>"

definition GetStateResponse_fields :: "get_state_response coder_field list" where
  "GetStateResponse_fields =
     [int32_field 1 grs_desiredHealthy (\<lambda>v m. m\<lparr>grs_desiredHealthy := v\<rparr>),
      int32_field 2 grs_healthy (\<lambda>v m. m\<lparr>grs_healthy := v\<rparr>)]"

definition GetStateResponse_zero :: get_state_response where
  "GetStateResponse_zero = \<lparr>grs_desiredHealthy = 0, grs_healthy = 0\<rparr>"


section \<open>Messages that can be sent\<close>

text \<open>
  Strings are UTF-8, the keys of a map are distinct (it is a map), and the message is shorter than
  the largest Go slice.
\<close>

definition requirement_sendable :: "pb_label_selector_requirement \<Rightarrow> bool" where
  "requirement_sendable r \<longleftrightarrow>
     pred_option utf8_Valid (pb_key r) \<and> pred_option utf8_Valid (pb_operator r) \<and>
     list_all utf8_Valid (pb_values r) \<and>
     fits LabelSelectorRequirement_fields r"

definition selector_sendable :: "pb_label_selector \<Rightarrow> bool" where
  "selector_sendable s \<longleftrightarrow>
     list_all entry_ok (pb_match_labels s) \<and> distinct (map fst (pb_match_labels s)) \<and>
     list_all requirement_sendable (pb_match_expressions s) \<and>
     fits LabelSelector_fields s"

definition lock_request_sendable :: "lock_request \<Rightarrow> bool" where
  "lock_request_sendable r \<longleftrightarrow>
     utf8_Valid (lrq_leaseHolderIdentity r) \<and> utf8_Valid (lrq_namespace r) \<and>
     pred_option selector_sendable (lrq_labelSelector r) \<and>
     fits LockRequest_fields r"

definition lock_response_sendable :: "lock_response \<Rightarrow> bool" where
  "lock_response_sendable r \<longleftrightarrow>
     utf8_Valid (lrs_error r) \<and> fits LockResponse_fields r"

definition unlock_request_sendable :: "unlock_request \<Rightarrow> bool" where
  "unlock_request_sendable r \<longleftrightarrow>
     utf8_Valid (urq_leaseHolderIdentity r) \<and> utf8_Valid (urq_namespace r) \<and>
     pred_option selector_sendable (urq_labelSelector r) \<and>
     fits UnlockRequest_fields r"

definition unlock_response_sendable :: "unlock_response \<Rightarrow> bool" where
  "unlock_response_sendable r \<longleftrightarrow>
     utf8_Valid (urs_error r) \<and> fits UnlockResponse_fields r"

definition get_state_request_sendable :: "get_state_request \<Rightarrow> bool" where
  "get_state_request_sendable r \<longleftrightarrow>
     utf8_Valid (grq_namespace r) \<and> pred_option selector_sendable (grq_labelSelector r) \<and>
     fits GetStateRequest_fields r"

definition get_state_response_sendable :: "get_state_response \<Rightarrow> bool" where
  "get_state_response_sendable r \<longleftrightarrow> fits GetStateResponse_fields r"


section \<open>The laws of the messages\<close>

lemma cf_num_fields [simp]:
  "cf_num (string_field num rd wr) = num"
  "cf_num (optional_string_field num rd' wr') = num"
  "cf_num (string_slice_field num rd2 wr2) = num"
  "cf_num (bool_field num rd3 wr3) = num"
  "cf_num (int32_field num rd4 wr4) = num"
  "cf_num (map_field num rd5 wr5) = num"
  "cf_num (message_field num fs zero rd6 wr6) = num"
  "cf_num (message_slice_field num fs zero rd7 wr7) = num"
  by (simp_all add: field_defs)

interpretation values_field: struct_field pb_values "\<lambda>v m. m\<lparr>pb_values := v\<rparr>"
  by unfold_locales simp_all

interpretation labels_field: struct_field pb_match_labels "\<lambda>v m. m\<lparr>pb_match_labels := v\<rparr>"
  by unfold_locales simp_all

interpretation expressions_field: struct_field pb_match_expressions "\<lambda>v m. m\<lparr>pb_match_expressions := v\<rparr>"
  by unfold_locales simp_all

lemma less_2_cases: "(i :: nat) < 2 \<Longrightarrow> i = 0 \<or> i = 1"
  by auto

lemma less_3_cases: "(i :: nat) < 3 \<Longrightarrow> i = 0 \<or> i = 1 \<or> i = 2"
  by auto

lemmas carry_simps = field_at_def MaxValidNumber_def

text \<open>\<^verbatim>\<open>LabelSelectorRequirement\<close>.\<close>

definition requirement_partial :: "nat \<Rightarrow> pb_label_selector_requirement \<Rightarrow> pb_label_selector_requirement" where
  "requirement_partial i m =
     \<lparr>pb_key = (if 0 < i then pb_key m else None),
      pb_operator = (if 1 < i then pb_operator m else None),
      pb_values = (if 2 < i then pb_values m else [])\<rparr>"

lemma requirement_carries:
  assumes "requirement_sendable m"
  shows "carries LabelSelectorRequirement_fields 0 (LabelSelectorRequirement_fields ! 0) m (requirement_partial 0 m) (requirement_partial 1 m)"
    and "carries LabelSelectorRequirement_fields 0 (LabelSelectorRequirement_fields ! 1) m (requirement_partial 1 m) (requirement_partial 2 m)"
    and "carries LabelSelectorRequirement_fields 0 (LabelSelectorRequirement_fields ! 2) m (requirement_partial 2 m) (requirement_partial 3 m)"
  subgoal
    using assms unfolding LabelSelectorRequirement_fields_def
    by (simp, intro optional_string_field_carries)
       (auto simp: carry_simps requirement_partial_def requirement_sendable_def LabelSelectorRequirement_fields_def values_field.struct_field_axioms
          labels_field.struct_field_axioms expressions_field.struct_field_axioms)
  subgoal
    using assms unfolding LabelSelectorRequirement_fields_def
    by (simp, intro optional_string_field_carries)
       (auto simp: carry_simps requirement_partial_def requirement_sendable_def LabelSelectorRequirement_fields_def values_field.struct_field_axioms
          labels_field.struct_field_axioms expressions_field.struct_field_axioms)
  subgoal
    using assms unfolding LabelSelectorRequirement_fields_def
    by (simp, intro string_slice_field_carries [where t = "requirement_partial 2 m"])
       (auto simp: carry_simps requirement_partial_def requirement_sendable_def LabelSelectorRequirement_fields_def values_field.struct_field_axioms
          labels_field.struct_field_axioms expressions_field.struct_field_axioms)
  done

interpretation requirement_wire: message_coder LabelSelectorRequirement_fields LabelSelectorRequirement_zero requirement_partial requirement_sendable 0
proof unfold_locales
  fix m :: pb_label_selector_requirement and i :: nat
  assume "requirement_sendable m" "i < length LabelSelectorRequirement_fields"
  then show "carries LabelSelectorRequirement_fields 0 (LabelSelectorRequirement_fields ! i) m (requirement_partial i m) (requirement_partial (Suc i) m)"
    using requirement_carries [of m] less_3_cases [of i] by (auto simp: LabelSelectorRequirement_fields_def numeral_2_eq_2 numeral_3_eq_3)
qed (simp_all add: LabelSelectorRequirement_zero_def LabelSelectorRequirement_fields_def requirement_partial_def requirement_sendable_def fits_def)

text \<open>\<^verbatim>\<open>LabelSelector\<close>.\<close>

definition selector_partial :: "nat \<Rightarrow> pb_label_selector \<Rightarrow> pb_label_selector" where
  "selector_partial i m =
     \<lparr>pb_match_labels = (if 0 < i then pb_match_labels m else []),
      pb_match_expressions = (if 1 < i then pb_match_expressions m else [])\<rparr>"

lemma selector_carries:
  assumes "selector_sendable m"
  shows "carries LabelSelector_fields 1 (LabelSelector_fields ! 0) m (selector_partial 0 m) (selector_partial 1 m)"
    and "carries LabelSelector_fields 1 (LabelSelector_fields ! 1) m (selector_partial 1 m) (selector_partial 2 m)"
  subgoal
    using assms unfolding LabelSelector_fields_def
    by (simp, intro map_field_carries [where t = "selector_partial 0 m"])
       (auto simp: carry_simps selector_partial_def selector_sendable_def LabelSelector_fields_def values_field.struct_field_axioms
          labels_field.struct_field_axioms expressions_field.struct_field_axioms)
  subgoal
    using assms unfolding LabelSelector_fields_def
    by (simp, intro requirement_wire.message_slice_field_carries [where t = "selector_partial 1 m"])
       (auto simp: carry_simps selector_partial_def selector_sendable_def LabelSelector_fields_def values_field.struct_field_axioms
          labels_field.struct_field_axioms expressions_field.struct_field_axioms)
  done

interpretation selector_wire: message_coder LabelSelector_fields LabelSelector_zero selector_partial selector_sendable 1
proof unfold_locales
  fix m :: pb_label_selector and i :: nat
  assume "selector_sendable m" "i < length LabelSelector_fields"
  then show "carries LabelSelector_fields 1 (LabelSelector_fields ! i) m (selector_partial i m) (selector_partial (Suc i) m)"
    using selector_carries [of m] less_2_cases [of i] by (auto simp: LabelSelector_fields_def numeral_2_eq_2 numeral_3_eq_3)
qed (simp_all add: LabelSelector_zero_def LabelSelector_fields_def selector_partial_def selector_sendable_def fits_def)

text \<open>\<^verbatim>\<open>LockRequest\<close>.\<close>

definition lock_request_partial :: "nat \<Rightarrow> lock_request \<Rightarrow> lock_request" where
  "lock_request_partial i m =
     \<lparr>lrq_leaseHolderIdentity = (if 0 < i then lrq_leaseHolderIdentity m else []),
      lrq_namespace = (if 1 < i then lrq_namespace m else []),
      lrq_labelSelector = (if 2 < i then lrq_labelSelector m else None)\<rparr>"

lemma lock_request_carries:
  assumes "lock_request_sendable m"
  shows "carries LockRequest_fields 2 (LockRequest_fields ! 0) m (lock_request_partial 0 m) (lock_request_partial 1 m)"
    and "carries LockRequest_fields 2 (LockRequest_fields ! 1) m (lock_request_partial 1 m) (lock_request_partial 2 m)"
    and "carries LockRequest_fields 2 (LockRequest_fields ! 2) m (lock_request_partial 2 m) (lock_request_partial 3 m)"
  subgoal
    using assms unfolding LockRequest_fields_def
    by (simp, intro string_field_carries)
       (auto simp: carry_simps lock_request_partial_def lock_request_sendable_def LockRequest_fields_def values_field.struct_field_axioms
          labels_field.struct_field_axioms expressions_field.struct_field_axioms)
  subgoal
    using assms unfolding LockRequest_fields_def
    by (simp, intro string_field_carries)
       (auto simp: carry_simps lock_request_partial_def lock_request_sendable_def LockRequest_fields_def values_field.struct_field_axioms
          labels_field.struct_field_axioms expressions_field.struct_field_axioms)
  subgoal
    using assms unfolding LockRequest_fields_def
    by (simp, intro selector_wire.message_field_carries)
       (auto simp: carry_simps lock_request_partial_def lock_request_sendable_def LockRequest_fields_def values_field.struct_field_axioms
          labels_field.struct_field_axioms expressions_field.struct_field_axioms)
  done

interpretation lock_request_wire: message_coder LockRequest_fields LockRequest_zero lock_request_partial lock_request_sendable 2
proof unfold_locales
  fix m :: lock_request and i :: nat
  assume "lock_request_sendable m" "i < length LockRequest_fields"
  then show "carries LockRequest_fields 2 (LockRequest_fields ! i) m (lock_request_partial i m) (lock_request_partial (Suc i) m)"
    using lock_request_carries [of m] less_3_cases [of i] by (auto simp: LockRequest_fields_def numeral_2_eq_2 numeral_3_eq_3)
qed (simp_all add: LockRequest_zero_def LockRequest_fields_def lock_request_partial_def lock_request_sendable_def fits_def)

text \<open>\<^verbatim>\<open>LockResponse\<close>.\<close>

definition lock_response_partial :: "nat \<Rightarrow> lock_response \<Rightarrow> lock_response" where
  "lock_response_partial i m =
     \<lparr>lrs_acquired = (if 0 < i then lrs_acquired m else False),
      lrs_error = (if 1 < i then lrs_error m else [])\<rparr>"

lemma lock_response_carries:
  assumes "lock_response_sendable m"
  shows "carries LockResponse_fields 0 (LockResponse_fields ! 0) m (lock_response_partial 0 m) (lock_response_partial 1 m)"
    and "carries LockResponse_fields 0 (LockResponse_fields ! 1) m (lock_response_partial 1 m) (lock_response_partial 2 m)"
  subgoal
    using assms unfolding LockResponse_fields_def
    by (simp, intro bool_field_carries)
       (auto simp: carry_simps lock_response_partial_def lock_response_sendable_def LockResponse_fields_def values_field.struct_field_axioms
          labels_field.struct_field_axioms expressions_field.struct_field_axioms)
  subgoal
    using assms unfolding LockResponse_fields_def
    by (simp, intro string_field_carries)
       (auto simp: carry_simps lock_response_partial_def lock_response_sendable_def LockResponse_fields_def values_field.struct_field_axioms
          labels_field.struct_field_axioms expressions_field.struct_field_axioms)
  done

interpretation lock_response_wire: message_coder LockResponse_fields LockResponse_zero lock_response_partial lock_response_sendable 0
proof unfold_locales
  fix m :: lock_response and i :: nat
  assume "lock_response_sendable m" "i < length LockResponse_fields"
  then show "carries LockResponse_fields 0 (LockResponse_fields ! i) m (lock_response_partial i m) (lock_response_partial (Suc i) m)"
    using lock_response_carries [of m] less_2_cases [of i] by (auto simp: LockResponse_fields_def numeral_2_eq_2 numeral_3_eq_3)
qed (simp_all add: LockResponse_zero_def LockResponse_fields_def lock_response_partial_def lock_response_sendable_def fits_def)

text \<open>\<^verbatim>\<open>UnlockRequest\<close>.\<close>

definition unlock_request_partial :: "nat \<Rightarrow> unlock_request \<Rightarrow> unlock_request" where
  "unlock_request_partial i m =
     \<lparr>urq_leaseHolderIdentity = (if 0 < i then urq_leaseHolderIdentity m else []),
      urq_namespace = (if 1 < i then urq_namespace m else []),
      urq_labelSelector = (if 2 < i then urq_labelSelector m else None)\<rparr>"

lemma unlock_request_carries:
  assumes "unlock_request_sendable m"
  shows "carries UnlockRequest_fields 2 (UnlockRequest_fields ! 0) m (unlock_request_partial 0 m) (unlock_request_partial 1 m)"
    and "carries UnlockRequest_fields 2 (UnlockRequest_fields ! 1) m (unlock_request_partial 1 m) (unlock_request_partial 2 m)"
    and "carries UnlockRequest_fields 2 (UnlockRequest_fields ! 2) m (unlock_request_partial 2 m) (unlock_request_partial 3 m)"
  subgoal
    using assms unfolding UnlockRequest_fields_def
    by (simp, intro string_field_carries)
       (auto simp: carry_simps unlock_request_partial_def unlock_request_sendable_def UnlockRequest_fields_def values_field.struct_field_axioms
          labels_field.struct_field_axioms expressions_field.struct_field_axioms)
  subgoal
    using assms unfolding UnlockRequest_fields_def
    by (simp, intro string_field_carries)
       (auto simp: carry_simps unlock_request_partial_def unlock_request_sendable_def UnlockRequest_fields_def values_field.struct_field_axioms
          labels_field.struct_field_axioms expressions_field.struct_field_axioms)
  subgoal
    using assms unfolding UnlockRequest_fields_def
    by (simp, intro selector_wire.message_field_carries)
       (auto simp: carry_simps unlock_request_partial_def unlock_request_sendable_def UnlockRequest_fields_def values_field.struct_field_axioms
          labels_field.struct_field_axioms expressions_field.struct_field_axioms)
  done

interpretation unlock_request_wire: message_coder UnlockRequest_fields UnlockRequest_zero unlock_request_partial unlock_request_sendable 2
proof unfold_locales
  fix m :: unlock_request and i :: nat
  assume "unlock_request_sendable m" "i < length UnlockRequest_fields"
  then show "carries UnlockRequest_fields 2 (UnlockRequest_fields ! i) m (unlock_request_partial i m) (unlock_request_partial (Suc i) m)"
    using unlock_request_carries [of m] less_3_cases [of i] by (auto simp: UnlockRequest_fields_def numeral_2_eq_2 numeral_3_eq_3)
qed (simp_all add: UnlockRequest_zero_def UnlockRequest_fields_def unlock_request_partial_def unlock_request_sendable_def fits_def)

text \<open>\<^verbatim>\<open>UnlockResponse\<close>.\<close>

definition unlock_response_partial :: "nat \<Rightarrow> unlock_response \<Rightarrow> unlock_response" where
  "unlock_response_partial i m =
     \<lparr>urs_unlocked = (if 0 < i then urs_unlocked m else False),
      urs_error = (if 1 < i then urs_error m else [])\<rparr>"

lemma unlock_response_carries:
  assumes "unlock_response_sendable m"
  shows "carries UnlockResponse_fields 0 (UnlockResponse_fields ! 0) m (unlock_response_partial 0 m) (unlock_response_partial 1 m)"
    and "carries UnlockResponse_fields 0 (UnlockResponse_fields ! 1) m (unlock_response_partial 1 m) (unlock_response_partial 2 m)"
  subgoal
    using assms unfolding UnlockResponse_fields_def
    by (simp, intro bool_field_carries)
       (auto simp: carry_simps unlock_response_partial_def unlock_response_sendable_def UnlockResponse_fields_def values_field.struct_field_axioms
          labels_field.struct_field_axioms expressions_field.struct_field_axioms)
  subgoal
    using assms unfolding UnlockResponse_fields_def
    by (simp, intro string_field_carries)
       (auto simp: carry_simps unlock_response_partial_def unlock_response_sendable_def UnlockResponse_fields_def values_field.struct_field_axioms
          labels_field.struct_field_axioms expressions_field.struct_field_axioms)
  done

interpretation unlock_response_wire: message_coder UnlockResponse_fields UnlockResponse_zero unlock_response_partial unlock_response_sendable 0
proof unfold_locales
  fix m :: unlock_response and i :: nat
  assume "unlock_response_sendable m" "i < length UnlockResponse_fields"
  then show "carries UnlockResponse_fields 0 (UnlockResponse_fields ! i) m (unlock_response_partial i m) (unlock_response_partial (Suc i) m)"
    using unlock_response_carries [of m] less_2_cases [of i] by (auto simp: UnlockResponse_fields_def numeral_2_eq_2 numeral_3_eq_3)
qed (simp_all add: UnlockResponse_zero_def UnlockResponse_fields_def unlock_response_partial_def unlock_response_sendable_def fits_def)

text \<open>\<^verbatim>\<open>GetStateRequest\<close>.\<close>

definition get_state_request_partial :: "nat \<Rightarrow> get_state_request \<Rightarrow> get_state_request" where
  "get_state_request_partial i m =
     \<lparr>grq_namespace = (if 0 < i then grq_namespace m else []),
      grq_labelSelector = (if 1 < i then grq_labelSelector m else None)\<rparr>"

lemma get_state_request_carries:
  assumes "get_state_request_sendable m"
  shows "carries GetStateRequest_fields 2 (GetStateRequest_fields ! 0) m (get_state_request_partial 0 m) (get_state_request_partial 1 m)"
    and "carries GetStateRequest_fields 2 (GetStateRequest_fields ! 1) m (get_state_request_partial 1 m) (get_state_request_partial 2 m)"
  subgoal
    using assms unfolding GetStateRequest_fields_def
    by (simp, intro string_field_carries)
       (auto simp: carry_simps get_state_request_partial_def get_state_request_sendable_def GetStateRequest_fields_def values_field.struct_field_axioms
          labels_field.struct_field_axioms expressions_field.struct_field_axioms)
  subgoal
    using assms unfolding GetStateRequest_fields_def
    by (simp, intro selector_wire.message_field_carries)
       (auto simp: carry_simps get_state_request_partial_def get_state_request_sendable_def GetStateRequest_fields_def values_field.struct_field_axioms
          labels_field.struct_field_axioms expressions_field.struct_field_axioms)
  done

interpretation get_state_request_wire: message_coder GetStateRequest_fields GetStateRequest_zero get_state_request_partial get_state_request_sendable 2
proof unfold_locales
  fix m :: get_state_request and i :: nat
  assume "get_state_request_sendable m" "i < length GetStateRequest_fields"
  then show "carries GetStateRequest_fields 2 (GetStateRequest_fields ! i) m (get_state_request_partial i m) (get_state_request_partial (Suc i) m)"
    using get_state_request_carries [of m] less_2_cases [of i] by (auto simp: GetStateRequest_fields_def numeral_2_eq_2 numeral_3_eq_3)
qed (simp_all add: GetStateRequest_zero_def GetStateRequest_fields_def get_state_request_partial_def get_state_request_sendable_def fits_def)

text \<open>\<^verbatim>\<open>GetStateResponse\<close>.\<close>

definition get_state_response_partial :: "nat \<Rightarrow> get_state_response \<Rightarrow> get_state_response" where
  "get_state_response_partial i m =
     \<lparr>grs_desiredHealthy = (if 0 < i then grs_desiredHealthy m else 0),
      grs_healthy = (if 1 < i then grs_healthy m else 0)\<rparr>"

lemma get_state_response_carries:
  assumes "get_state_response_sendable m"
  shows "carries GetStateResponse_fields 0 (GetStateResponse_fields ! 0) m (get_state_response_partial 0 m) (get_state_response_partial 1 m)"
    and "carries GetStateResponse_fields 0 (GetStateResponse_fields ! 1) m (get_state_response_partial 1 m) (get_state_response_partial 2 m)"
  subgoal
    using assms unfolding GetStateResponse_fields_def
    by (simp, intro int32_field_carries)
       (auto simp: carry_simps get_state_response_partial_def get_state_response_sendable_def GetStateResponse_fields_def values_field.struct_field_axioms
          labels_field.struct_field_axioms expressions_field.struct_field_axioms)
  subgoal
    using assms unfolding GetStateResponse_fields_def
    by (simp, intro int32_field_carries)
       (auto simp: carry_simps get_state_response_partial_def get_state_response_sendable_def GetStateResponse_fields_def values_field.struct_field_axioms
          labels_field.struct_field_axioms expressions_field.struct_field_axioms)
  done

interpretation get_state_response_wire: message_coder GetStateResponse_fields GetStateResponse_zero get_state_response_partial get_state_response_sendable 0
proof unfold_locales
  fix m :: get_state_response and i :: nat
  assume "get_state_response_sendable m" "i < length GetStateResponse_fields"
  then show "carries GetStateResponse_fields 0 (GetStateResponse_fields ! i) m (get_state_response_partial i m) (get_state_response_partial (Suc i) m)"
    using get_state_response_carries [of m] less_2_cases [of i] by (auto simp: GetStateResponse_fields_def numeral_2_eq_2 numeral_3_eq_3)
qed (simp_all add: GetStateResponse_zero_def GetStateResponse_fields_def get_state_response_partial_def get_state_response_sendable_def fits_def)

end
