(* ===== verification/Wire_Safety.thy ===== *)
theory Wire_Safety
  imports Wire_Laws
begin

text \<open>
  Bytes from outside. Whatever arrives, a coder stays within it: it never reports more bytes than
  there are, and no index or slice expression over them is out of range. The generated handlers decode a request before
  the recovery interceptor runs: a panic there would end the process.
\<close>

definition inside :: "string \<Rightarrow> pb_err + nat \<times> 'a \<Rightarrow> bool" where
  "inside b r \<longleftrightarrow> (case r of Inl e \<Rightarrow> e \<noteq> slicePanic | Inr (n, x) \<Rightarrow> n \<le> length b)"

definition steady :: "'m coder_field list \<Rightarrow> bool" where
  "steady fs \<longleftrightarrow>
     (\<forall>f \<in> set fs. \<forall>b wtyp depth m. length b < 2 ^ 63 \<longrightarrow> inside b (cf_unmarshal f b wtyp depth m))"

lemma inside_simps [simp]:
  "inside b (Inl e) \<longleftrightarrow> e \<noteq> slicePanic"
  "inside b (Inr nx) \<longleftrightarrow> fst nx \<le> length b"
  by (auto simp: inside_def split: prod.splits)

lemma inside_map: "inside b (map_sum id (\<lambda>(n, v). (n, g v)) r) \<longleftrightarrow> inside b r"
  by (cases r) (auto split: prod.splits)

lemma ConsumeBytes_safe: "ConsumeBytes b = Inl e \<Longrightarrow> length b < 2 ^ 63 \<Longrightarrow> e \<noteq> wirePanic"
  using ConsumeBytes_no_panic [of b] by auto

lemma ConsumeBytes_inside: "ConsumeBytes b = Inr (v, n) \<Longrightarrow> length b < 2 ^ 63 \<Longrightarrow> n \<le> length b \<and> length v < 2 ^ 63"
  using ConsumeBytes_length [of b v n] by auto

lemma unmarshal_field_inside:
  assumes "steady fs" "length b < 2 ^ 63"
  shows "inside b (unmarshal_field fs b num wtyp depth m)"
proof -
  have skip: "stays_in (length b) (ConsumeFieldValue num wtyp b)"
    using ConsumeFieldValue_within [of b num wtyp] assms(2) by simp
  show ?thesis
  proof (cases "find (\<lambda>f. cf_num f = num) fs")
    case None
    then show ?thesis
      using skip by (auto simp: unmarshal_field_def split: sum.splits)
  next
    case (Some f)
    then have "f \<in> set fs"
      by (auto simp: find_Some_iff)
    then have "inside b (cf_unmarshal f b wtyp depth m)"
      using assms by (simp add: steady_def)
    then show ?thesis
      using Some skip by (auto simp: unmarshal_field_def split: sum.splits)
  qed
qed

lemma unmarshal_tag_Inl: "b \<noteq> [] \<Longrightarrow> unmarshal_tag b = Inl e \<Longrightarrow> e = errDecode"
  by (auto simp: unmarshal_tag_eq split: if_splits sum.splits)

lemma unmarshal_loop_steady:
  "steady fs \<Longrightarrow> length b < 2 ^ 63 \<Longrightarrow> unmarshal_loop fs b m groupTag depth \<noteq> Inl slicePanic"
proof (induction fs b m groupTag depth rule: unmarshal_loop.induct)
  case (1 fs b m groupTag depth)
  consider "b = []" | e where "b \<noteq> []" "unmarshal_tag b = Inl e"
    | tag b1 where "b \<noteq> []" "unmarshal_tag b = Inr (tag, b1)"
    by (cases "unmarshal_tag b") auto
  then show ?case
  proof cases
    case 2
    then show ?thesis
      using unmarshal_tag_Inl [of b e] by (subst unmarshal_loop.simps) auto
  next
    case (3 tag b1)
    let ?n = "uint (drop_bit 3 tag)" and ?w = "unat (tag AND 7)"
    have b1: "length b1 < 2 ^ 63"
      using unmarshal_tag_shorter [OF 3] 1(3) by simp
    have ins: "inside b1 (unmarshal_field fs b1 ?n ?w depth m)"
      by (rule unmarshal_field_inside [OF 1(2) b1])
    show ?thesis
    proof (cases "unmarshal_field fs b1 ?n ?w depth m")
      case (Inl e)
      then show ?thesis
        using ins 3 by (subst unmarshal_loop.simps) (simp add: Let_def)
    next
      case (Inr km)
      obtain k m' where km: "km = (k, m')"
        by (cases km)
      have s: "slice_from b1 k = Some (drop k b1)"
        using ins by (simp add: Inr km slice_from_def)
      have "unmarshal_loop fs (drop k b1) m' groupTag depth \<noteq> Inl slicePanic"
        if "\<not> (?n < MinValidNumber \<or> ?n > MaxValidNumber)" "?w \<noteq> EndGroupType"
        using 1(1) [OF 3 refl refl refl that Inr km [symmetric] s] 1(2) b1 by simp
      then show ?thesis
        using ins s 3 Inr km by (subst unmarshal_loop.simps) (simp add: Let_def)
    qed
  qed simp
qed

lemma unmarshalPointer_steady:
  "steady fs \<Longrightarrow> length b < 2 ^ 63 \<Longrightarrow> unmarshalPointer fs b m groupTag depth \<noteq> Inl slicePanic"
  using unmarshal_loop_steady [of fs b m groupTag "depth - 1"]
  by (auto simp: unmarshalPointer_def split: sum.splits if_splits)


section \<open>The coders\<close>

lemma string_inside: "length b < 2 ^ 63 \<Longrightarrow> inside b (consumeStringValidateUTF8 b wtyp)"
  by (auto simp: consumeStringValidateUTF8_def split: sum.splits dest: ConsumeBytes_inside ConsumeBytes_safe)

lemma string_ptr_inside: "length b < 2 ^ 63 \<Longrightarrow> inside b (consumeStringPtrValidateUTF8 b wtyp)"
  by (auto simp: consumeStringPtrValidateUTF8_def split: sum.splits dest: ConsumeBytes_inside ConsumeBytes_safe)

lemma string_slice_inside: "length b < 2 ^ 63 \<Longrightarrow> inside b (consumeStringSliceValidateUTF8 b wtyp s)"
  by (auto simp: consumeStringSliceValidateUTF8_def split: sum.splits dest: ConsumeBytes_inside ConsumeBytes_safe)

lemma string_value_inside: "length b < 2 ^ 63 \<Longrightarrow> inside b (consumeStringValueValidateUTF8 b wtyp)"
  by (auto simp: consumeStringValueValidateUTF8_def split: sum.splits dest: ConsumeBytes_inside ConsumeBytes_safe)

lemma varint_inside: "inside b (consume_varint_value b wtyp)"
  by (cases "wtyp = VarintType")
     (auto simp: consume_varint_value_eq consume_varint_value_def [of b wtyp] split: sum.splits dest: ConsumeVarint_length)

lemma message_inside:
  assumes "steady fs" "length b < 2 ^ 63"
  shows "inside b (consumeMessageInfo fs zero b wtyp depth p)"
    and "inside b (consumeMessageSliceInfo fs zero b wtyp depth s)"
  using assms unmarshalPointer_steady [of fs]
  by (auto simp: consumeMessageInfo_def consumeMessageSliceInfo_def split: sum.splits dest: ConsumeBytes_inside ConsumeBytes_safe)

lemma entry_field_inside:
  assumes "length b < 2 ^ 63"
  shows "inside b (consume_entry_field b num wtyp key val)"
proof -
  have "stays_in (length b) (ConsumeFieldValue num wtyp b)"
    using ConsumeFieldValue_within [of b num wtyp] assms by simp
  then show ?thesis
    using string_value_inside [OF assms, of wtyp]
    by (cases "consumeStringValueValidateUTF8 b wtyp"; cases "ConsumeFieldValue num wtyp b")
       (auto simp: consume_entry_field_def Let_def)
qed

lemma consume_entry_steady: "length b < 2 ^ 63 \<Longrightarrow> consume_entry b key val \<noteq> Inl slicePanic"
proof (induction b key val rule: consume_entry.induct)
  case (1 b key val)
  show ?case
  proof (cases "b = []")
    case False
    show ?thesis
    proof (cases "ConsumeTag b")
      case (Inl e)
      then show ?thesis
        using False by (subst consume_entry.simps) auto
    next
      case (Inr t)
      then obtain num wtyp n where t: "ConsumeTag b = Inr (num, wtyp, n)"
        by (cases t) auto
      then have s: "slice_from b n = Some (drop n b)"
        by (auto simp: slice_from_def dest: ConsumeTag_length)
      have ins: "inside (drop n b) (consume_entry_field (drop n b) num wtyp key val)"
        using 1(2) by (intro entry_field_inside) simp
      have step: "consume_entry (drop k (drop n b)) key' val' \<noteq> Inl slicePanic"
        if "\<not> num > MaxValidNumber" "consume_entry_field (drop n b) num wtyp key val = Inr (k, key', val')" for k key' val'
        using 1(1) [OF False t refl refl that(1) s that(2) refl refl] ins that(2) 1(2) by (simp add: slice_from_def)
      show ?thesis
        using False t s ins step
        by (subst consume_entry.simps)
           (auto simp: slice_from_def [of "drop n b"] split: sum.splits)
    qed
  qed (simp add: consume_entry.simps)
qed

lemma map_inside: "length b < 2 ^ 63 \<Longrightarrow> inside b (consumeMap b wtyp d)"
  using consume_entry_steady by (auto simp: consumeMap_def split: sum.splits dest: ConsumeBytes_inside ConsumeBytes_safe)

lemma steady_Nil [simp]: "steady []"
  by (simp add: steady_def)

lemma steady_Cons [simp]:
  "steady (string_field num rd wr # fs) = steady fs"
  "steady (optional_string_field num rd' wr' # fs) = steady fs"
  "steady (string_slice_field num rd2 wr2 # fs) = steady fs"
  "steady (bool_field num rd3 wr3 # fs) = steady fs"
  "steady (int32_field num rd4 wr4 # fs) = steady fs"
  "steady (map_field num rd5 wr5 # fs) = steady fs"
  "steady gs \<Longrightarrow> steady (message_field num gs zero rd6 wr6 # fs) = steady fs"
  "steady gs \<Longrightarrow> steady (message_slice_field num gs zero rd7 wr7 # fs) = steady fs"
  by (simp_all add: steady_def field_defs inside_map string_inside string_ptr_inside string_slice_inside
      consumeBool_def consumeInt32_def varint_inside map_inside message_inside)

end
