(* ===== verification/State_Rpc.thy ===== *)
theory State_Rpc
  imports State_Messages Wire_Safety State_Server
begin

text \<open>
  A call of the state service from end to end: the generated client and server stubs
  (\<^verbatim>\<open>pkg/proto/state/v1/state_grpc.pb.go\<close>) over the part of the vendored gRPC library that encodes and
  decodes messages. The frames of HTTP/2 carry the bytes unchanged; lost requests and replies are in
  \<^const>\<open>over_network\<close>.
\<close>

section \<open>Encoding and decoding in gRPC\<close>

text \<open>The text of a protobuf error is a parameter: the library varies it on purpose.\<close>

type_synonym err_text = "pb_err \<Rightarrow> string"

definition rpc_exhausted :: "string \<Rightarrow> go_err" where
  "rpc_exhausted m = EMsg (''rpc error: code = ResourceExhausted desc = '' @ m)"

definition maxReceiveMessageSize :: nat where
  "maxReceiveMessageSize = 1024 * 1024 * 4"

text \<open>
  The message about a large message prints the number of buffers, which is one, and not of bytes.
\<close>

definition grpc_encode :: "err_text \<Rightarrow> 'm coder_field list \<Rightarrow> 'm \<Rightarrow> go_err + string" where
  "grpc_encode show_err fs msg =
     (case proto_Marshal fs msg of
        Inl e \<Rightarrow> Inl (rpc_internal (''grpc: error while marshaling: '' @ show_err e))
      | Inr b \<Rightarrow>
          if length b > 2 ^ 32 - 1 then Inl (rpc_exhausted ''grpc: message too large (1 bytes)'')
          else Inr b)"

definition grpc_recvMsg :: "string \<Rightarrow> go_err + string" where
  "grpc_recvMsg b =
     (if length b > maxReceiveMessageSize
      then Inl (rpc_exhausted (''grpc: received message larger than max ('' @ format_nat (length b) @
                '' vs. '' @ format_nat maxReceiveMessageSize @ '')''))
      else Inr b)"

text \<open>The generated handler of a method: it decodes the request before it calls the server.\<close>

definition unary_Handler ::
    "err_text \<Rightarrow> 'q coder_field list \<Rightarrow> 'q \<Rightarrow> ('q \<Rightarrow> 's \<Rightarrow> (go_err + 'r) \<times> 's) \<Rightarrow> string \<Rightarrow> 's
      \<Rightarrow> (go_err + 'r) \<times> 's" where
  "unary_Handler show_err qfs q0 srv d s =
     (case proto_Unmarshal qfs q0 d of
        Inl e \<Rightarrow> (Inl (rpc_internal (''grpc: error unmarshalling request: '' @ show_err e)), s)
      | Inr req \<Rightarrow> srv req s)"

text \<open>The server: it receives the bytes, calls the handler of the method and encodes the reply.\<close>

definition processUnaryRPC ::
    "err_text \<Rightarrow> 'r coder_field list \<Rightarrow> (string \<Rightarrow> 's \<Rightarrow> (go_err + 'r) \<times> 's) \<Rightarrow> string \<Rightarrow> 's
      \<Rightarrow> (go_err + string) \<times> 's" where
  "processUnaryRPC show_err rfs handler b s =
     (case grpc_recvMsg b of
        Inl e \<Rightarrow> (Inl e, s)
      | Inr d \<Rightarrow>
          (case handler d s of
             (Inl appErr, s1) \<Rightarrow> (Inl appErr, s1)
           | (Inr reply, s1) \<Rightarrow> (grpc_encode show_err rfs reply, s1)))"

text \<open>\<^verbatim>\<open>invoke\<close>: \<^verbatim>\<open>SendMsg\<close> encodes the request, \<^verbatim>\<open>RecvMsg\<close> decodes the reply.\<close>

definition grpc_invoke ::
    "err_text \<Rightarrow> 'q coder_field list \<Rightarrow> 'r coder_field list \<Rightarrow> 'r \<Rightarrow> (string \<Rightarrow> 's \<Rightarrow> (go_err + string) \<times> 's)
      \<Rightarrow> 'q \<Rightarrow> 's \<Rightarrow> (go_err + 'r) \<times> 's" where
  "grpc_invoke show_err qfs rfs r0 peer req s =
     (case grpc_encode show_err qfs req of
        Inl e \<Rightarrow> (Inl e, s)
      | Inr b \<Rightarrow>
          (case peer b s of
             (Inl e, s1) \<Rightarrow> (Inl e, s1)
           | (Inr b', s1) \<Rightarrow>
               (case grpc_recvMsg b' of
                  Inl e \<Rightarrow> (Inl e, s1)
                | Inr d \<Rightarrow>
                    (case proto_Unmarshal rfs r0 d of
                       Inl e \<Rightarrow> (Inl (rpc_internal (''grpc: failed to unmarshal the received message: '' @ show_err e)), s1)
                     | Inr out \<Rightarrow> (Inr out, s1)))))"


section \<open>The stubs of the state service\<close>

definition StateService_Lock_Handler ::
    "err_text \<Rightarrow> (lock_request \<Rightarrow> 's \<Rightarrow> (go_err + lock_response) \<times> 's) \<Rightarrow> string \<Rightarrow> 's \<Rightarrow> (go_err + lock_response) \<times> 's" where
  "StateService_Lock_Handler show_err srv = unary_Handler show_err LockRequest_fields LockRequest_zero srv"

definition StateService_Unlock_Handler ::
    "err_text \<Rightarrow> (unlock_request \<Rightarrow> 's \<Rightarrow> (go_err + unlock_response) \<times> 's) \<Rightarrow> string \<Rightarrow> 's \<Rightarrow> (go_err + unlock_response) \<times> 's" where
  "StateService_Unlock_Handler show_err srv = unary_Handler show_err UnlockRequest_fields UnlockRequest_zero srv"

definition StateService_GetState_Handler ::
    "err_text \<Rightarrow> (get_state_request \<Rightarrow> 's \<Rightarrow> (go_err + get_state_response) \<times> 's) \<Rightarrow> string \<Rightarrow> 's
      \<Rightarrow> (go_err + get_state_response) \<times> 's" where
  "StateService_GetState_Handler show_err srv = unary_Handler show_err GetStateRequest_fields GetStateRequest_zero srv"

definition stateServiceClient_Lock ::
    "err_text \<Rightarrow> (lock_request \<Rightarrow> 's \<Rightarrow> (go_err + lock_response) \<times> 's) \<Rightarrow> lock_request \<Rightarrow> 's \<Rightarrow> (go_err + lock_response) \<times> 's" where
  "stateServiceClient_Lock show_err srv =
     grpc_invoke show_err LockRequest_fields LockResponse_fields LockResponse_zero
       (processUnaryRPC show_err LockResponse_fields (StateService_Lock_Handler show_err srv))"

definition stateServiceClient_Unlock ::
    "err_text \<Rightarrow> (unlock_request \<Rightarrow> 's \<Rightarrow> (go_err + unlock_response) \<times> 's) \<Rightarrow> unlock_request \<Rightarrow> 's
      \<Rightarrow> (go_err + unlock_response) \<times> 's" where
  "stateServiceClient_Unlock show_err srv =
     grpc_invoke show_err UnlockRequest_fields UnlockResponse_fields UnlockResponse_zero
       (processUnaryRPC show_err UnlockResponse_fields (StateService_Unlock_Handler show_err srv))"

definition stateServiceClient_GetState ::
    "err_text \<Rightarrow> (get_state_request \<Rightarrow> 's \<Rightarrow> (go_err + get_state_response) \<times> 's) \<Rightarrow> get_state_request \<Rightarrow> 's
      \<Rightarrow> (go_err + get_state_response) \<times> 's" where
  "stateServiceClient_GetState show_err srv =
     grpc_invoke show_err GetStateRequest_fields GetStateResponse_fields GetStateResponse_zero
       (processUnaryRPC show_err GetStateResponse_fields (StateService_GetState_Handler show_err srv))"


section \<open>The codec is transparent\<close>

lemma small_message:
  "length b \<le> maxReceiveMessageSize \<Longrightarrow> grpc_recvMsg b = Inr b \<and> \<not> length b > 2 ^ 32 - 1"
  by (simp add: grpc_recvMsg_def maxReceiveMessageSize_def)

context message_coder
begin

lemma encode_decode:
  assumes "valid m" "sizePointer fs (Some m) \<le> maxReceiveMessageSize" "nesting < DefaultRecursionLimit"
  shows "\<exists>b. grpc_encode show_err fs m = Inr b \<and> grpc_recvMsg b = Inr b \<and> proto_Unmarshal fs zero b = Inr m"
  using marshal_exact [OF assms(1), of "[]"] unmarshal_exact [OF assms(1,3)]
    size_exact [OF assms(1)] assms(2) small_message [of "message_bytes fs m"]
  by (simp add: grpc_encode_def proto_Marshal_def proto_Unmarshal_def)

end

text \<open>
  A unary method over two message coders: when the request and the reply can be sent and are within
  the size limit of a receiver, the caller gets what the server's method returned.
\<close>

locale unary_rpc =
  q: message_coder qfs q0 qpartial qvalid qnesting +
  r: message_coder rfs r0 rpartial rvalid rnesting
  for qfs :: "'q coder_field list" and q0 qpartial qvalid qnesting
    and rfs :: "'r coder_field list" and r0 rpartial rvalid rnesting +
  assumes shallow: "qnesting < DefaultRecursionLimit" "rnesting < DefaultRecursionLimit"
begin

lemma transparent:
  assumes req: "qvalid req" "sizePointer qfs (Some req) \<le> maxReceiveMessageSize"
    and reply: "\<And>reply s1. srv req s = (Inr reply, s1) \<Longrightarrow>
      rvalid reply \<and> sizePointer rfs (Some reply) \<le> maxReceiveMessageSize"
  shows "grpc_invoke show_err qfs rfs r0 (processUnaryRPC show_err rfs (unary_Handler show_err qfs q0 srv)) req s
           = srv req s"
proof -
  obtain b where b: "grpc_encode show_err qfs req = Inr b" "grpc_recvMsg b = Inr b"
      "proto_Unmarshal qfs q0 b = Inr req"
    using q.encode_decode [OF req shallow(1)] by blast
  obtain res s1 where srv: "srv req s = (res, s1)"
    by fastforce
  show ?thesis
  proof (cases res)
    case (Inl e)
    then show ?thesis
      using b srv by (simp add: grpc_invoke_def processUnaryRPC_def unary_Handler_def)
  next
    case (Inr out)
    then obtain b' where "grpc_encode show_err rfs out = Inr b'" "grpc_recvMsg b' = Inr b'"
        "proto_Unmarshal rfs r0 b' = Inr out"
      using r.encode_decode [OF _ _ shallow(2)] reply srv by blast
    then show ?thesis
      using b srv Inr by (simp add: grpc_invoke_def processUnaryRPC_def unary_Handler_def)
  qed
qed

end

interpretation lock_rpc: unary_rpc LockRequest_fields LockRequest_zero lock_request_partial
    lock_request_sendable 2 LockResponse_fields LockResponse_zero lock_response_partial lock_response_sendable 0
  by unfold_locales (simp_all add: DefaultRecursionLimit_def)

interpretation unlock_rpc: unary_rpc UnlockRequest_fields UnlockRequest_zero unlock_request_partial
    unlock_request_sendable 2 UnlockResponse_fields UnlockResponse_zero unlock_response_partial unlock_response_sendable 0
  by unfold_locales (simp_all add: DefaultRecursionLimit_def)

interpretation get_state_rpc: unary_rpc GetStateRequest_fields GetStateRequest_zero get_state_request_partial
    get_state_request_sendable 2 GetStateResponse_fields GetStateResponse_zero get_state_response_partial
    get_state_response_sendable 0
  by unfold_locales (simp_all add: DefaultRecursionLimit_def)

text \<open>A reply with pod counts is always short enough.\<close>

lemma SizeVarint_le: "SizeVarint v \<le> 10"
proof -
  have "bit_count (unat v) \<le> 64"
    using bit_count_le [of "unat v" 64] unsigned_less [of v] by simp
  then show ?thesis
    by (simp add: SizeVarint_def)
qed

lemma get_state_response_small: "sizePointer GetStateResponse_fields (Some r) \<le> 40"
  using SizeVarint_le [of "EncodeTag 1 VarintType"] SizeVarint_le [of "EncodeTag 2 VarintType"]
    SizeVarint_le [of "scast (grs_desiredHealthy r)"] SizeVarint_le [of "scast (grs_healthy r)"]
  by (simp add: GetStateResponse_fields_def field_defs sizeInt32NoZero_def)

lemma get_state_response_deliverable:
  "get_state_response_sendable r \<and> sizePointer GetStateResponse_fields (Some r) \<le> maxReceiveMessageSize"
  using get_state_response_small [of r]
  by (simp add: get_state_response_sendable_def fits_def maxReceiveMessageSize_def)


section \<open>Properties\<close>

lemma steady_messages:
  "steady LockRequest_fields" "steady UnlockRequest_fields" "steady GetStateRequest_fields"
  "steady LockResponse_fields" "steady UnlockResponse_fields" "steady GetStateResponse_fields"
  by (simp_all add: LockRequest_fields_def UnlockRequest_fields_def GetStateRequest_fields_def
      LabelSelector_fields_def LabelSelectorRequirement_fields_def LockResponse_fields_def
      UnlockResponse_fields_def GetStateResponse_fields_def)

lemma proto_Unmarshal_steady:
  assumes "steady fs" "length b < 2 ^ 63"
  shows "proto_Unmarshal fs zero b \<noteq> Inl slicePanic"
  using unmarshalPointer_steady [OF assms, of zero 0 DefaultRecursionLimit]
  by (cases "unmarshalPointer fs b zero 0 DefaultRecursionLimit") (simp_all add: proto_Unmarshal_def)

text \<open>
  C17. Both clusters lock the same lease: a lock request, marshalled with the labels in whatever order
  the map is iterated, is unmarshalled by the peer to a request with the same holder and namespace,
  and from its selector the peer computes the lease name that the sender uses for its own cluster.
\<close>

theorem peer_locks_the_same_lease:
  assumes "distinct (map fst (match_labels sel))"
    and "mset (match_labels sel') = mset (match_labels sel)" "match_expressions sel' = match_expressions sel"
    and "req = \<lparr>lrq_leaseHolderIdentity = me, lrq_namespace = ns,
                lrq_labelSelector = Some (ConvertLabelSelectorToState sel')\<rparr>"
    and "lock_request_sendable req"
  shows "\<exists>b req' sel''. proto_Marshal LockRequest_fields req = Inr b \<and>
     proto_Unmarshal LockRequest_fields LockRequest_zero b = Inr req' \<and>
     lrq_leaseHolderIdentity req' = me \<and> lrq_namespace req' = ns \<and>
     ConvertLabelSelectorToMetaV1 (lrq_labelSelector req') = Ok sel'' \<and>
     createLeaseNameForSelector (lrq_namespace req') sel'' = createLeaseNameForSelector ns sel"
  using lock_request_wire.round_trip [OF assms(5)] lease_name_ignores_label_order [OF assms(1,2,3), of ns]
  by (auto simp: DefaultRecursionLimit_def assms(4))

text \<open>
  C19. No message from outside panics the decoder: whatever bytes arrive as a request or as a reply of the state
  service, every index expression and every slice expression of the protobuf decoder over these bytes is in range.
  Each of them is checked in the model, as Go checks it: the fast paths of tags and numbers, the readers of
  variable length and fixed width integers and of length-prefixed bytes, the loops over the fields of a message, over the fields of a map entry and
  over an unknown group. The stubs decode before the recovery interceptor, so a panic there would
  end the controller.
\<close>

theorem decoding_never_panics:
  assumes "length b < 2 ^ 63"
  shows "proto_Unmarshal LockRequest_fields LockRequest_zero b \<noteq> Inl slicePanic \<and>
     proto_Unmarshal UnlockRequest_fields UnlockRequest_zero b \<noteq> Inl slicePanic \<and>
     proto_Unmarshal GetStateRequest_fields GetStateRequest_zero b \<noteq> Inl slicePanic \<and>
     proto_Unmarshal LockResponse_fields LockResponse_zero b \<noteq> Inl slicePanic \<and>
     proto_Unmarshal UnlockResponse_fields UnlockResponse_zero b \<noteq> Inl slicePanic \<and>
     proto_Unmarshal GetStateResponse_fields GetStateResponse_zero b \<noteq> Inl slicePanic"
  by (intro conjI proto_Unmarshal_steady steady_messages assms)

theorem decoding_never_panics_witness:
  "proto_Unmarshal LockRequest_fields LockRequest_zero [CHR 0x1A, CHR 0xFF, CHR 0x01] \<noteq> Inl slicePanic"
  using decoding_never_panics [of "[CHR 0x1A, CHR 0xFF, CHR 0x01]"] by simp

definition wire_selector :: label_selector where
  "wire_selector =
     \<lparr>match_labels = [(''app'', ''web''), (''tier'', ''1'')],
      match_expressions = [\<lparr>lsr_key = ''env'', lsr_operator = ''In'', lsr_values = [''prod'', ''qa'']\<rparr>]\<rparr>"

definition wire_selector' :: label_selector where
  "wire_selector' = wire_selector\<lparr>match_labels := [(''tier'', ''1''), (''app'', ''web'')]\<rparr>"

definition wire_lock :: lock_request where
  "wire_lock = \<lparr>lrq_leaseHolderIdentity = ''c1/shop/web-0'', lrq_namespace = ''shop'',
     lrq_labelSelector = Some (ConvertLabelSelectorToState wire_selector')\<rparr>"

text \<open>Sizes and encodings of short messages, for concrete requests.\<close>

lemma SizeBytes_small: "n < 128 \<Longrightarrow> SizeBytes n = Suc n"
  by (simp add: SizeBytes_exact varint_small)

lemma tag_sizes: "SizeVarint (EncodeTag 1 BytesType) = 1" "SizeVarint (EncodeTag 2 BytesType) = 1"
  "SizeVarint (EncodeTag 3 BytesType) = 1" "SizeVarint (EncodeTag 1 VarintType) = 1" "SizeVarint 1 = 1"
  by code_simp+

lemma utf8_Valid_Cons: "of_char c < (128 :: nat) \<Longrightarrow> utf8_Valid (c # cs) = utf8_Valid cs"
  by (simp add: utf8_Valid.simps(2) in_range_def)

lemmas wire_eval = LockRequest_fields_def LockResponse_fields_def UnlockRequest_fields_def
  UnlockResponse_fields_def GetStateRequest_fields_def LabelSelector_fields_def
  LabelSelectorRequirement_fields_def field_defs fits_def sizeStringNoZero_def sizeStringPtr_def
  sizeStringSlice_def sizeBoolNoZero_def sizeMessageInfo_def sizeMessageSliceInfo_def sizeMap_def
  sizeStringValue_def EncodeBool_def SizeBytes_small tag_sizes utf8_Valid_Cons entry_ok_def
  lock_request_sendable_def lock_response_sendable_def unlock_request_sendable_def
  unlock_response_sendable_def get_state_request_sendable_def selector_sendable_def
  requirement_sendable_def maxReceiveMessageSize_def ConvertLabelSelectorToState_def
  ConvertLabelSelectorRequirementToState_def

lemma wire_lock_sendable: "lock_request_sendable wire_lock"
  by (simp add: wire_lock_def wire_selector'_def wire_selector_def wire_eval)

theorem peer_locks_the_same_lease_witness:
  "\<exists>b req' sel''. proto_Marshal LockRequest_fields wire_lock = Inr b \<and>
     proto_Unmarshal LockRequest_fields LockRequest_zero b = Inr req' \<and>
     lrq_leaseHolderIdentity req' = ''c1/shop/web-0'' \<and> lrq_namespace req' = ''shop'' \<and>
     ConvertLabelSelectorToMetaV1 (lrq_labelSelector req') = Ok sel'' \<and>
     createLeaseNameForSelector (lrq_namespace req') sel'' = createLeaseNameForSelector ''shop'' wire_selector"
  by (rule peer_locks_the_same_lease [OF _ _ _ wire_lock_def wire_lock_sendable])
     (simp_all add: wire_selector_def wire_selector'_def)

end
