(* ===== verification/Probe_Rpc.thy ===== *)
theory Probe_Rpc
  imports State_Rpc Disruption_Probe
begin

text \<open>
  The messages and stubs of the disruption probe service (\<^verbatim>\<open>pkg/proto/disruptionprobe/v1\<close>), on the same
  coders and the same gRPC functions as the state service.
\<close>

section \<open>Messages\<close>

definition IsDisruptionAllowedRequest_fields :: "probe_request coder_field list" where
  "IsDisruptionAllowedRequest_fields =
     [string_field 1 prq_podName (\<lambda>v m. m\<lparr>prq_podName := v\<rparr>),
      string_field 2 prq_podNamespace (\<lambda>v m. m\<lparr>prq_podNamespace := v\<rparr>),
      string_field 3 prq_xpdbName (\<lambda>v m. m\<lparr>prq_xpdbName := v\<rparr>),
      string_field 4 prq_xpdbNamespace (\<lambda>v m. m\<lparr>prq_xpdbNamespace := v\<rparr>)]"

definition IsDisruptionAllowedRequest_zero :: probe_request where
  "IsDisruptionAllowedRequest_zero =
     \<lparr>prq_podName = [], prq_podNamespace = [], prq_xpdbName = [], prq_xpdbNamespace = []\<rparr>"

definition IsDisruptionAllowedResponse_fields :: "probe_response coder_field list" where
  "IsDisruptionAllowedResponse_fields =
     [bool_field 1 prs_isAllowed (\<lambda>v m. m\<lparr>prs_isAllowed := v\<rparr>),
      string_field 2 prs_error (\<lambda>v m. m\<lparr>prs_error := v\<rparr>)]"

definition IsDisruptionAllowedResponse_zero :: probe_response where
  "IsDisruptionAllowedResponse_zero = \<lparr>prs_isAllowed = False, prs_error = []\<rparr>"

definition probe_request_sendable :: "probe_request \<Rightarrow> bool" where
  "probe_request_sendable r \<longleftrightarrow>
     utf8_Valid (prq_podName r) \<and> utf8_Valid (prq_podNamespace r) \<and> utf8_Valid (prq_xpdbName r) \<and>
     utf8_Valid (prq_xpdbNamespace r) \<and> fits IsDisruptionAllowedRequest_fields r"

definition probe_response_sendable :: "probe_response \<Rightarrow> bool" where
  "probe_response_sendable r \<longleftrightarrow> utf8_Valid (prs_error r) \<and> fits IsDisruptionAllowedResponse_fields r"

definition probe_request_partial :: "nat \<Rightarrow> probe_request \<Rightarrow> probe_request" where
  "probe_request_partial i m =
     \<lparr>prq_podName = (if 0 < i then prq_podName m else []),
      prq_podNamespace = (if 1 < i then prq_podNamespace m else []),
      prq_xpdbName = (if 2 < i then prq_xpdbName m else []),
      prq_xpdbNamespace = (if 3 < i then prq_xpdbNamespace m else [])\<rparr>"

definition probe_response_partial :: "nat \<Rightarrow> probe_response \<Rightarrow> probe_response" where
  "probe_response_partial i m =
     \<lparr>prs_isAllowed = (if 0 < i then prs_isAllowed m else False),
      prs_error = (if 1 < i then prs_error m else [])\<rparr>"

lemma probe_request_carries:
  assumes "probe_request_sendable m" "i < 4"
  shows "carries IsDisruptionAllowedRequest_fields 0 (IsDisruptionAllowedRequest_fields ! i) m
           (probe_request_partial i m) (probe_request_partial (Suc i) m)"
proof -
  have "i = 0 \<or> i = 1 \<or> i = 2 \<or> i = 3"
    using assms(2) by auto
  then show ?thesis
    using assms(1) unfolding IsDisruptionAllowedRequest_fields_def
    by (elim disjE; simp; intro string_field_carries)
       (auto simp: carry_simps probe_request_partial_def probe_request_sendable_def
          IsDisruptionAllowedRequest_fields_def)
qed

interpretation probe_request_wire: message_coder IsDisruptionAllowedRequest_fields
    IsDisruptionAllowedRequest_zero probe_request_partial probe_request_sendable 0
proof unfold_locales
  show "carries IsDisruptionAllowedRequest_fields 0 (IsDisruptionAllowedRequest_fields ! i) m
      (probe_request_partial i m) (probe_request_partial (Suc i) m)"
    if "probe_request_sendable m" "i < length IsDisruptionAllowedRequest_fields" for m i
    using probe_request_carries [OF that(1)] that(2) by (simp add: IsDisruptionAllowedRequest_fields_def)
qed (simp_all add: IsDisruptionAllowedRequest_zero_def IsDisruptionAllowedRequest_fields_def
    probe_request_partial_def probe_request_sendable_def fits_def)

lemma probe_response_carries:
  assumes "probe_response_sendable m"
  shows "carries IsDisruptionAllowedResponse_fields 0 (IsDisruptionAllowedResponse_fields ! 0) m
           (probe_response_partial 0 m) (probe_response_partial 1 m)"
    and "carries IsDisruptionAllowedResponse_fields 0 (IsDisruptionAllowedResponse_fields ! 1) m
           (probe_response_partial 1 m) (probe_response_partial 2 m)"
  subgoal
    using assms unfolding IsDisruptionAllowedResponse_fields_def
    by (simp, intro bool_field_carries) (auto simp: carry_simps probe_response_partial_def)
  subgoal
    using assms unfolding IsDisruptionAllowedResponse_fields_def
    by (simp, intro string_field_carries)
       (auto simp: carry_simps probe_response_partial_def probe_response_sendable_def
          IsDisruptionAllowedResponse_fields_def)
  done

interpretation probe_response_wire: message_coder IsDisruptionAllowedResponse_fields
    IsDisruptionAllowedResponse_zero probe_response_partial probe_response_sendable 0
proof unfold_locales
  show "carries IsDisruptionAllowedResponse_fields 0 (IsDisruptionAllowedResponse_fields ! i) m
      (probe_response_partial i m) (probe_response_partial (Suc i) m)"
    if "probe_response_sendable m" "i < length IsDisruptionAllowedResponse_fields" for m i
    using probe_response_carries [OF that(1)] that(2) less_2_cases [of i]
    by (auto simp: IsDisruptionAllowedResponse_fields_def numeral_2_eq_2)
qed (simp_all add: IsDisruptionAllowedResponse_zero_def IsDisruptionAllowedResponse_fields_def
    probe_response_partial_def probe_response_sendable_def fits_def)


section \<open>Stubs\<close>

definition DisruptionProbeService_IsDisruptionAllowed_Handler ::
    "err_text \<Rightarrow> (probe_request \<Rightarrow> 's \<Rightarrow> (go_err + probe_response) \<times> 's) \<Rightarrow> string \<Rightarrow> 's
      \<Rightarrow> (go_err + probe_response) \<times> 's" where
  "DisruptionProbeService_IsDisruptionAllowed_Handler show_err srv =
     unary_Handler show_err IsDisruptionAllowedRequest_fields IsDisruptionAllowedRequest_zero srv"

definition disruptionProbeServiceClient_IsDisruptionAllowed ::
    "err_text \<Rightarrow> (probe_request \<Rightarrow> 's \<Rightarrow> (go_err + probe_response) \<times> 's) \<Rightarrow> probe_request \<Rightarrow> 's
      \<Rightarrow> (go_err + probe_response) \<times> 's" where
  "disruptionProbeServiceClient_IsDisruptionAllowed show_err srv =
     grpc_invoke show_err IsDisruptionAllowedRequest_fields IsDisruptionAllowedResponse_fields
       IsDisruptionAllowedResponse_zero
       (processUnaryRPC show_err IsDisruptionAllowedResponse_fields
          (DisruptionProbeService_IsDisruptionAllowed_Handler show_err srv))"

interpretation probe_rpc: unary_rpc IsDisruptionAllowedRequest_fields IsDisruptionAllowedRequest_zero
    probe_request_partial probe_request_sendable 0 IsDisruptionAllowedResponse_fields
    IsDisruptionAllowedResponse_zero probe_response_partial probe_response_sendable 0
  by unfold_locales (simp_all add: DefaultRecursionLimit_def)

text \<open>The probe service reaches the probe server's own method through the stubs.\<close>

lemma probe_call_transparent:
  assumes "probe_request_sendable req"
    and "sizePointer IsDisruptionAllowedRequest_fields (Some req) \<le> maxReceiveMessageSize"
    and "\<And>r s1. srv req s = (Inr r, s1) \<Longrightarrow> probe_response_sendable r \<and>
       sizePointer IsDisruptionAllowedResponse_fields (Some r) \<le> maxReceiveMessageSize"
  shows "disruptionProbeServiceClient_IsDisruptionAllowed show_err srv req s = srv req s"
  unfolding disruptionProbeServiceClient_IsDisruptionAllowed_def
    DisruptionProbeService_IsDisruptionAllowed_Handler_def
  using assms(3) by (rule probe_rpc.transparent [OF assms(1,2)])

lemma probe_decoding_never_panics:
  "length b < 2 ^ 63 \<Longrightarrow>
   proto_Unmarshal IsDisruptionAllowedRequest_fields IsDisruptionAllowedRequest_zero b \<noteq> Inl slicePanic"
  by (rule proto_Unmarshal_steady) (simp_all add: IsDisruptionAllowedRequest_fields_def)

end
