(* ===== verification/Test_Apps.thy ===== *)
theory Test_Apps
  imports State_Server Disruption_Probe
begin

text \<open>
  The two programs of the integration tests, \<^verbatim>\<open>cmd/testapp/main.go\<close> (a pod whose readiness follows a
  config map) and \<^verbatim>\<open>cmd/testdisruptionprobe/main.go\<close> (a probe server whose refusals follow a config
  map). Watches deliver the events that are an argument here.
\<close>

section \<open>The test application\<close>

type_synonym config_map = dict

text \<open>\<^verbatim>\<open>isPodReady\<close>: a missing key of a Go map reads as the empty string.\<close>

definition testapp_isPodReady :: "string \<Rightarrow> config_map option \<Rightarrow> string + bool" where
  "testapp_isPodReady hostname cm =
     (case cm of
        None \<Rightarrow> Inr False
      | Some d \<Rightarrow>
          if map_of d ''always'' = Some ''true'' then Inr True
          else (case map_of d hostname of None \<Rightarrow> Inr False | Some val \<Rightarrow> ParseBool val))"

text \<open>
  The loop over the watch: an event carries a config map, or something else (the failed conversion
  leaves a nil pointer). \<^verbatim>\<open>reportPodReady\<close> is assigned also when there is an error.
\<close>

definition testapp_event :: "string \<Rightarrow> config_map option \<Rightarrow> bool \<Rightarrow> bool" where
  "testapp_event hostname cm reportPodReady =
     (case testapp_isPodReady hostname cm of Inr b \<Rightarrow> b | Inl _ \<Rightarrow> False)"

definition testapp_run :: "string \<Rightarrow> config_map option list \<Rightarrow> bool" where
  "testapp_run hostname events = foldl (\<lambda>ready cm. testapp_event hostname cm ready) False events"



text \<open>
  \<^verbatim>\<open>main\<close>: the start, which may end the process with code 1, and the endless loop over the \<^verbatim>\<open>select\<close>. The
  value \<^term>\<open>Some code\<close> says that the process ends, \<^term>\<open>None\<close> that it runs for ever. After a signal the watch
  is stopped; its channel is closed then, and a receive from it gives the zero event, which carries no
  config map.
\<close>

datatype select_event = Received "config_map option" | Signalled

record testapp_state =
  ta_ready :: bool
  ta_stopped :: bool

record testapp_env =
  te_client :: "go_err option"
  te_namespace :: string
  te_hostname :: string
  te_watch :: "go_err option"

definition testapp_select :: "string \<Rightarrow> select_event \<Rightarrow> testapp_state \<Rightarrow> testapp_state" where
  "testapp_select hostname ev st =
     (case ev of
        Received cm \<Rightarrow> st\<lparr>ta_ready := testapp_event hostname (if ta_stopped st then None else cm) (ta_ready st)\<rparr>
      | Signalled \<Rightarrow> st\<lparr>ta_stopped := True\<rparr>)"

partial_function (option) testapp_loop ::
    "string \<Rightarrow> (nat \<Rightarrow> select_event) \<Rightarrow> nat \<Rightarrow> testapp_state \<Rightarrow> nat option" where
  "testapp_loop hostname events i st = testapp_loop hostname events (i + 1) (testapp_select hostname (events i) st)"

definition testapp_main :: "testapp_env \<Rightarrow> (nat \<Rightarrow> select_event) \<Rightarrow> nat option" where
  "testapp_main env events =
     (if te_client env \<noteq> None then Some 1
      else if te_namespace env = [] then Some 1
      else if te_watch env \<noteq> None then Some 1
      else testapp_loop (te_hostname env) events 0 \<lparr>ta_ready = False, ta_stopped = False\<rparr>)"

lemma testapp_loop_diverges: "testapp_loop hostname events i st = None"
proof -
  have False if "testapp_loop hostname events i st = Some code" for code
    by (rule testapp_loop.raw_induct [where P = "\<lambda>_ _ _ _ _. False", OF _ that]) blast
  then show ?thesis by (cases "testapp_loop hostname events i st") auto
qed




section \<open>The test probe server\<close>

text \<open>The flags of \<^verbatim>\<open>main\<close> with their defaults, the watcher of the config map and the server.\<close>

record probe_flags =
  pf_listenAddr :: string
  pf_certsDir :: string
  pf_namespace :: string

definition default_probe_flags :: probe_flags where
  "default_probe_flags = \<lparr>pf_listenAddr = '':8080'', pf_certsDir = ''/etc/certs'', pf_namespace = []\<rparr>"

record configWatcher =
  cw_namespace :: string
  cw_notAllowedDisruptions :: "string \<Rightarrow> bool"

record disruptionProbeServer =
  dp_configWatcher :: configWatcher

record probe_server =
  sv_listenAddr :: string
  sv_certsDir :: string
  sv_srv :: disruptionProbeServer

text \<open>\<^verbatim>\<open>parseConfigMap\<close>: the set of refused pods, as the keys of a map to true.\<close>

definition parseConfigMap :: "config_map \<Rightarrow> configWatcher \<Rightarrow> configWatcher" where
  "parseConfigMap cm w =
     (let content = (case map_of cm ''notAllowedDisruptions'' of None \<Rightarrow> [] | Some c \<Rightarrow> c);
          items = split_on CHR '','' content
      in w\<lparr>cw_notAllowedDisruptions := foldl (\<lambda>m item. m(item := True)) (\<lambda>k. False) items\<rparr>)"

definition configWatcher_IsDisruptionAllowed :: "configWatcher \<Rightarrow> string \<Rightarrow> string \<Rightarrow> bool" where
  "configWatcher_IsDisruptionAllowed r ns name = (\<not> cw_notAllowedDisruptions r (ns @ ''/'' @ name))"

definition probeServer_IsDisruptionAllowed :: "disruptionProbeServer \<Rightarrow> probe_request \<Rightarrow> go_err + probe_response" where
  "probeServer_IsDisruptionAllowed s req =
     Inr \<lparr>prs_isAllowed = configWatcher_IsDisruptionAllowed (dp_configWatcher s) (prq_podNamespace req) (prq_podName req),
          prs_error = []\<rparr>"

text \<open>
  \<^verbatim>\<open>configWatcher.Start\<close>: the watch on the config maps of the namespace with the label of the probe, the first
  read of the config map, then the events of the watch (\<^verbatim>\<open>None\<close> for an object that is not a config map) until the
  context is done.
\<close>

record watch_env =
  wv_watch :: "string \<Rightarrow> string \<times> string \<Rightarrow> go_err option"
  wv_get :: "string \<Rightarrow> string \<Rightarrow> go_err + config_map"

definition watch_event :: "config_map option \<Rightarrow> configWatcher \<Rightarrow> configWatcher" where
  "watch_event ev w = (case ev of None \<Rightarrow> w | Some cm \<Rightarrow> parseConfigMap cm w)"

definition configWatcher_Start ::
    "watch_env \<Rightarrow> config_map option list \<Rightarrow> configWatcher \<Rightarrow> go_err option \<times> configWatcher" where
  "configWatcher_Start env events w =
     (case wv_watch env (cw_namespace w) (''test-disruption-probe-config'', ''true'') of
        Some e \<Rightarrow> (Some e, w)
      | None \<Rightarrow>
          (case wv_get env (cw_namespace w) ''test-disruption-probe-config'' of
             Inl e \<Rightarrow> (Some e, w)
           | Inr cm \<Rightarrow> (None, foldl (\<lambda>w ev. watch_event ev w) (parseConfigMap cm w) events)))"

text \<open>
  \<^verbatim>\<open>server.Start\<close> of the probe server has the steps of the state server (its TLS configuration does
  not ask for client certificates) and the same last \<^verbatim>\<open>select\<close>.
\<close>

definition probeServer_Start :: "server_env \<Rightarrow> probe_server \<Rightarrow> go_err option" where
  "probeServer_Start env s =
     (case se_listen env (sv_listenAddr s) of
        Some e \<Rightarrow> Some e
      | None \<Rightarrow>
          (case se_certwatcher env (path_Join [sv_certsDir s, ''tls.crt'']) (path_Join [sv_certsDir s, ''tls.key'']) of
             Some e \<Rightarrow> Some (EWrap ''error creating cert watcher'' e)
           | None \<Rightarrow>
               (case se_readFile env (path_Join [sv_certsDir s, ''ca.crt'']) of
                  Inl e \<Rightarrow> Some (EWrap ''failed to read client CA cert'' e)
                | Inr clientCABytes \<Rightarrow>
                    (let err = None
                     in if \<not> se_appendCerts env clientCABytes
                        then Some (EMsg ''failed to append client CA cert to CA pool'')
                        else (case se_ended env of CtxDone \<Rightarrow> None | ServeFailed _ \<Rightarrow> err)))))"

text \<open>
  \<^verbatim>\<open>handleTerminationSignal\<close>, and \<^verbatim>\<open>main\<close>: the three tasks run in an \<^verbatim>\<open>errgroup\<close>, which returns the first error
  in the order in which the tasks end. The exit code is 1 after an error, and after a signal.
\<close>

datatype termination_event = GotSignal string | ContextDone go_err

definition context_Canceled :: go_err where
  "context_Canceled = EMsg ''context canceled''"

definition handleTerminationSignal :: "termination_event \<Rightarrow> go_err option" where
  "handleTerminationSignal ev =
     (case ev of
        GotSignal sig \<Rightarrow> Some (EMsg (''received signal '' @ sig))
      | ContextDone err \<Rightarrow> if err = context_Canceled then None else Some err)"

fun errgroup_Wait :: "go_err option list \<Rightarrow> go_err option" where
  "errgroup_Wait [] = None"
| "errgroup_Wait (r # rs) = (case r of Some e \<Rightarrow> Some e | None \<Rightarrow> errgroup_Wait rs)"

datatype probe_task = WatcherTask | ServerTask | SignalTask

text \<open>
  What surrounds the program: the client it creates, the API server, the files and the network, the events of the
  watch, what ends the wait for a signal, and the order in which the tasks end.
\<close>

record probeapp_env =
  pa_client :: "go_err option"
  pa_watch :: watch_env
  pa_server :: server_env
  pa_events :: "config_map option list"
  pa_end :: termination_event
  pa_order :: "probe_task list"

definition probeapp_main :: "probeapp_env \<Rightarrow> probe_flags \<Rightarrow> nat" where
  "probeapp_main env fl =
     (if pa_client env \<noteq> None then 1
      else
        (let configWatcher = \<lparr>cw_namespace = pf_namespace fl, cw_notAllowedDisruptions = (\<lambda>k. False)\<rparr>;
             srv = \<lparr>sv_listenAddr = pf_listenAddr fl, sv_certsDir = pf_certsDir fl,
                    sv_srv = \<lparr>dp_configWatcher = configWatcher\<rparr>\<rparr>;
             result = (\<lambda>t. case t of
                         WatcherTask \<Rightarrow> fst (configWatcher_Start (pa_watch env) (pa_events env) configWatcher)
                       | ServerTask \<Rightarrow> probeServer_Start (pa_server env) srv
                       | SignalTask \<Rightarrow> handleTerminationSignal (pa_end env))
         in case errgroup_Wait (map result (pa_order env)) of Some _ \<Rightarrow> 1 | None \<Rightarrow> 0))"

lemma errgroup_Wait_None: "errgroup_Wait rs = None \<longleftrightarrow> (\<forall>r\<in>set rs. r = None)"
  by (induction rs) (auto split: option.splits)

text \<open>
  The process ends without an error only when its context was cancelled, which nothing in it does unless a
  task fails: a signal gives the exit code 1.
\<close>

lemma probeapp_signal_fails:
  assumes "SignalTask \<in> set (pa_order env)" "pa_end env = GotSignal sig"
  shows "probeapp_main env fl = 1"
proof (cases "pa_client env")
  case None
  let ?result = "\<lambda>t. case t of
      WatcherTask \<Rightarrow> fst (configWatcher_Start (pa_watch env) (pa_events env) \<lparr>cw_namespace = pf_namespace fl, cw_notAllowedDisruptions = (\<lambda>k. False)\<rparr>)
    | ServerTask \<Rightarrow> probeServer_Start (pa_server env) \<lparr>sv_listenAddr = pf_listenAddr fl, sv_certsDir = pf_certsDir fl,
        sv_srv = \<lparr>dp_configWatcher = \<lparr>cw_namespace = pf_namespace fl, cw_notAllowedDisruptions = (\<lambda>k. False)\<rparr>\<rparr>\<rparr>
    | SignalTask \<Rightarrow> handleTerminationSignal (pa_end env)"
  have "?result SignalTask \<noteq> None" using assms(2) by (simp add: handleTerminationSignal_def)
  then have "\<exists>r\<in>set (map ?result (pa_order env)). r \<noteq> None" using assms(1) by (metis imageI list.set_map)
  then have "errgroup_Wait (map ?result (pa_order env)) \<noteq> None" using errgroup_Wait_None by blast
  with None show ?thesis by (auto simp: probeapp_main_def Let_def)
qed (simp add: probeapp_main_def)

lemma foldl_mark: "foldl (\<lambda>m item. m(item := True)) m items k \<longleftrightarrow> m k \<or> k \<in> set items"
  by (induction items arbitrary: m) auto

lemma parseConfigMap_iff:
  "cw_notAllowedDisruptions (parseConfigMap cm w) k \<longleftrightarrow>
     k \<in> set (split_on CHR '','' (case map_of cm ''notAllowedDisruptions'' of None \<Rightarrow> [] | Some c \<Rightarrow> c))"
  by (simp add: parseConfigMap_def Let_def foldl_mark)


section \<open>Properties\<close>

text \<open>
  The test probe server refuses exactly the pods that the config map names: with a list of
  \<^verbatim>\<open>namespace/name\<close> entries without commas, joined by commas, a pod is refused if and only if its entry
  is in the list, whatever was configured before.
\<close>

theorem probe_server_refuses_listed_pods:
  assumes "entries \<noteq> []" "\<forall>e\<in>set entries. CHR '','' \<notin> set e"
  shows "probeServer_IsDisruptionAllowed
      \<lparr>dp_configWatcher = watch_event (Some [(''notAllowedDisruptions'', join_with '','' entries)]) w\<rparr> req =
     Inr \<lparr>prs_isAllowed = (prq_podNamespace req @ ''/'' @ prq_podName req \<notin> set entries), prs_error = []\<rparr>"
  using assms split_join [of entries "CHR '',''"]
  by (simp add: probeServer_IsDisruptionAllowed_def configWatcher_IsDisruptionAllowed_def watch_event_def
      parseConfigMap_iff)




end
