(* ===== verification/Probe_Veto.thy ===== *)
theory Probe_Veto
  imports Probe_Rpc Test_Apps Samples
begin

text \<open>
  The disruption probe from end to end: the webhook, the probe service, the stubs and the codec of the probe's
  protocol, and the test probe server, whose refusals follow a config map.
\<close>

section \<open>The call on a connection\<close>

text \<open>The probe server as the stubs reach it; its state is the watcher of the config map.\<close>

definition test_probe :: "err_text \<Rightarrow> 'd \<Rightarrow> probe_request \<Rightarrow> configWatcher \<Rightarrow> (go_err + probe_response) \<times> configWatcher" where
  "test_probe show_err c =
     disruptionProbeServiceClient_IsDisruptionAllowed show_err
       (\<lambda>req w. (probeServer_IsDisruptionAllowed \<lparr>dp_configWatcher = w\<rparr> req, w))"

text \<open>Names of Kubernetes objects have at most 253 characters; two of each make a short message.\<close>

definition short_name :: "string \<Rightarrow> bool" where
  "short_name s \<longleftrightarrow> utf8_Valid s \<and> length s \<le> 253"

lemma string_size_le: "length v \<le> 253 \<Longrightarrow> sizeStringNoZero (SizeVarint t) v \<le> 300"
  using SizeVarint_le [of t] SizeVarint_le [of "of_nat (length v)"] by (simp add: sizeStringNoZero_def SizeBytes_def)

lemma probe_request_small:
  assumes "short_name (prq_podName r)" "short_name (prq_podNamespace r)" "short_name (prq_xpdbName r)"
    "short_name (prq_xpdbNamespace r)"
  shows "sizePointer IsDisruptionAllowedRequest_fields (Some r) \<le> 1200"
proof -
  have "sizePointer IsDisruptionAllowedRequest_fields (Some r) =
      sizeStringNoZero (SizeVarint (EncodeTag 1 BytesType)) (prq_podName r) +
      sizeStringNoZero (SizeVarint (EncodeTag 2 BytesType)) (prq_podNamespace r) +
      sizeStringNoZero (SizeVarint (EncodeTag 3 BytesType)) (prq_xpdbName r) +
      sizeStringNoZero (SizeVarint (EncodeTag 4 BytesType)) (prq_xpdbNamespace r)"
    by (simp add: IsDisruptionAllowedRequest_fields_def field_defs)
  then show ?thesis
    using assms string_size_le [of "prq_podName r" "EncodeTag 1 BytesType"]
      string_size_le [of "prq_podNamespace r" "EncodeTag 2 BytesType"]
      string_size_le [of "prq_xpdbName r" "EncodeTag 3 BytesType"]
      string_size_le [of "prq_xpdbNamespace r" "EncodeTag 4 BytesType"]
    unfolding short_name_def by linarith
qed

lemma probe_verdict_small: "sizePointer IsDisruptionAllowedResponse_fields (Some \<lparr>prs_isAllowed = b, prs_error = []\<rparr>) \<le> 40"
  using SizeVarint_le [of "EncodeTag 1 VarintType"] SizeVarint_le [of "EncodeBool True"]
  by (simp add: IsDisruptionAllowedResponse_fields_def field_defs sizeBoolNoZero_def sizeStringNoZero_def)

lemma test_probe_answers:
  assumes "short_name (prq_podName r)" "short_name (prq_podNamespace r)" "short_name (prq_xpdbName r)"
    "short_name (prq_xpdbNamespace r)"
  shows "test_probe show_err c r w =
    (Inr \<lparr>prs_isAllowed = configWatcher_IsDisruptionAllowed w (prq_podNamespace r) (prq_podName r), prs_error = []\<rparr>, w)"
proof -
  have req: "probe_request_sendable r" "sizePointer IsDisruptionAllowedRequest_fields (Some r) \<le> maxReceiveMessageSize"
    using assms probe_request_small [OF assms]
    by (simp_all add: probe_request_sendable_def short_name_def fits_def maxReceiveMessageSize_def del: sizePointer.simps)
  have "probe_response_sendable \<lparr>prs_isAllowed = b, prs_error = []\<rparr> \<and>
      sizePointer IsDisruptionAllowedResponse_fields (Some \<lparr>prs_isAllowed = b, prs_error = []\<rparr>) \<le> maxReceiveMessageSize" for b
    using probe_verdict_small [of b]
    by (simp add: probe_response_sendable_def fits_def maxReceiveMessageSize_def del: sizePointer.simps)
  then show ?thesis
    unfolding test_probe_def
    by (subst probe_call_transparent [OF req]) (auto simp: probeServer_IsDisruptionAllowed_def)
qed

text \<open>The watcher after its start: the last config map counts, whatever it was configured with before.\<close>

lemma watcher_lists:
  assumes "configWatcher_Start wenv (evs @ [Some [(''notAllowedDisruptions'', join_with '','' entries)]]) w0 = (None, w)"
    and "entries \<noteq> []" "\<forall>e \<in> set entries. CHR '','' \<notin> set e"
  shows "configWatcher_IsDisruptionAllowed w ns name \<longleftrightarrow> ns @ ''/'' @ name \<notin> set entries"
  using assms split_join [of entries "CHR '',''"]
  by (auto simp: configWatcher_Start_def configWatcher_IsDisruptionAllowed_def watch_event_def parseConfigMap_iff
      split: option.splits sum.splits)


section \<open>Properties\<close>

text \<open>
  C37. A probe server has a veto. Let a pod be subject to one active budget whose probe is enabled and served by the test probe
  server, whose config map last listed \<open>entries\<close>, after any earlier events. If the pod is
  in the list, the webhook does not admit its disruption, whatever the locks and the counts say. And once the server is reached, the answer of the
  probe is whether the pod is not in the list. The calls go through the generated stubs and the codec; names have the
  length that Kubernetes allows.
\<close>

theorem listed_pod_is_not_admitted:
  assumes "decodePod env req (st_pods st) = Inr p" "\<not> exempt p" "GetXPdbsForPod (wh_pdb h) p = Inr [x]"
    and "spec_suspend (xpdb_spec x) \<noteq> Some True" "spec_probe (xpdb_spec x) = Some probe" "probe_enabled probe \<noteq> Some False"
    and "pe_IsDisruptionAllowed (we_probe env) = test_probe show_err" "st_probe st = (pool, w)"
    and "configWatcher_Start wenv (evs @ [Some [(''notAllowedDisruptions'', join_with '','' entries)]]) w0 = (None, w)"
    and "entries \<noteq> []" "\<forall>e \<in> set entries. CHR '','' \<notin> set e"
    and "short_name (pod_name p)" "short_name (pod_namespace p)" "short_name (xpdb_name x)" "short_name (xpdb_namespace x)"
  shows "(pod_namespace p @ ''/'' @ pod_name p \<in> set entries \<longrightarrow>
       \<not> (\<exists>resp st'. Handle env h inp req st = (Ok resp, st') \<and> ar_allowed resp)) \<and>
     (\<forall>c pool'. probe_pool_Get (pe_dial (we_probe env)) pool (probe_endpoint probe) = (Inr c, pool') \<longrightarrow>
       probe_CanPodBeDisrupted (we_probe env) p x (st_probe st) =
         (Inr (pod_namespace p @ ''/'' @ pod_name p \<notin> set entries), (pool', w)))"
proof -
  have ans: "pe_IsDisruptionAllowed (we_probe env) c (probe_request_for p x) w =
      (Inr \<lparr>prs_isAllowed = (pod_namespace p @ ''/'' @ pod_name p \<notin> set entries), prs_error = []\<rparr>, w)" for c
    using assms(7,12-15) watcher_lists [OF assms(9-11)] test_probe_answers [of "probe_request_for p x" show_err c w]
    by (simp add: probe_request_for_def)
  have veto: "pod_namespace p @ ''/'' @ pod_name p \<notin> set entries"
    if "Handle env h inp req st = (Ok resp, st')" "ar_allowed resp" for resp st'
  proof -
    have "checks_passed env h inp p x st st'"
      using that assms(1-4) Handle_allowed [of env h inp req st st'] by (auto simp: admits_def)
    moreover have "probe_wanted x" using assms(5,6) by (auto simp: probe_wanted_def split: option.splits)
    ultimately obtain ps where "probe_CanPodBeDisrupted (we_probe env) p x (st_probe st) = (Inr True, ps)"
      by (auto simp: checks_passed_def)
    then show ?thesis using ans assms(8) by (auto simp: probe_CanPodBeDisrupted_True [OF assms(5)] probe_consents_def)
  qed
  moreover have "probe_CanPodBeDisrupted (we_probe env) p x (st_probe st) =
      (Inr (pod_namespace p @ ''/'' @ pod_name p \<notin> set entries), (pool', w))"
    if "probe_pool_Get (pe_dial (we_probe env)) pool (probe_endpoint probe) = (Inr c, pool')" for c pool'
    using that ans [of c] by (simp add: probe_CanPodBeDisrupted_def assms(5,8))
  ultimately show ?thesis by blast
qed

definition veto_xpdb :: xpdb where
  "veto_xpdb = sample_xpdb\<lparr>xpdb_spec := sample_spec\<lparr>spec_probe := Some \<lparr>probe_enabled = None, probe_endpoint = ''p:1''\<rparr>\<rparr>\<rparr>"

definition veto_webhook :: webhook where
  "veto_webhook =
     \<lparr>wh_pdb = \<lparr>ps_reader = fake_reader [sample_pod ''db-0'' ''True''] [veto_xpdb] sample_scale, ps_remoteEndpoints = []\<rparr>,
      wh_lock = sample_lock [], wh_clusterID = ''a'', wh_podID = ''x-pdb-0'', wh_dryRun = False\<rparr>"

definition veto_env :: "err_text \<Rightarrow> (tracker, string, string \<Rightarrow> tracker, string, configWatcher, nat) webhook_env" where
  "veto_env show_err =
     \<lparr>we_leases = fake_client, we_rpc = mesh_env (sample_mesh ''True''),
      we_probe = \<lparr>pe_dial = sample_files True, pe_IsDisruptionAllowed = test_probe show_err\<rparr>,
      we_updatePod = (\<lambda>p n. (None, Suc n)), we_getPod = (\<lambda>k s. Inr (sample_pod ''db-0'' ''True'')),
      we_decodeRaw = (\<lambda>r. Inl (EMsg [])), we_f2i = (\<lambda>q. 0)\<rparr>"

definition veto_watcher :: configWatcher where
  "veto_watcher = watch_event (Some [(''notAllowedDisruptions'', ''shop/db-0,shop/db-1'')])
     (parseConfigMap [] \<lparr>cw_namespace = ''shop'', cw_notAllowedDisruptions = (\<lambda>k. False)\<rparr>)"

definition veto_state :: "(tracker, string, string \<Rightarrow> tracker, string, configWatcher, nat) webhook_state" where
  "veto_state =
     \<lparr>st_leases = Map.empty, st_remote = (NewClientPool ''/certs'', \<lambda>e. Map.empty),
      st_probe = (probe_NewClientPool ''/certs'', veto_watcher), st_pods = 0, st_metrics = no_metrics, st_events = []\<rparr>"

lemma veto_xpdbs: "GetXPdbsForPod (wh_pdb veto_webhook) (sample_pod ''db-0'' ''True'') = Inr [veto_xpdb]"
  by code_simp

theorem listed_pod_is_not_admitted_witness:
  "\<not> (\<exists>resp st'. Handle (veto_env (\<lambda>e. [])) veto_webhook sample_inputs sample_request veto_state = (Ok resp, st') \<and> ar_allowed resp)"
proof -
  let ?p = "sample_pod ''db-0'' ''True''" and ?env = "veto_env (\<lambda>e. [])" and ?entries = "[''shop/db-0'', ''shop/db-1'']"
  have "(pod_namespace ?p @ ''/'' @ pod_name ?p \<in> set ?entries \<longrightarrow>
       \<not> (\<exists>resp st'. Handle ?env veto_webhook sample_inputs sample_request veto_state = (Ok resp, st') \<and> ar_allowed resp)) \<and>
     (\<forall>c pool'. probe_pool_Get (pe_dial (we_probe ?env)) (probe_NewClientPool ''/certs'') ''p:1'' = (Inr c, pool') \<longrightarrow>
       probe_CanPodBeDisrupted (we_probe ?env) ?p veto_xpdb (st_probe veto_state) =
         (Inr (pod_namespace ?p @ ''/'' @ pod_name ?p \<notin> set ?entries), (pool', veto_watcher)))"
    using listed_pod_is_not_admitted [where env = ?env and st = veto_state and h = veto_webhook and x = veto_xpdb and p = ?p
        and probe = "\<lparr>probe_enabled = None, probe_endpoint = ''p:1''\<rparr>" and req = sample_request and inp = sample_inputs
        and pool = "probe_NewClientPool ''/certs''" and w = veto_watcher and entries = ?entries and evs = "[]"
        and wenv = "\<lparr>wv_watch = \<lambda>n l. None, wv_get = \<lambda>n l. Inr []\<rparr>"
        and w0 = "\<lparr>cw_namespace = ''shop'', cw_notAllowedDisruptions = (\<lambda>k. False)\<rparr>" and show_err = "\<lambda>e. []"]
      sample_not_exempt(1) veto_xpdbs
    by (simp add: decodePod_def sample_request_def veto_env_def veto_state_def veto_xpdb_def sample_xpdb_def sample_spec_def
        configWatcher_Start_def veto_watcher_def short_name_def utf8_Valid_ascii sample_pod_def)
  then show ?thesis by (simp add: sample_pod_def)
qed

end
