(* ===== verification/Lock_Protocol.thy ===== *)
theory Lock_Protocol
  imports Lock_Service
begin

text \<open>
  The local lock under concurrency. Requests of many webhooks, of this cluster and of its peers, work
  on the same lease, and their calls of the API server interleave. The processes below run the code of
  \<^verbatim>\<open>LocalLock\<close> and \<^verbatim>\<open>LocalUnlock\<close> one API request at a time, with clocks that differ from the true time
  by at most a skew. A process is named by its holder identity.

  The contract \<open>fresh_store\<close> adds to the lease store what the API server promises about resource
  versions: every write has a version that was never used before.
\<close>

section \<open>Resource versions\<close>

locale fresh_store = lease_store +
  fixes used :: "'s \<Rightarrow> string set"
  assumes stored_used: "wf s \<Longrightarrow> stored s k = Some l \<Longrightarrow> lease_resourceVersion l \<in> used s"
    and used_create: "wf s \<Longrightarrow> used s \<subseteq> used (snd (lc_create c l s))"
    and used_update: "wf s \<Longrightarrow> used s \<subseteq> used (snd (lc_update c l s))"
    and used_delete: "wf s \<Longrightarrow> used s \<subseteq> used (snd (lc_delete c k s))"
    and fresh_create: "wf s \<Longrightarrow> stored (snd (lc_create c l s)) k = Some x \<Longrightarrow>
      stored s k = Some x \<or> lease_resourceVersion x \<notin> used s"
    and fresh_update: "wf s \<Longrightarrow> stored (snd (lc_update c l s)) k = Some x \<Longrightarrow>
      stored s k = Some x \<or> lease_resourceVersion x \<notin> used s"

text \<open>
  An API server with one revision counter for all objects, as an instance: the leases by key and the
  last revision.
\<close>

type_synonym rev_store = "(object_key \<Rightarrow> lease option) \<times> nat"

definition rev_create :: "lease \<Rightarrow> rev_store \<Rightarrow> api_error option \<times> rev_store" where
  "rev_create l s =
     (if fst s (ObjectKeyFromObject l) \<noteq> None then (Some (AlreadyExists ''already exists''), s)
      else (None, (fst s)(ObjectKeyFromObject l \<mapsto> written l (format_nat (snd s + 1))), snd s + 1))"

definition rev_get :: "object_key \<Rightarrow> rev_store \<Rightarrow> api_error + lease" where
  "rev_get k s = (case fst s k of None \<Rightarrow> Inl (NotFound ''not found'') | Some l \<Rightarrow> Inr l)"

definition rev_update :: "lease \<Rightarrow> rev_store \<Rightarrow> api_error option \<times> rev_store" where
  "rev_update l s =
     (case fst s (ObjectKeyFromObject l) of
        None \<Rightarrow> (Some (NotFound ''not found''), s)
      | Some old \<Rightarrow>
          if lease_resourceVersion old \<noteq> lease_resourceVersion l then (Some (Conflict ''object was modified''), s)
          else (None, (fst s)(ObjectKeyFromObject l \<mapsto> written l (format_nat (snd s + 1))), snd s + 1))"

definition rev_delete :: "object_key \<Rightarrow> rev_store \<Rightarrow> api_error option \<times> rev_store" where
  "rev_delete k s =
     (if fst s k = None then (Some (NotFound ''not found''), s) else (None, (fst s)(k := None), snd s + 1))"

definition rev_client :: "rev_store lease_client" where
  "rev_client = \<lparr>lc_create = rev_create, lc_get = rev_get, lc_update = rev_update, lc_delete = rev_delete\<rparr>"

definition rev_wf :: "rev_store \<Rightarrow> bool" where
  "rev_wf s \<longleftrightarrow>
     (\<forall>k l. fst s k = Some l \<longrightarrow>
        ObjectKeyFromObject l = k \<and> lease_resourceVersion l \<in> format_nat ` {..snd s})"

definition rev_used :: "rev_store \<Rightarrow> string set" where
  "rev_used s = format_nat ` {..snd s}"

lemma format_nat_inject: "format_nat m = format_nat n \<longleftrightarrow> m = n"
  using digits_value_format_nat by metis

lemma rev_client_simps [simp]:
  "lc_create rev_client = rev_create" "lc_get rev_client = rev_get"
  "lc_update rev_client = rev_update" "lc_delete rev_client = rev_delete"
  by (simp_all add: rev_client_def)

lemma rev_wf_write:
  "rev_wf (s, n) \<Longrightarrow> rev_wf (s(ObjectKeyFromObject l \<mapsto> written l (format_nat (n + 1))), n + 1)"
  by (fastforce simp: rev_wf_def)

interpretation rev: fresh_store rev_client fst rev_wf rev_used
proof (unfold_locales, goal_cases)
  case (11 s l)
  then show ?case by (cases s) (auto simp: rev_create_def intro: rev_wf_write [simplified])
next
  case (12 s l)
  then show ?case by (cases s) (auto simp: rev_update_def intro: rev_wf_write [simplified] split: option.splits)
next
  case (13 s k)
  then show ?case by (cases s) (fastforce simp: rev_delete_def rev_wf_def)
next
  case (15 s l)
  then show ?case by (auto simp: rev_create_def rev_used_def)
next
  case (16 s l)
  then show ?case by (auto simp: rev_update_def rev_used_def split: option.splits)
next
  case (17 s k)
  then show ?case by (auto simp: rev_delete_def rev_used_def)
next
  case (18 s l k x)
  then show ?case by (auto simp: rev_create_def rev_used_def format_nat_inject split: if_splits)
next
  case (19 s l k x)
  then show ?case by (auto simp: rev_update_def rev_used_def format_nat_inject split: if_splits option.splits)
qed (auto simp: rev_create_def rev_get_def rev_update_def rev_delete_def rev_wf_def rev_used_def
    split: if_splits option.splits)


section \<open>The processes\<close>

text \<open>
  Where a process is: before a call, before the request to create (with its reading of the clock),
  before the request to read, holding a lease it has read, before the request to update (with the
  lease it has read and its reading of the clock), holding the lock until a deadline of its own clock,
  before the request to delete, or failed.
\<close>

datatype pc =
    Idle
  | Creating int
  | Reading
  | Checking lease
  | Updating lease int
  | Holding int
  | Releasing int
  | Failed

record 's protocol =
  pr_store :: 's
  pr_now :: int
  pr_pc :: "string \<Rightarrow> pc"

text \<open>A reading of the clock of a process.\<close>

definition reads :: "int \<Rightarrow> 's protocol \<Rightarrow> int \<Rightarrow> bool" where
  "reads \<epsilon> g n \<longleftrightarrow> \<bar>n - pr_now g\<bar> \<le> \<epsilon>"

definition goto ::
    "string \<Rightarrow> pc \<Rightarrow> 's \<Rightarrow> 's protocol \<Rightarrow> 's protocol" where
  "goto p l s g = g\<lparr>pr_store := s, pr_pc := (pr_pc g)(p := l)\<rparr>"

definition with_holder :: "string \<Rightarrow> int \<Rightarrow> lease \<Rightarrow> lease" where
  "with_holder p t l = l\<lparr>lease_acquireTime := Some t, lease_holderIdentity := Some p\<rparr>"

text \<open>
  The steps of a process \<open>p\<close> that calls \<^verbatim>\<open>LocalLock\<close> and later \<^verbatim>\<open>LocalUnlock\<close>, and the passing of time. An
  error of the API server may come with or without an effect. A holder may leave the lock to run out (the
  disruption was admitted, or a later step of the request failed), and a request that failed may be made
  again. The request to delete is part of this
  relation only while the process is sure to hold the lock; \<open>late_delete\<close> below is the same step after
  that.
\<close>

definition sure :: "int \<Rightarrow> 's protocol \<Rightarrow> int \<Rightarrow> bool" where
  "sure \<epsilon> g d \<longleftrightarrow> pr_now g < d - \<epsilon>"

inductive lock_step ::
    "'s lease_client \<Rightarrow> lock_service \<Rightarrow> string \<Rightarrow> label_selector \<Rightarrow> int \<Rightarrow> 's protocol \<Rightarrow> 's protocol \<Rightarrow> bool"
  for c svc ns sel \<epsilon> where
  tick: "0 \<le> t \<Longrightarrow> lock_step c svc ns sel \<epsilon> g (g\<lparr>pr_now := pr_now g + t\<rparr>)"
| start: "pr_pc g p = Idle \<Longrightarrow> reads \<epsilon> g n0 \<Longrightarrow>
    lock_step c svc ns sel \<epsilon> g (goto p (Creating n0) (pr_store g) g)"
| created: "pr_pc g p = Creating n0 \<Longrightarrow>
    lc_create c (createLeaseForSelector (ls_leaseNamespace svc) p ns sel n0) (pr_store g) = (None, s') \<Longrightarrow>
    lock_step c svc ns sel \<epsilon> g (goto p (Holding (lease_deadline (micro n0) LeaseDurationSeconds)) s' g)"
| exists: "pr_pc g p = Creating n0 \<Longrightarrow>
    lc_create c (createLeaseForSelector (ls_leaseNamespace svc) p ns sel n0) (pr_store g) = (Some e, s') \<Longrightarrow>
    IsAlreadyExists e \<Longrightarrow> lock_step c svc ns sel \<epsilon> g (goto p Reading s' g)"
| not_created: "pr_pc g p = Creating n0 \<Longrightarrow>
    lc_create c (createLeaseForSelector (ls_leaseNamespace svc) p ns sel n0) (pr_store g) = (Some e, s') \<Longrightarrow>
    \<not> IsAlreadyExists e \<Longrightarrow> lock_step c svc ns sel \<epsilon> g (goto p Failed s' g)"
| seen: "pr_pc g p = Reading \<Longrightarrow> lc_get c (lock_key svc ns sel) (pr_store g) = Inr l \<Longrightarrow>
    lock_step c svc ns sel \<epsilon> g (goto p (Checking l) (pr_store g) g)"
| not_seen: "pr_pc g p = Reading \<Longrightarrow> lc_get c (lock_key svc ns sel) (pr_store g) = Inl e \<Longrightarrow>
    lock_step c svc ns sel \<epsilon> g (goto p Failed (pr_store g) g)"
| running: "pr_pc g p = Checking l \<Longrightarrow>
    lease_acquireTime l = None \<or> lease_durationSeconds l = None \<or> reads \<epsilon> g n1 \<and> lease_until l > n1 \<Longrightarrow>
    lock_step c svc ns sel \<epsilon> g (goto p Failed (pr_store g) g)"
| run_out: "pr_pc g p = Checking l \<Longrightarrow> lease_acquireTime l \<noteq> None \<Longrightarrow> lease_durationSeconds l = Some d \<Longrightarrow>
    reads \<epsilon> g n1 \<Longrightarrow> lease_until l \<le> n1 \<Longrightarrow> reads \<epsilon> g n2 \<Longrightarrow>
    lock_step c svc ns sel \<epsilon> g (goto p (Updating l n2) (pr_store g) g)"
| updated: "pr_pc g p = Updating l n2 \<Longrightarrow> lease_durationSeconds l = Some d \<Longrightarrow>
    lc_update c (with_holder p n2 l) (pr_store g) = (None, s') \<Longrightarrow>
    lock_step c svc ns sel \<epsilon> g (goto p (Holding (lease_deadline (micro n2) d)) s' g)"
| not_updated: "pr_pc g p = Updating l n2 \<Longrightarrow>
    lc_update c (with_holder p n2 l) (pr_store g) = (Some e, s') \<Longrightarrow>
    lock_step c svc ns sel \<epsilon> g (goto p Failed s' g)"
| unlock_absent: "pr_pc g p = Holding d \<Longrightarrow> lc_get c (lock_key svc ns sel) (pr_store g) = Inl e \<Longrightarrow>
    IsNotFound e \<Longrightarrow> lock_step c svc ns sel \<epsilon> g (goto p Idle (pr_store g) g)"
| unlock_other: "pr_pc g p = Holding d \<Longrightarrow> lc_get c (lock_key svc ns sel) (pr_store g) = Inr l \<Longrightarrow>
    lease_holderIdentity l \<noteq> Some p \<Longrightarrow> lock_step c svc ns sel \<epsilon> g (goto p Failed (pr_store g) g)"
| unlock_begin: "pr_pc g p = Holding d \<Longrightarrow>
    (case lc_get c (lock_key svc ns sel) (pr_store g) of
       Inl e \<Rightarrow> \<not> IsNotFound e | Inr l \<Rightarrow> lease_holderIdentity l = Some p) \<Longrightarrow>
    lock_step c svc ns sel \<epsilon> g (goto p (Releasing d) (pr_store g) g)"
| abandon: "pr_pc g p = Holding d \<Longrightarrow> lock_step c svc ns sel \<epsilon> g (goto p Idle (pr_store g) g)"
| again: "pr_pc g p = Failed \<Longrightarrow> lock_step c svc ns sel \<epsilon> g (goto p Idle (pr_store g) g)"
| delete_in_time: "pr_pc g p = Releasing d \<Longrightarrow> sure \<epsilon> g d \<Longrightarrow>
    lc_delete c (lock_key svc ns sel) (pr_store g) = (oe, s') \<Longrightarrow>
    lock_step c svc ns sel \<epsilon> g (goto p Idle s' g)"

inductive late_delete ::
    "'s lease_client \<Rightarrow> lock_service \<Rightarrow> string \<Rightarrow> label_selector \<Rightarrow> int \<Rightarrow> 's protocol \<Rightarrow> 's protocol \<Rightarrow> bool"
  for c svc ns sel \<epsilon> where
  late: "pr_pc g p = Releasing d \<Longrightarrow> \<not> sure \<epsilon> g d \<Longrightarrow>
    lc_delete c (lock_key svc ns sel) (pr_store g) = (oe, s') \<Longrightarrow>
    late_delete c svc ns sel \<epsilon> g (goto p Idle s' g)"

inductive lock_reach ::
    "'s lease_client \<Rightarrow> lock_service \<Rightarrow> string \<Rightarrow> label_selector \<Rightarrow> int \<Rightarrow> ('s \<Rightarrow> bool) \<Rightarrow> 's protocol \<Rightarrow> bool"
  for c svc ns sel \<epsilon> valid where
  init: "valid (pr_store g) \<Longrightarrow> \<forall>p. pr_pc g p = Idle \<Longrightarrow> lock_reach c svc ns sel \<epsilon> valid g"
| step: "lock_reach c svc ns sel \<epsilon> valid g \<Longrightarrow> lock_step c svc ns sel \<epsilon> g g' \<Longrightarrow>
    lock_reach c svc ns sel \<epsilon> valid g'"

text \<open>A process that may act on the lock: it holds the lock, or is about to give it back, and is sure of it.\<close>

definition protected_at :: "int \<Rightarrow> 's protocol \<Rightarrow> string \<Rightarrow> int \<Rightarrow> bool" where
  "protected_at \<epsilon> g p d \<longleftrightarrow> (pr_pc g p = Holding d \<or> pr_pc g p = Releasing d) \<and> sure \<epsilon> g d"

section \<open>Mutual exclusion\<close>

text \<open>
  The invariant: the store is well-formed; a protected process is the holder in the stored lease, with
  its own deadline; a lease that a process has read is the stored one as long as the version is; and a
  process that is about to update has read a lease that had run out by some clock.
\<close>

definition read_lease :: "pc \<Rightarrow> lease option" where
  "read_lease l = (case l of Checking x \<Rightarrow> Some x | Updating x n \<Rightarrow> Some x | _ \<Rightarrow> None)"

definition lock_inv ::
    "('s \<Rightarrow> object_key \<Rightarrow> lease option) \<Rightarrow> ('s \<Rightarrow> bool) \<Rightarrow> ('s \<Rightarrow> string set) \<Rightarrow> object_key \<Rightarrow> int \<Rightarrow> 's protocol \<Rightarrow> bool" where
  "lock_inv stored valid used k \<epsilon> g \<longleftrightarrow>
     valid (pr_store g) \<and>
     (\<forall>p d. protected_at \<epsilon> g p d \<longrightarrow>
        (\<exists>l. stored (pr_store g) k = Some l \<and> lease_holderIdentity l = Some p \<and> lease_until l = d)) \<and>
     (\<forall>p x. read_lease (pr_pc g p) = Some x \<longrightarrow>
        lease_resourceVersion x \<in> used (pr_store g) \<and> ObjectKeyFromObject x = k \<and>
        (\<forall>y. stored (pr_store g) k = Some y \<and> lease_resourceVersion y = lease_resourceVersion x \<longrightarrow> y = x)) \<and>
     (\<forall>p x n. pr_pc g p = Updating x n \<longrightarrow> lease_until x - \<epsilon> \<le> pr_now g)"

lemma goto_simps [simp]:
  "pr_store (goto p l s g) = s" "pr_now (goto p l s g) = pr_now g" "pr_pc (goto p l s g) = (pr_pc g)(p := l)"
  by (simp_all add: goto_def)

lemma sure_goto [simp]: "sure \<epsilon> (goto p l s g) d = sure \<epsilon> g d"
  by (simp add: sure_def)

lemma protected_goto:
  "protected_at \<epsilon> (goto p l s g) q d \<longleftrightarrow>
     (if q = p then (l = Holding d \<or> l = Releasing d) \<and> sure \<epsilon> g d else protected_at \<epsilon> g q d)"
  by (auto simp: protected_at_def)

text \<open>A move of one process that leaves the store alone and gains nothing.\<close>

lemma inv_move:
  assumes "lock_inv stored valid used k \<epsilon> g"
    and "\<And>d. l = Holding d \<or> l = Releasing d \<Longrightarrow> protected_at \<epsilon> g p d \<or> \<not> sure \<epsilon> g d"
    and "\<And>x. read_lease l = Some x \<Longrightarrow> read_lease (pr_pc g p) = Some x \<or>
       valid (pr_store g) \<and> stored (pr_store g) k = Some x \<and> lease_resourceVersion x \<in> used (pr_store g) \<and>
       ObjectKeyFromObject x = k"
    and "\<And>x n. l = Updating x n \<Longrightarrow> lease_until x - \<epsilon> \<le> pr_now g"
  shows "lock_inv stored valid used k \<epsilon> (goto p l (pr_store g) g)"
proof -
  note inv = assms(1) [unfolded lock_inv_def]
  have prot: "\<exists>x. stored (pr_store g) k = Some x \<and> lease_holderIdentity x = Some q \<and> lease_until x = d"
    if "protected_at \<epsilon> (goto p l (pr_store g) g) q d" for q d
    using that assms(2) [of d] inv by (auto simp: protected_goto split: if_splits)
  have rd: "lease_resourceVersion x \<in> used (pr_store g) \<and> ObjectKeyFromObject x = k \<and>
      (\<forall>y. stored (pr_store g) k = Some y \<and> lease_resourceVersion y = lease_resourceVersion x \<longrightarrow> y = x)"
    if "read_lease (((pr_pc g)(p := l)) q) = Some x" for q x
  proof (cases "q = p \<and> read_lease (pr_pc g p) \<noteq> Some x")
    case True
    then show ?thesis using assms(3) [of x] that by auto
  next
    case False
    then have "read_lease (pr_pc g q) = Some x" using that by (auto split: if_splits)
    then show ?thesis using inv by blast
  qed
  have up: "lease_until x - \<epsilon> \<le> pr_now g" if "((pr_pc g)(p := l)) q = Updating x n" for q x n
  proof (cases "q = p")
    case True
    then show ?thesis using that assms(4) by simp
  next
    case False
    then have "pr_pc g q = Updating x n" using that by simp
    then show ?thesis using inv by blast
  qed
  show ?thesis unfolding lock_inv_def using inv prot rd up by simp
qed

text \<open>The invariant depends on the leases of the store and on the versions used so far only.\<close>

lemma inv_same_leases:
  assumes "lock_inv stored valid used k \<epsilon> (goto p l s g)"
    and "stored s' = stored s" "valid s'" "used s \<subseteq> used s'"
  shows "lock_inv stored valid used k \<epsilon> (goto p l s' g)"
  using assms subsetD [OF assms(4)] unfolding lock_inv_def by (simp add: protected_goto)

context fresh_store
begin

text \<open>
  A write of the lease while no other process is protected: the writer may become the holder, and
  whatever the other processes have read is out of date or still stored.
\<close>

lemma inv_write:
  assumes "lock_inv stored wf used k \<epsilon> g" "\<And>q d. q \<noteq> p \<Longrightarrow> \<not> protected_at \<epsilon> g q d"
    and "wf s'" "used (pr_store g) \<subseteq> used s'"
    and fresh: "\<And>y. stored s' k = Some y \<Longrightarrow> stored (pr_store g) k = Some y \<or> lease_resourceVersion y \<notin> used (pr_store g)"
    and "read_lease l = None"
    and holder: "\<And>d. l = Holding d \<or> l = Releasing d \<Longrightarrow> sure \<epsilon> g d \<Longrightarrow>
      \<exists>y. stored s' k = Some y \<and> lease_holderIdentity y = Some p \<and> lease_until y = d"
  shows "lock_inv stored wf used k \<epsilon> (goto p l s' g)"
proof -
  note inv = assms(1) [unfolded lock_inv_def]
  have prot: "\<exists>y. stored s' k = Some y \<and> lease_holderIdentity y = Some q \<and> lease_until y = d"
    if "protected_at \<epsilon> (goto p l s' g) q d" for q d
    using that assms(2) [of q d] holder [of d] by (auto simp: protected_goto split: if_splits)
  have rd: "lease_resourceVersion x \<in> used s' \<and> ObjectKeyFromObject x = k \<and>
      (\<forall>y. stored s' k = Some y \<and> lease_resourceVersion y = lease_resourceVersion x \<longrightarrow> y = x)"
    if "read_lease (((pr_pc g)(p := l)) q) = Some x" for q x
  proof -
    have "read_lease (pr_pc g q) = Some x" using that assms(6) by (auto split: if_splits)
    then have x: "lease_resourceVersion x \<in> used (pr_store g)" "ObjectKeyFromObject x = k"
      "\<And>y. stored (pr_store g) k = Some y \<Longrightarrow> lease_resourceVersion y = lease_resourceVersion x \<Longrightarrow> y = x"
      using inv by blast+
    then show ?thesis using assms(4) fresh by (metis subsetD)
  qed
  have up: "lease_until x - \<epsilon> \<le> pr_now g" if "((pr_pc g)(p := l)) q = Updating x n" for q x n
  proof -
    have "pr_pc g q = Updating x n" using that assms(6) by (auto simp: read_lease_def split: if_splits)
    then show ?thesis using inv by blast
  qed
  show ?thesis unfolding lock_inv_def using assms(3) prot rd up by simp
qed

lemma not_protected_free:
  "lock_inv stored wf used k \<epsilon> g \<Longrightarrow> stored (pr_store g) k = None \<Longrightarrow> \<not> protected_at \<epsilon> g q d"
  by (auto simp: lock_inv_def)

text \<open>When a lease that was read, and had run out, is still stored, nobody is protected.\<close>

lemma not_protected_run_out:
  assumes "lock_inv stored wf used k \<epsilon> g" "pr_pc g p = Updating l n2"
    and "stored (pr_store g) k = Some old" "lease_resourceVersion old = lease_resourceVersion l"
  shows "\<not> protected_at \<epsilon> g q d"
proof
  assume prot: "protected_at \<epsilon> g q d"
  note inv = assms(1) [unfolded lock_inv_def]
  have "read_lease (pr_pc g p) = Some l" using assms(2) by (simp add: read_lease_def)
  then have "old = l" using inv assms(3,4) by blast
  moreover obtain x where "stored (pr_store g) k = Some x" "lease_until x = d" using inv prot by blast
  moreover have "lease_until l - \<epsilon> \<le> pr_now g" using inv assms(2) by blast
  ultimately show False using prot assms(3) by (auto simp: protected_at_def sure_def)
qed

lemma create_preserves:
  assumes inv: "lock_inv stored wf used (lock_key svc ns sel) \<epsilon> g"
    and cr: "lc_create c (createLeaseForSelector (ls_leaseNamespace svc) p ns sel n0) (pr_store g) = (oe, s')"
    and "read_lease l = None"
    and "\<And>d. l = Holding d \<Longrightarrow> oe = None \<and> d = lease_deadline (micro n0) LeaseDurationSeconds" "\<And>d. l \<noteq> Releasing d"
  shows "lock_inv stored wf used (lock_key svc ns sel) \<epsilon> (goto p l s' g)"
proof -
  let ?k = "lock_key svc ns sel" and ?new = "createLeaseForSelector (ls_leaseNamespace svc) p ns sel n0"
  have wf: "wf (pr_store g)" using inv by (simp add: lock_inv_def)
  have s': "wf s'" "used (pr_store g) \<subseteq> used s'"
    "\<And>y. stored s' ?k = Some y \<Longrightarrow> stored (pr_store g) ?k = Some y \<or> lease_resourceVersion y \<notin> used (pr_store g)"
    using wf_create [OF wf, of ?new] used_create [OF wf, of ?new] fresh_create [OF wf, of ?new ?k] cr by auto
  have eff: "stored s' = stored (pr_store g) \<and> oe \<noteq> None \<or>
      stored (pr_store g) ?k = None \<and> (\<exists>rv. stored s' ?k = Some (written ?new rv))"
    using create_ok [OF wf] create_failed [OF wf] cr by (cases oe) fastforce+
  show ?thesis
  proof (cases "stored (pr_store g) ?k = None")
    case True
    have "\<exists>y. stored s' ?k = Some y \<and> lease_holderIdentity y = Some p \<and> lease_until y = d" if "l = Holding d" for d
      using eff assms(4) [OF that] by (auto simp: lease_until_def)
    then show ?thesis
      using inv_write [OF inv not_protected_free [OF inv True] s'(1,2) s'(3) assms(3)] assms(5) by blast
  next
    case False
    then have same: "stored s' = stored (pr_store g)" and "oe \<noteq> None" using eff by auto
    then have "l \<noteq> Holding d" for d using assms(4) by blast
    with assms(3,5) have "lock_inv stored wf used ?k \<epsilon> (goto p l (pr_store g) g)" by (intro inv_move [OF inv]) (auto simp: read_lease_def)
    then show ?thesis using same s'(1,2) by (rule inv_same_leases)
  qed
qed

text \<open>What a request to update can do: nothing, and then it failed, or the write.\<close>

lemma update_effect:
  assumes "wf s" "lc_update c l s = (oe, s')"
  shows "stored s' = stored s \<and> oe \<noteq> None \<or>
    (\<exists>old rv. stored s (ObjectKeyFromObject l) = Some old \<and> lease_resourceVersion old = lease_resourceVersion l \<and>
       stored s' (ObjectKeyFromObject l) = Some (written l rv))"
proof (cases oe)
  case None
  then show ?thesis using update_ok [OF assms(1), of l s'] assms(2) by auto
next
  case (Some e)
  then show ?thesis using update_failed [OF assms(1), of l e s'] assms(2) by auto
qed

lemma update_preserves:
  assumes inv: "lock_inv stored wf used k \<epsilon> g" and "pr_pc g p = Updating l n2"
    and up: "lc_update c (with_holder p n2 l) (pr_store g) = (oe, s')"
    and "m = Failed \<or> oe = None \<and> m = Holding (lease_deadline (micro n2) d) \<and> lease_durationSeconds l = Some d"
  shows "lock_inv stored wf used k \<epsilon> (goto p m s' g)"
proof -
  have wf: "wf (pr_store g)" using inv by (simp add: lock_inv_def)
  have "read_lease (pr_pc g p) = Some l" using assms(2) by (simp add: read_lease_def)
  then have key: "ObjectKeyFromObject l = k" using inv unfolding lock_inv_def by blast
  have nkey: "ObjectKeyFromObject (with_holder p n2 l) = k" using key by (simp add: with_holder_def ObjectKeyFromObject_def)
  have rv: "lease_resourceVersion (with_holder p n2 l) = lease_resourceVersion l" by (simp add: with_holder_def)
  have s': "wf s'" "used (pr_store g) \<subseteq> used s'"
    "\<And>y. stored s' k = Some y \<Longrightarrow> stored (pr_store g) k = Some y \<or> lease_resourceVersion y \<notin> used (pr_store g)"
    using wf_update [OF wf, of "with_holder p n2 l"] used_update [OF wf, of "with_holder p n2 l"]
      fresh_update [OF wf, of "with_holder p n2 l" k] up by auto
  have m: "read_lease m = None" "\<And>e. m \<noteq> Releasing e" using assms(4) by (auto simp: read_lease_def)
  consider "stored s' = stored (pr_store g)" "oe \<noteq> None"
    | old rv where "stored (pr_store g) k = Some old" "lease_resourceVersion old = lease_resourceVersion l"
      "stored s' k = Some (written (with_holder p n2 l) rv)"
    using update_effect [OF wf up] unfolding nkey rv by blast
  then show ?thesis
  proof cases
    case 1
    then have "m = Failed" using assms(4) by blast
    then have "lock_inv stored wf used k \<epsilon> (goto p m (pr_store g) g)"
      by (intro inv_move [OF inv]) (auto simp: read_lease_def)
    then show ?thesis using 1(1) s'(1,2) by (rule inv_same_leases)
  next
    case 2
    have "\<exists>y. stored s' k = Some y \<and> lease_holderIdentity y = Some p \<and> lease_until y = e" if "m = Holding e" for e
      using 2(3) assms(4) that by (auto simp: lease_until_def with_holder_def)
    then show ?thesis
      using inv_write [OF inv not_protected_run_out [OF inv assms(2) 2(1,2)] s'(1,2) s'(3) m(1)] m(2) by blast
  qed
qed

lemma protected_unique:
  "lock_inv stored wf used k \<epsilon> g \<Longrightarrow> protected_at \<epsilon> g p d \<Longrightarrow> protected_at \<epsilon> g q e \<Longrightarrow> p = q \<and> d = e"
  unfolding lock_inv_def by (metis option.inject)

lemma delete_preserves:
  assumes inv: "lock_inv stored wf used k \<epsilon> g" and "protected_at \<epsilon> g p d"
    and del: "lc_delete c k (pr_store g) = (oe, s')"
  shows "lock_inv stored wf used k \<epsilon> (goto p Idle s' g)"
proof -
  have wf: "wf (pr_store g)" using inv by (simp add: lock_inv_def)
  have s': "wf s'" "used (pr_store g) \<subseteq> used s'"
    using wf_delete [OF wf, of k] used_delete [OF wf, of k] del by auto
  have "stored s' k = Some y \<Longrightarrow> stored (pr_store g) k = Some y" for y
    using delete_ok [OF wf] delete_failed [OF wf] del by (cases oe) fastforce+
  moreover have "\<not> protected_at \<epsilon> g q e" if "q \<noteq> p" for q e
    using protected_unique [OF inv assms(2)] that by blast
  ultimately show ?thesis by (intro inv_write [OF inv _ s']) (auto simp: read_lease_def)
qed

lemma tick_preserves:
  assumes "lock_inv stored wf used k \<epsilon> g" "0 \<le> t"
  shows "lock_inv stored wf used k \<epsilon> (g\<lparr>pr_now := pr_now g + t\<rparr>)"
proof -
  have "protected_at \<epsilon> (g\<lparr>pr_now := pr_now g + t\<rparr>) p d \<Longrightarrow> protected_at \<epsilon> g p d" for p d
    using assms(2) by (auto simp: protected_at_def sure_def)
  moreover have "lease_until x - \<epsilon> \<le> pr_now g + t" if "pr_pc g p = Updating x n" for p x n
    using assms that unfolding lock_inv_def by (meson add_increasing2)
  ultimately show ?thesis using assms(1) unfolding lock_inv_def by simp
qed

theorem lock_step_preserves:
  assumes "lock_step c svc ns sel \<epsilon> g g'" "lock_inv stored wf used (lock_key svc ns sel) \<epsilon> g"
  shows "lock_inv stored wf used (lock_key svc ns sel) \<epsilon> g'"
  using assms(1)
proof cases
  case (tick t)
  then show ?thesis using tick_preserves assms(2) by simp
next
  case (start p n0)
  then show ?thesis by (auto intro!: inv_move [OF assms(2)] simp: read_lease_def)
next
  case (created p n0 s')
  then show ?thesis by (auto intro!: create_preserves [OF assms(2)] simp: read_lease_def)
next
  case (exists p n0 e s')
  then show ?thesis by (auto intro!: create_preserves [OF assms(2)] simp: read_lease_def)
next
  case (not_created p n0 e s')
  then show ?thesis by (auto intro!: create_preserves [OF assms(2)] simp: read_lease_def)
next
  case (seen p l)
  have wf: "wf (pr_store g)" using assms(2) by (simp add: lock_inv_def)
  have st: "stored (pr_store g) (lock_key svc ns sel) = Some l" using get_ok wf seen by blast
  have "lock_inv stored wf used (lock_key svc ns sel) \<epsilon> (goto p (Checking l) (pr_store g) g)"
    using st stored_used [OF wf st] stored_key [OF wf st] wf
    by (intro inv_move [OF assms(2)]) (auto simp: read_lease_def)
  then show ?thesis using seen by simp
next
  case (run_out p l d n1 n2)
  then have "lease_until l - \<epsilon> \<le> pr_now g" by (simp add: reads_def)
  then show ?thesis using run_out by (auto intro!: inv_move [OF assms(2)] simp: read_lease_def)
next
  case (updated p l n2 d s')
  then show ?thesis using update_preserves [OF assms(2)] by blast
next
  case (not_updated p l n2 e s')
  then show ?thesis using update_preserves [OF assms(2)] by blast
next
  case (unlock_begin p d)
  then show ?thesis by (auto intro!: inv_move [OF assms(2)] simp: read_lease_def protected_at_def)
next
  case (delete_in_time p d oe s')
  then have "protected_at \<epsilon> g p d" by (simp add: protected_at_def)
  then show ?thesis using delete_preserves [OF assms(2)] delete_in_time by blast
qed (auto intro!: inv_move [OF assms(2)] simp: read_lease_def)

lemma lock_reach_inv:
  "lock_reach c svc ns sel \<epsilon> wf g \<Longrightarrow> lock_inv stored wf used (lock_key svc ns sel) \<epsilon> g"
proof (induction rule: lock_reach.induct)
  case (init g)
  then show ?case by (simp add: lock_inv_def protected_at_def read_lease_def)
next
  case (step g g')
  then show ?case using lock_step_preserves by blast
qed

end

section \<open>Undisturbed calls\<close>

text \<open>
  A call that no other process disturbs runs through the steps to where \<^const>\<open>LocalLock\<close> and
  \<^const>\<open>LocalUnlock\<close> end, so the step relation and the functions tell the same story.
\<close>

lemma goto_goto [simp]: "goto p l s (goto p l' s' g) = goto p l s g"
  by (simp add: goto_def)

lemma reads_goto [simp]: "reads \<epsilon> (goto p l s g) n = reads \<epsilon> g n"
  by (simp add: reads_def)

text \<open>The steps of one call: only its process moves, no time passes, and the lock is not held before the last step.\<close>

definition in_call :: "pc \<Rightarrow> bool" where
  "in_call l = (case l of Holding d \<Rightarrow> False | Releasing d \<Rightarrow> False | Failed \<Rightarrow> False | _ \<Rightarrow> True)"

definition call_step ::
    "'s lease_client \<Rightarrow> lock_service \<Rightarrow> string \<Rightarrow> label_selector \<Rightarrow> int \<Rightarrow> string \<Rightarrow> 's protocol \<Rightarrow> 's protocol \<Rightarrow> bool" where
  "call_step c svc ns sel \<epsilon> p g g' \<longleftrightarrow>
     lock_step c svc ns sel \<epsilon> g g' \<and> pr_now g' = pr_now g \<and> (\<forall>q. q \<noteq> p \<longrightarrow> pr_pc g' q = pr_pc g q) \<and>
     in_call (pr_pc g p)"

lemma in_call_simps [simp]:
  "in_call Idle" "in_call (Creating n)" "in_call Reading" "in_call (Checking l)" "in_call (Updating l n)"
  by (simp_all add: in_call_def)

lemma call_steps: "(call_step c svc ns sel \<epsilon> p)\<^sup>*\<^sup>* g g' \<Longrightarrow> (lock_step c svc ns sel \<epsilon>)\<^sup>*\<^sup>* g g'"
  by (erule rtranclp_mono [THEN predicate2D, rotated]) (auto simp: call_step_def)

lemma steps_to:
  assumes "(call_step c svc ns sel \<epsilon> p)\<^sup>*\<^sup>* g (goto p l s g)" "lock_step c svc ns sel \<epsilon> (goto p l s g) (goto p l' s' g)"
    and "in_call l"
  shows "(call_step c svc ns sel \<epsilon> p)\<^sup>*\<^sup>* g (goto p l' s' g)"
proof (rule rtranclp.rtrancl_into_rtrancl [OF assms(1)])
  show "call_step c svc ns sel \<epsilon> p (goto p l s g) (goto p l' s' g)"
    using assms(2,3) by (simp add: call_step_def)
qed

lemma step_starts:
  assumes "pr_pc g p = Idle" "reads \<epsilon> g n0"
  shows "(call_step c svc ns sel \<epsilon> p)\<^sup>*\<^sup>* g (goto p (Creating n0) (pr_store g) g)"
  using lock_step.start [OF assms, of c svc ns sel] assms(1) by (simp add: call_step_def r_into_rtranclp)

lemma step_reads:
  assumes "pr_pc g p = Idle" "reads \<epsilon> g n0" "IsAlreadyExists e"
    and "lc_create c (createLeaseForSelector (ls_leaseNamespace svc) p ns sel n0) (pr_store g) = (Some e, s1)"
  shows "(call_step c svc ns sel \<epsilon> p)\<^sup>*\<^sup>* g (goto p Reading s1 g)"
proof (rule steps_to [OF step_starts [OF assms(1,2)]])
  show "lock_step c svc ns sel \<epsilon> (goto p (Creating n0) (pr_store g) g) (goto p Reading s1 g)"
    using lock_step.exists [where g = "goto p (Creating n0) (pr_store g) g" and p = p] assms(3,4) by simp
qed simp

lemma step_checks:
  assumes "pr_pc g p = Idle" "reads \<epsilon> g n0" "IsAlreadyExists e"
    and "lc_create c (createLeaseForSelector (ls_leaseNamespace svc) p ns sel n0) (pr_store g) = (Some e, s1)"
    and "lc_get c (lock_key svc ns sel) s1 = Inr l"
  shows "(call_step c svc ns sel \<epsilon> p)\<^sup>*\<^sup>* g (goto p (Checking l) s1 g)"
proof (rule steps_to [OF step_reads [OF assms(1-4)]])
  show "lock_step c svc ns sel \<epsilon> (goto p Reading s1 g) (goto p (Checking l) s1 g)"
    using lock_step.seen [where g = "goto p Reading s1 g" and p = p and l = l] assms(5) by simp
qed simp

lemma step_updates:
  assumes "pr_pc g p = Idle" "reads \<epsilon> g n0" "IsAlreadyExists e"
    and "lc_create c (createLeaseForSelector (ls_leaseNamespace svc) p ns sel n0) (pr_store g) = (Some e, s1)"
    and "lc_get c (lock_key svc ns sel) s1 = Inr l"
    and "lease_acquireTime l \<noteq> None" "lease_durationSeconds l = Some d" "lease_until l \<le> n1" "reads \<epsilon> g n1" "reads \<epsilon> g n2"
  shows "(call_step c svc ns sel \<epsilon> p)\<^sup>*\<^sup>* g (goto p (Updating l n2) s1 g)"
proof (rule steps_to [OF step_checks [OF assms(1-5)]])
  show "lock_step c svc ns sel \<epsilon> (goto p (Checking l) s1 g) (goto p (Updating l n2) s1 g)"
    using lock_step.run_out [where g = "goto p (Checking l) s1 g" and p = p and l = l] assms(6-) by simp
qed simp

text \<open>Where a call of \<^const>\<open>LocalLock\<close> ends: holding until the end of the stored lease, or failed.\<close>

definition after_lock :: "('s \<Rightarrow> object_key \<Rightarrow> lease option) \<Rightarrow> object_key \<Rightarrow> unit go \<Rightarrow> 's \<Rightarrow> pc" where
  "after_lock stored k r s =
     (if r = Ok () then (case stored s k of Some l \<Rightarrow> Holding (lease_until l) | None \<Rightarrow> Failed) else Failed)"

context lease_store
begin

lemma step_from_creating:
  assumes "pr_pc g p = Idle" "reads \<epsilon> g n0" "wf (pr_store g)"
    and "lc_create c (createLeaseForSelector (ls_leaseNamespace svc) p ns sel n0) (pr_store g) = (oe, s')"
    and "\<And>e. oe = Some e \<Longrightarrow> \<not> IsAlreadyExists e" "r = Ok () \<longleftrightarrow> oe = None"
  shows "(call_step c svc ns sel \<epsilon> p)\<^sup>*\<^sup>* g (goto p (after_lock stored (lock_key svc ns sel) r s') s' g)"
proof (rule steps_to [OF step_starts [OF assms(1,2)]])
  let ?g = "goto p (Creating n0) (pr_store g) g"
  show "lock_step c svc ns sel \<epsilon> ?g (goto p (after_lock stored (lock_key svc ns sel) r s') s' g)"
  proof (cases oe)
    case None
    obtain rv where "stored s' (lock_key svc ns sel) =
        Some (written (createLeaseForSelector (ls_leaseNamespace svc) p ns sel n0) rv)"
      using create_ok [OF assms(3)] assms(4) None by fastforce
    then have "after_lock stored (lock_key svc ns sel) r s' = Holding (lease_deadline (micro n0) LeaseDurationSeconds)"
      using assms(6) None by (simp add: after_lock_def lease_until_def)
    then show ?thesis using lock_step.created [where g = ?g and p = p and s' = s'] assms(4) None by simp
  next
    case (Some e)
    then have "after_lock stored (lock_key svc ns sel) r s' = Failed" using assms(6) by (simp add: after_lock_def)
    then show ?thesis
      using lock_step.not_created [where g = ?g and p = p and s' = s' and e = e] assms(4) assms(5) [OF Some] Some by simp
  qed
qed simp

lemma step_from_updating:
  assumes "(call_step c svc ns sel \<epsilon> p)\<^sup>*\<^sup>* g (goto p (Updating l n2) s1 g)" "wf s1"
    and "lc_update c (with_holder p n2 l) s1 = (oe, s')" "r = Ok () \<longleftrightarrow> oe = None"
    and "lease_durationSeconds l = Some d" "ObjectKeyFromObject l = lock_key svc ns sel"
  shows "(call_step c svc ns sel \<epsilon> p)\<^sup>*\<^sup>* g (goto p (after_lock stored (lock_key svc ns sel) r s') s' g)"
proof (rule steps_to [OF assms(1)])
  let ?g = "goto p (Updating l n2) s1 g"
  show "lock_step c svc ns sel \<epsilon> ?g (goto p (after_lock stored (lock_key svc ns sel) r s') s' g)"
  proof (cases oe)
    case None
    have "ObjectKeyFromObject (with_holder p n2 l) = lock_key svc ns sel"
      using assms(6) by (simp add: with_holder_def ObjectKeyFromObject_def)
    then obtain rv where "stored s' (lock_key svc ns sel) = Some (written (with_holder p n2 l) rv)"
      using update_ok [OF assms(2)] assms(3) None by fastforce
    then have "after_lock stored (lock_key svc ns sel) r s' = Holding (lease_deadline (micro n2) d)"
      using assms(4,5) None by (simp add: after_lock_def lease_until_def with_holder_def)
    then show ?thesis using lock_step.updated [where g = ?g and p = p and s' = s'] assms(3,5) None by simp
  next
    case (Some e)
    then have "after_lock stored (lock_key svc ns sel) r s' = Failed" using assms(4) by (simp add: after_lock_def)
    then show ?thesis
      using lock_step.not_updated [where g = ?g and p = p and s' = s' and e = e] assms(3) Some by simp
  qed
qed simp

lemma LocalLock_call:
  assumes call: "LocalLock c svc (n0, n1, n2) p ns sel (pr_store g) = (r, s')"
    and "wf (pr_store g)" "pr_pc g p = Idle" "reads \<epsilon> g n0" "reads \<epsilon> g n1" "reads \<epsilon> g n2"
  shows "(call_step c svc ns sel \<epsilon> p)\<^sup>*\<^sup>* g (goto p (after_lock stored (lock_key svc ns sel) r s') s' g)"
  using call
proof (cases rule: LocalLock_cases)
  case created
  then show ?thesis using step_from_creating [OF assms(3,4,2) created(1)] by simp
next
  case (refused e)
  then show ?thesis using step_from_creating [OF assms(3,4,2) refused(1)] by simp
next
  case (unread e e')
  have "lock_step c svc ns sel \<epsilon> (goto p Reading s' g) (goto p Failed s' g)"
    using lock_step.not_seen [where g = "goto p Reading s' g" and p = p and e = e'] unread(3) by simp
  then show ?thesis
    using steps_to [OF step_reads [OF assms(3,4) unread(2,1)]] unread(4) by (simp add: after_lock_def)
next
  case (incomplete e seen)
  have "lease_acquireTime seen = None \<or> lease_durationSeconds seen = None \<or> lease_until seen > n1"
    using call incomplete unfolding LocalLock_def
    by (auto simp: lease_until_def split: option.splits if_splits prod.splits)
  then have "lock_step c svc ns sel \<epsilon> (goto p (Checking seen) s' g) (goto p Failed s' g)"
    using lock_step.running [where g = "goto p (Checking seen) s' g" and p = p and l = seen and ?n1.0 = n1 and \<epsilon> = \<epsilon>] assms(5) by simp
  then show ?thesis
    using steps_to [OF step_checks [OF assms(3,4) incomplete(2,1,3)]] incomplete(5) by (simp add: after_lock_def)
next
  case (running e seen)
  then have "lock_step c svc ns sel \<epsilon> (goto p (Checking seen) s' g) (goto p Failed s' g)"
    using lock_step.running [where g = "goto p (Checking seen) s' g" and p = p and l = seen and ?n1.0 = n1 and \<epsilon> = \<epsilon>] assms(5)
    by (simp add: live_lease_def)
  then show ?thesis
    using steps_to [OF step_checks [OF assms(3,4) running(2,1,3)]] running(5) by (simp add: after_lock_def)
next
  case (taken e seen s1)
  then obtain d where d: "lease_durationSeconds seen = Some d" by blast
  have wf: "wf s1" using wf_create [OF assms(2)] taken(1) by (metis snd_conv)
  have up: "lc_update c (with_holder p n2 seen) s1 = (None, s')" using taken(7) by (simp add: with_holder_def)
  show ?thesis
    using step_from_updating [OF step_updates [OF assms(3,4) taken(2,1,3,4) d taken(6) assms(5,6)] wf up _ d
      stored_key [OF wf get_ok [OF wf taken(3)]]] taken(8) by simp
next
  case (lost e e' seen s1)
  then obtain d where d: "lease_durationSeconds seen = Some d" by blast
  have wf: "wf s1" using wf_create [OF assms(2)] lost(1) by (metis snd_conv)
  have up: "lc_update c (with_holder p n2 seen) s1 = (Some e', s')" using lost(7) by (simp add: with_holder_def)
  show ?thesis
    using step_from_updating [OF step_updates [OF assms(3,4) lost(2,1,3,4) d lost(6) assms(5,6)] wf up _ d
      stored_key [OF wf get_ok [OF wf lost(3)]]] lost(8) by simp
qed

lemmas LocalLock_steps = LocalLock_call [THEN call_steps]

text \<open>An undisturbed release while the holder is sure of the lock.\<close>

lemma LocalUnlock_steps:
  assumes call: "LocalUnlock c svc now p ns sel (pr_store g) = (r, s')"
    and "wf (pr_store g)" "pr_pc g p = Holding d" "sure \<epsilon> g d" "r \<noteq> Panic"
  shows "(lock_step c svc ns sel \<epsilon>)\<^sup>*\<^sup>* g (goto p Idle s' g) \<or>
    (\<exists>h. r = Err (holder_mismatch p h)) \<and> (lock_step c svc ns sel \<epsilon>)\<^sup>*\<^sup>* g (goto p Failed s' g)"
  using call
proof (cases rule: LocalUnlock_cases)
  case (absent e)
  then show ?thesis using lock_step.unlock_absent [OF assms(3)] by blast
next
  case (other l h)
  then show ?thesis using lock_step.unlock_other [OF assms(3), where l = l and c = c] by auto
next
  case (deleted k oe)
  have k: "k = lock_key svc ns sel" using deleted(3) stored_key [OF assms(2)] get_ok [OF assms(2)] by blast
  have "lock_step c svc ns sel \<epsilon> g (goto p (Releasing d) (pr_store g) g)"
    using lock_step.unlock_begin [OF assms(3), where c = c] deleted(3) by auto
  moreover have "lock_step c svc ns sel \<epsilon> (goto p (Releasing d) (pr_store g) g) (goto p Idle s' g)"
    using lock_step.delete_in_time [where g = "goto p (Releasing d) (pr_store g) g" and p = p and d = d] assms(4)
      deleted(1) k by simp
  ultimately show ?thesis by (meson converse_rtranclp_into_rtranclp r_into_rtranclp)
qed (use assms(5) in simp)

end

lemma lock_reach_steps:
  assumes "lock_reach c svc ns sel \<epsilon> valid g" "(lock_step c svc ns sel \<epsilon>)\<^sup>*\<^sup>* g g'"
  shows "lock_reach c svc ns sel \<epsilon> valid g'"
  using assms(2,1) by (induction rule: rtranclp_induct) (auto intro: lock_reach.step)

section \<open>Runs on the revision-counter server\<close>

definition quiet :: "rev_store protocol" where
  "quiet = \<lparr>pr_store = (Map.empty, 0), pr_now = 0, pr_pc = (\<lambda>_. Idle)\<rparr>"

text \<open>The lease of a holder at a revision.\<close>

definition rev_lease :: "lock_service \<Rightarrow> string \<Rightarrow> label_selector \<Rightarrow> string \<Rightarrow> int \<Rightarrow> nat \<Rightarrow> lease" where
  "rev_lease svc ns sel p t v = written (createLeaseForSelector (ls_leaseNamespace svc) p ns sel t) (format_nat v)"

lemma rev_lease_fields [simp]:
  "lease_acquireTime (rev_lease svc ns sel p t v) = Some (micro t)"
  "lease_durationSeconds (rev_lease svc ns sel p t v) = Some LeaseDurationSeconds"
  "lease_holderIdentity (rev_lease svc ns sel p t v) = Some p"
  "lease_resourceVersion (rev_lease svc ns sel p t v) = format_nat v"
  "ObjectKeyFromObject (rev_lease svc ns sel p t v) = lock_key svc ns sel"
  by (simp_all add: rev_lease_def)

lemma rev_lock_free:
  "m (lock_key svc ns sel) = None \<Longrightarrow>
   LocalLock rev_client svc (n0, n1, n2) p ns sel (m, v) =
     (Ok (), m(lock_key svc ns sel \<mapsto> rev_lease svc ns sel p n0 (v + 1)), v + 1)"
  by (simp add: LocalLock_def rev_create_def rev_lease_def)

lemma rev_lock_run_out:
  assumes "m (lock_key svc ns sel) = Some l" "ObjectKeyFromObject l = lock_key svc ns sel"
    and "lease_acquireTime l = Some t" "lease_durationSeconds l = Some d" "lease_deadline t d \<le> n1"
  shows "LocalLock rev_client svc (n0, n1, n2) p ns sel (m, v) =
     (Ok (), m(lock_key svc ns sel \<mapsto> written (with_holder p n2 l) (format_nat (v + 1))), v + 1)"
proof -
  have "ObjectKeyFromObject (with_holder p n2 l) = lock_key svc ns sel"
    using assms(2) by (simp add: with_holder_def ObjectKeyFromObject_def)
  then show ?thesis
    using assms by (simp add: LocalLock_def rev_create_def rev_get_def rev_update_def with_holder_def)
qed

lemma rev_wf_quiet: "rev_wf (pr_store quiet)"
  by (simp add: quiet_def rev_wf_def)

text \<open>A process locks the quiet server.\<close>

definition first_locked :: "lock_service \<Rightarrow> string \<Rightarrow> label_selector \<Rightarrow> string \<Rightarrow> rev_store protocol" where
  "first_locked svc ns sel p =
     goto p (Holding 5000000000) ([lock_key svc ns sel \<mapsto> rev_lease svc ns sel p 0 1], 1) quiet"

lemma first_locked_steps:
  assumes "0 \<le> \<epsilon>"
  shows "(lock_step rev_client svc ns sel \<epsilon>)\<^sup>*\<^sup>* quiet (first_locked svc ns sel p)"
proof -
  have "LocalLock rev_client svc (0, 0, 0) p ns sel (pr_store quiet) =
      (Ok (), [lock_key svc ns sel \<mapsto> rev_lease svc ns sel p 0 1], 1)"
    by (simp add: quiet_def rev_lock_free)
  from rev.LocalLock_steps [OF this rev_wf_quiet, of \<epsilon>] show ?thesis
    using assms by (simp add: quiet_def reads_def after_lock_def first_locked_def lease_until_def lease_deadline_def
      LeaseDurationSeconds_def micro_def)
qed

text \<open>
  The run with a late delete: the first holder sends its request to delete after its deadline, when a
  second holder has taken the lease over; then a third one locks.
\<close>

definition any_step ::
    "'s lease_client \<Rightarrow> lock_service \<Rightarrow> string \<Rightarrow> label_selector \<Rightarrow> int \<Rightarrow> 's protocol \<Rightarrow> 's protocol \<Rightarrow> bool" where
  "any_step c svc ns sel \<epsilon> g g' \<longleftrightarrow> lock_step c svc ns sel \<epsilon> g g' \<or> late_delete c svc ns sel \<epsilon> g g'"

lemma any_steps: "(lock_step c svc ns sel \<epsilon>)\<^sup>*\<^sup>* g g' \<Longrightarrow> (any_step c svc ns sel \<epsilon>)\<^sup>*\<^sup>* g g'"
  by (erule rtranclp_mono [THEN predicate2D, rotated]) (auto simp: any_step_def)

definition expired :: "lock_service \<Rightarrow> string \<Rightarrow> label_selector \<Rightarrow> rev_store protocol" where
  "expired svc ns sel =
     goto ''a'' (Releasing 5000000000) ([lock_key svc ns sel \<mapsto> rev_lease svc ns sel ''a'' 0 1], 1)
       (quiet\<lparr>pr_now := 5000000000\<rparr>)"

definition taken_over :: "lock_service \<Rightarrow> string \<Rightarrow> label_selector \<Rightarrow> rev_store protocol" where
  "taken_over svc ns sel =
     goto ''b'' (Holding 10000000000)
       ([lock_key svc ns sel \<mapsto> written (with_holder ''b'' 5000000000 (rev_lease svc ns sel ''a'' 0 1)) (format_nat 2)], 2)
       (expired svc ns sel)"

definition lease_lost :: "lock_service \<Rightarrow> string \<Rightarrow> label_selector \<Rightarrow> rev_store protocol" where
  "lease_lost svc ns sel = goto ''a'' Idle (Map.empty, 3) (taken_over svc ns sel)"

definition two_holders :: "lock_service \<Rightarrow> string \<Rightarrow> label_selector \<Rightarrow> rev_store protocol" where
  "two_holders svc ns sel =
     goto ''c'' (Holding 10000000000) ([lock_key svc ns sel \<mapsto> rev_lease svc ns sel ''c'' 5000000000 4], 4)
       (lease_lost svc ns sel)"

lemma expired_steps: "(lock_step rev_client svc ns sel 0)\<^sup>*\<^sup>* quiet (expired svc ns sel)"
proof -
  let ?g = "first_locked svc ns sel ''a''" and ?t = "(first_locked svc ns sel ''a'')\<lparr>pr_now := 5000000000\<rparr>"
  have "lock_step rev_client svc ns sel 0 ?g ?t"
    using lock_step.tick [of 5000000000 rev_client svc ns sel 0 ?g] by (simp add: first_locked_def quiet_def)
  moreover have "lock_step rev_client svc ns sel 0 ?t (expired svc ns sel)"
    using lock_step.unlock_begin [of ?t "''a''" 5000000000 rev_client svc ns sel 0]
    by (simp add: first_locked_def quiet_def rev_get_def expired_def goto_def)
  moreover have "(lock_step rev_client svc ns sel 0)\<^sup>*\<^sup>* quiet ?g" by (rule first_locked_steps) simp
  ultimately show ?thesis by (meson rtranclp.rtrancl_into_rtrancl)
qed

lemma taken_over_steps: "(lock_step rev_client svc ns sel 0)\<^sup>*\<^sup>* (expired svc ns sel) (taken_over svc ns sel)"
proof -
  have "LocalLock rev_client svc (5000000000, 5000000000, 5000000000) ''b'' ns sel (pr_store (expired svc ns sel)) =
      (Ok (), [lock_key svc ns sel \<mapsto> written (with_holder ''b'' 5000000000 (rev_lease svc ns sel ''a'' 0 1)) (format_nat 2)], 2)"
    by (simp add: expired_def rev_lock_run_out numeral_2_eq_2 lease_deadline_def LeaseDurationSeconds_def micro_def)
  moreover have "rev_wf (pr_store (expired svc ns sel))"
    by (auto simp: expired_def rev_wf_def)
  ultimately show ?thesis
    using rev.LocalLock_steps [of svc 5000000000 5000000000 5000000000 "''b''" ns sel "expired svc ns sel" _ _ 0]
    by (auto simp: taken_over_def after_lock_def expired_def quiet_def reads_def lease_until_def with_holder_def
        lease_deadline_def LeaseDurationSeconds_def micro_def)
qed

lemma lease_lost_step: "late_delete rev_client svc ns sel 0 (taken_over svc ns sel) (lease_lost svc ns sel)"
  using late_delete.late [of "taken_over svc ns sel" "''a''" 5000000000 0 rev_client svc ns sel None "(Map.empty, 3)"]
  by (simp add: taken_over_def expired_def lease_lost_def sure_def rev_delete_def quiet_def)

lemma two_holders_steps: "(lock_step rev_client svc ns sel 0)\<^sup>*\<^sup>* (lease_lost svc ns sel) (two_holders svc ns sel)"
proof -
  have "LocalLock rev_client svc (5000000000, 5000000000, 5000000000) ''c'' ns sel (pr_store (lease_lost svc ns sel)) =
      (Ok (), [lock_key svc ns sel \<mapsto> rev_lease svc ns sel ''c'' 5000000000 4], 4)"
    by (simp add: lease_lost_def rev_lock_free)
  moreover have "rev_wf (pr_store (lease_lost svc ns sel))" by (simp add: lease_lost_def rev_wf_def)
  ultimately show ?thesis
    using rev.LocalLock_steps [of svc 5000000000 5000000000 5000000000 "''c''" ns sel "lease_lost svc ns sel" _ _ 0]
    by (auto simp: two_holders_def after_lock_def lease_lost_def taken_over_def expired_def quiet_def reads_def
        lease_until_def lease_deadline_def LeaseDurationSeconds_def micro_def)
qed

section \<open>Properties\<close>

text \<open>
  C10. Mutual exclusion under concurrency: however the API requests of the lock and unlock calls of any
  number of holders interleave, with clocks that are off by at most \<open>\<epsilon>\<close>, with failing requests that may
  have been carried out and with holders that never give the lock back, at most one holder is within its
  lease (its deadline is more than \<open>\<epsilon>\<close> away) at any time, and the stored lease is this holder's. It holds
  as long as no holder sends the request to delete after its own deadline.
\<close>

theorem lock_mutual_exclusion:
  assumes "fresh_store c stored valid used" "lock_reach c svc ns sel \<epsilon> valid g"
    and "protected_at \<epsilon> g p d" "protected_at \<epsilon> g q e"
  shows "p = q \<and> (\<exists>l. stored (pr_store g) (lock_key svc ns sel) = Some l \<and>
    lease_holderIdentity l = Some p \<and> lease_until l = d)"
proof -
  have inv: "lock_inv stored valid used (lock_key svc ns sel) \<epsilon> g"
    using fresh_store.lock_reach_inv [OF assms(1,2)] .
  then show ?thesis
    using fresh_store.protected_unique [OF assms(1) inv assms(3,4)] assms(3) unfolding lock_inv_def by blast
qed

theorem lock_mutual_exclusion_witness:
  "lock_reach rev_client demo_lock ''shop'' demo_selector 1000000 rev_wf (first_locked demo_lock ''shop'' demo_selector ''a'') \<and>
   protected_at 1000000 (first_locked demo_lock ''shop'' demo_selector ''a'') ''a'' 5000000000 \<and>
   (\<exists>l. fst (pr_store (first_locked demo_lock ''shop'' demo_selector ''a'')) (lock_key demo_lock ''shop'' demo_selector) =
      Some l \<and> lease_holderIdentity l = Some ''a'' \<and> lease_until l = 5000000000)"
proof -
  let ?g = "first_locked demo_lock ''shop'' demo_selector ''a''"
  have "lock_reach rev_client demo_lock ''shop'' demo_selector 1000000 rev_wf quiet"
    by (rule lock_reach.init) (simp_all add: rev_wf_quiet, simp add: quiet_def)
  then have "lock_reach rev_client demo_lock ''shop'' demo_selector 1000000 rev_wf ?g"
    using first_locked_steps by (rule lock_reach_steps) simp
  moreover have "protected_at 1000000 ?g ''a'' 5000000000"
    by (simp add: first_locked_def protected_at_def sure_def quiet_def)
  ultimately show ?thesis using lock_mutual_exclusion [OF rev.fresh_store_axioms] by blast
qed

text \<open>
  A call of \<^verbatim>\<open>LocalLock\<close> that no other process disturbs runs through the steps of the protocol and
  ends holding the lock until the end of the lease it has written when it returns without an error, and
  failed otherwise.
\<close>

theorem lock_call_runs_as_steps:
  assumes "lease_store c stored valid" "valid (pr_store g)"
    and "LocalLock c svc (n0, n1, n2) p ns sel (pr_store g) = (r, s')"
    and "pr_pc g p = Idle" "reads \<epsilon> g n0" "reads \<epsilon> g n1" "reads \<epsilon> g n2"
  shows "(lock_step c svc ns sel \<epsilon>)\<^sup>*\<^sup>* g (goto p (after_lock stored (lock_key svc ns sel) r s') s' g)"
  using lease_store.LocalLock_steps [OF assms(1,3,2,4-7)] .

theorem lock_call_runs_as_steps_witness:
  "(lock_step rev_client demo_lock ''shop'' demo_selector 5)\<^sup>*\<^sup>* quiet
     (goto ''a'' (Holding 5000000000)
        ([lock_key demo_lock ''shop'' demo_selector \<mapsto> rev_lease demo_lock ''shop'' demo_selector ''a'' 1 1], 1) quiet)"
proof -
  have "LocalLock rev_client demo_lock (1, 2, 3) ''a'' ''shop'' demo_selector (pr_store quiet) =
      (Ok (), [lock_key demo_lock ''shop'' demo_selector \<mapsto> rev_lease demo_lock ''shop'' demo_selector ''a'' 1 1], 1)"
    by (simp add: quiet_def rev_lock_free)
  from lock_call_runs_as_steps [OF rev.lease_store_axioms, OF rev_wf_quiet this, of 5] show ?thesis
    by (simp add: quiet_def reads_def after_lock_def lease_until_def lease_deadline_def LeaseDurationSeconds_def micro_def)
qed

text \<open>
  C28. The request to delete carries no condition on the lease that was read, so exclusion is lost when a
  holder sends it after its own deadline: there is a run of the code, with exact clocks, after which two
  other requests both hold the lock with five seconds left.
\<close>

theorem late_delete_breaks_exclusion:
  "\<exists>g. (any_step rev_client svc ns sel 0)\<^sup>*\<^sup>* quiet g \<and>
     protected_at 0 g ''b'' 10000000000 \<and> protected_at 0 g ''c'' 10000000000 \<and> pr_now g = 5000000000"
proof (intro exI conjI)
  let ?R = "any_step rev_client svc ns sel 0"
  have "?R\<^sup>*\<^sup>* quiet (taken_over svc ns sel)"
    using any_steps expired_steps taken_over_steps by (meson rtranclp_trans)
  moreover have "?R (taken_over svc ns sel) (lease_lost svc ns sel)" by (simp add: any_step_def lease_lost_step)
  ultimately show "?R\<^sup>*\<^sup>* quiet (two_holders svc ns sel)"
    using any_steps [OF two_holders_steps] by (meson rtranclp.rtrancl_into_rtrancl rtranclp_trans)
qed (simp_all add: protected_at_def two_holders_def lease_lost_def taken_over_def expired_def sure_def quiet_def)

end
