(* ===== verification/Fleet.thy ===== *)
theory Fleet
  imports Lock_Protocol Samples
begin

text \<open>
  The whole system in time: webhooks of several clusters handle requests for the same budget at once,
  while pods come and go. Every request runs the middle part of \<^verbatim>\<open>Handle\<close> (\<^verbatim>\<open>internal/webhooks/validation.go\<close>):
  it takes the lock in its own cluster and then in the others, asks every cluster for its counts, decides,
  and is refused or admitted; the API server then marks the pod. The lock calls are the steps of the lock
  protocol, one copy of it for every cluster, and the counts are those that \<^verbatim>\<open>GetPodCounts\<close> finds at the
  moment the cluster is asked. Requests are named by their holder identity, which ends in a fresh UUID.

  Shown is what the lock is for: at most one request is within its locks, and when an admitted disruption
  takes effect within them, the pods that are left healthy are as many as the budget requires, but for the
  pods that were lost to something else since their cluster was counted. A disruption that is carried out after
  the locks of its request have run out is such a loss. A lease that is deleted after that moment takes the lock from
  its next holder; the step is part of the relation \<open>fleet_step\<close>, and the theorems are about runs without it.
\<close>

section \<open>The state of the system\<close>

text \<open>
  Where a request is: not yet made; in \<^verbatim>\<open>Lock\<close>; between \<^verbatim>\<open>Lock\<close> and the verdict on the budget; passed by the
  budget, with the probe to be asked; admitted, but not yet carried out by the API server; refused, in
  \<^verbatim>\<open>Unlock\<close>; at an end.
\<close>

datatype stage = Fresh | Taking | Counting | Passed | Admitted | Refused | Ended

text \<open>
  What does not change: the clusters, the lease API and the lock service of each, the skew of the clocks,
  the namespace and the selector of the budget, and for every request its cluster, its pod as the
  admission request shows it, and its budget.
\<close>

record 's fleet =
  fl_clusters :: "string set"
  fl_client :: "string \<Rightarrow> 's lease_client"
  fl_lock :: "string \<Rightarrow> lock_service"
  fl_skew :: int
  fl_namespace :: string
  fl_selector :: label_selector
  fl_home :: "string \<Rightarrow> string"
  fl_pod :: "string \<Rightarrow> pod"
  fl_xpdb :: "string \<Rightarrow> xpdb"
  fl_f2i :: "rat \<Rightarrow> int64"

text \<open>
  What changes: the lock protocol of every cluster, the pods of every cluster, the stage of every request
  and the answers it has got. Two fields only keep the books: how many healthy pods each cluster has lost
  by itself, and how many it had lost when a request counted it.
\<close>

record 's fleet_state =
  fs_lock :: "string \<Rightarrow> 's protocol"
  fs_pods :: "string \<Rightarrow> pod list"
  fs_stage :: "string \<Rightarrow> stage"
  fs_answer :: "string \<Rightarrow> string \<Rightarrow> get_state_response option"
  fs_lost :: "string \<Rightarrow> int"
  fs_base :: "string \<Rightarrow> string \<Rightarrow> int"

definition pod_key :: "pod \<Rightarrow> string \<times> string" where
  "pod_key p = (pod_namespace p, pod_name p)"

text \<open>The pods of a list that the budget selects and that are healthy.\<close>

definition live_pods :: "string \<Rightarrow> label_selector \<Rightarrow> pod list \<Rightarrow> pod list" where
  "live_pods ns sel ps =
     filter healthy_pod (filter (\<lambda>p. in_namespace ns (pod_namespace p) \<and> selects sel (pod_labels p)) ps)"

definition live :: "'s fleet \<Rightarrow> 's fleet_state \<Rightarrow> string \<Rightarrow> int" where
  "live F \<sigma> c = int (length (live_pods (fl_namespace F) (fl_selector F) (fs_pods \<sigma> c)))"

text \<open>
  What the API server does for an admitted deletion or eviction (\<^verbatim>\<open>docs/src/index.md\<close>): the pod gets a deletion
  timestamp. A pod that is removed at once counts for the budget in the same way.
\<close>

definition mark_deleted :: "string \<times> string \<Rightarrow> int \<Rightarrow> pod list \<Rightarrow> pod list" where
  "mark_deleted k t ps = map (\<lambda>p. if pod_key p = k then p\<lparr>pod_deletionTimestamp := Some t\<rparr> else p) ps"

definition disrupt :: "'s fleet \<Rightarrow> string \<Rightarrow> int \<Rightarrow> 's fleet_state \<Rightarrow> 's fleet_state" where
  "disrupt F p t \<sigma> =
     \<sigma>\<lparr>fs_pods := (fs_pods \<sigma>)(fl_home F p := mark_deleted (pod_key (fl_pod F p)) t (fs_pods \<sigma> (fl_home F p))),
       fs_stage := (fs_stage \<sigma>)(p := Ended)\<rparr>"

text \<open>A request holds the lock in a cluster; and it is sure of it in every cluster.\<close>

definition holding_in :: "'s fleet_state \<Rightarrow> string \<Rightarrow> string \<Rightarrow> bool" where
  "holding_in \<sigma> p c \<longleftrightarrow> (\<exists>d. pr_pc (fs_lock \<sigma> c) p = Holding d)"

definition covered :: "'s fleet \<Rightarrow> 's fleet_state \<Rightarrow> string \<Rightarrow> bool" where
  "covered F \<sigma> p \<longleftrightarrow>
     (\<forall>c\<in>fl_clusters F. \<exists>d. pr_pc (fs_lock \<sigma> c) p = Holding d \<and> sure (fl_skew F) (fs_lock \<sigma> c) d)"

section \<open>The steps\<close>

text \<open>
  Which moves of the lock protocol a request makes at its stage. \<^verbatim>\<open>Lock\<close> starts the local call and, when
  that has returned without an error, the remote calls; a call that has started runs on whatever happens
  to the request, since a peer may still be working when its caller has given up. \<^verbatim>\<open>Unlock\<close> starts only
  after a refusal, in the own cluster first. A lock that is left to itself runs out after the request.
\<close>

definition may_move :: "'s fleet \<Rightarrow> 's fleet_state \<Rightarrow> string \<Rightarrow> string \<Rightarrow> pc \<Rightarrow> bool" where
  "may_move F \<sigma> c p l' \<longleftrightarrow>
     (case pr_pc (fs_lock \<sigma> c) p of
        Idle \<Rightarrow> fs_stage \<sigma> p = Taking \<and> (c = fl_home F p \<or> holding_in \<sigma> p (fl_home F p))
      | Holding d \<Rightarrow>
          fs_stage \<sigma> p = Refused \<and> (c = fl_home F p \<or> pr_pc (fs_lock \<sigma> (fl_home F p)) p = Idle) \<or>
          fs_stage \<sigma> p = Ended \<and> l' = Idle
      | Failed \<Rightarrow> False
      | _ \<Rightarrow> True)"

text \<open>
  The totals that the verdict is about: the answers of the other clusters, added up in the order in which
  they came, and the counts of the own cluster.
\<close>

definition fleet_verdict ::
    "'s fleet \<Rightarrow> string \<Rightarrow> get_state_response list \<Rightarrow> get_state_response \<Rightarrow> go_err + bool" where
  "fleet_verdict F p results own =
     (case foldl add_counts (0, 0) results of
        (remoteExpectedCount, remoteHealthy) \<Rightarrow>
          disruptionAllowed (fl_f2i F) (Some (fl_xpdb F p)) (fl_pod F p)
            (remoteExpectedCount + grs_desiredHealthy own) (remoteHealthy + grs_healthy own))"

definition set_stage :: "string \<Rightarrow> stage \<Rightarrow> 's fleet_state \<Rightarrow> 's fleet_state" where
  "set_stage p s \<sigma> = \<sigma>\<lparr>fs_stage := (fs_stage \<sigma>)(p := s)\<rparr>"

definition record_answer :: "string \<Rightarrow> string \<Rightarrow> get_state_response \<Rightarrow> 's fleet_state \<Rightarrow> 's fleet_state" where
  "record_answer p c r \<sigma> =
     \<sigma>\<lparr>fs_answer := (fs_answer \<sigma>)(p := (fs_answer \<sigma> p)(c \<mapsto> r)),
       fs_base := (fs_base \<sigma>)(p := (fs_base \<sigma> p)(c := fs_lost \<sigma> c))\<rparr>"

text \<open>
  The pods of a cluster change by themselves: pods are added, become ready or not, are deleted without
  the webhook, or die with their node. A healthy pod that is gone is entered into the books.
\<close>

definition drift :: "'s fleet \<Rightarrow> string \<Rightarrow> pod list \<Rightarrow> 's fleet_state \<Rightarrow> 's fleet_state" where
  "drift F c ps \<sigma> =
     \<sigma>\<lparr>fs_pods := (fs_pods \<sigma>)(c := ps),
       fs_lost := (fs_lost \<sigma>)(c := fs_lost \<sigma> c +
         max 0 (live F \<sigma> c - int (length (live_pods (fl_namespace F) (fl_selector F) ps))))\<rparr>"

text \<open>
  Nothing makes the API server carry out an admitted disruption while the locks of the request last. A disruption
  that comes later is as much of a surprise to the next request as a pod that dies: it is entered into the books too.
\<close>

definition disrupt_late :: "'s fleet \<Rightarrow> string \<Rightarrow> int \<Rightarrow> 's fleet_state \<Rightarrow> 's fleet_state" where
  "disrupt_late F p t \<sigma> =
     set_stage p Ended (drift F (fl_home F p) (mark_deleted (pod_key (fl_pod F p)) t (fs_pods \<sigma> (fl_home F p))) \<sigma>)"

text \<open>The steps, with a request to delete a lease only while its sender is sure of the lock.\<close>

inductive timely_step :: "'s fleet \<Rightarrow> 's fleet_state \<Rightarrow> 's fleet_state \<Rightarrow> bool" for F where
  time: "0 \<le> t \<Longrightarrow>
    timely_step F \<sigma> (\<sigma>\<lparr>fs_lock := (\<lambda>c. (fs_lock \<sigma> c)\<lparr>pr_now := pr_now (fs_lock \<sigma> c) + t\<rparr>)\<rparr>)"
| request: "fs_stage \<sigma> p = Fresh \<Longrightarrow> fl_home F p \<in> fl_clusters F \<Longrightarrow>
    xpdb_namespace (fl_xpdb F p) = fl_namespace F \<Longrightarrow> spec_selector (xpdb_spec (fl_xpdb F p)) = fl_selector F \<Longrightarrow>
    timely_step F \<sigma> (set_stage p Taking \<sigma>)"
| lock_move: "c \<in> fl_clusters F \<Longrightarrow>
    lock_step (fl_client F c) (fl_lock F c) (fl_namespace F) (fl_selector F) (fl_skew F) (fs_lock \<sigma> c) g' \<Longrightarrow>
    pr_now g' = pr_now (fs_lock \<sigma> c) \<Longrightarrow>
    \<forall>p. pr_pc g' p \<noteq> pr_pc (fs_lock \<sigma> c) p \<longrightarrow> may_move F \<sigma> c p (pr_pc g' p) \<Longrightarrow>
    timely_step F \<sigma> (\<sigma>\<lparr>fs_lock := (fs_lock \<sigma>)(c := g')\<rparr>)"
| locked: "fs_stage \<sigma> p = Taking \<Longrightarrow> \<forall>c\<in>fl_clusters F. holding_in \<sigma> p c \<Longrightarrow>
    timely_step F \<sigma> (set_stage p Counting \<sigma>)"
| not_locked: "fs_stage \<sigma> p = Taking \<Longrightarrow> timely_step F \<sigma> (set_stage p Ended \<sigma>)"
| count: "fs_stage \<sigma> p = Counting \<Longrightarrow> c \<in> fl_clusters F \<Longrightarrow> fs_answer \<sigma> p c = None \<Longrightarrow>
    c = fl_home F p \<longrightarrow> (\<forall>c'\<in>fl_clusters F - {c}. fs_answer \<sigma> p c' \<noteq> None) \<Longrightarrow>
    cluster_reader (ps_reader svc) (fs_pods \<sigma> c) xs \<Longrightarrow>
    GetPodCounts svc (fl_namespace F) (fl_selector F) = Ok (e, h) \<Longrightarrow>
    timely_step F \<sigma> (record_answer p c \<lparr>grs_desiredHealthy = e, grs_healthy = h\<rparr> \<sigma>)"
| not_counted: "fs_stage \<sigma> p = Counting \<Longrightarrow> timely_step F \<sigma> (set_stage p Refused \<sigma>)"
| decide: "fs_stage \<sigma> p = Counting \<Longrightarrow> distinct order \<Longrightarrow> set order = fl_clusters F - {fl_home F p} \<Longrightarrow>
    map (fs_answer \<sigma> p) order = map Some results \<Longrightarrow> fs_answer \<sigma> p (fl_home F p) = Some own \<Longrightarrow>
    timely_step F \<sigma> (set_stage p (if fleet_verdict F p results own = Inr True then Passed else Refused) \<sigma>)"
| probe: "fs_stage \<sigma> p = Passed \<Longrightarrow> s = Admitted \<or> s = Refused \<Longrightarrow> timely_step F \<sigma> (set_stage p s \<sigma>)"
| effect: "fs_stage \<sigma> p = Admitted \<Longrightarrow> covered F \<sigma> p \<Longrightarrow> timely_step F \<sigma> (disrupt F p t \<sigma>)"
| late_effect: "fs_stage \<sigma> p = Admitted \<Longrightarrow> \<not> covered F \<sigma> p \<Longrightarrow> timely_step F \<sigma> (disrupt_late F p t \<sigma>)"
| no_effect: "fs_stage \<sigma> p = Admitted \<Longrightarrow> timely_step F \<sigma> (set_stage p Ended \<sigma>)"
| answered: "fs_stage \<sigma> p = Refused \<Longrightarrow> timely_step F \<sigma> (set_stage p Ended \<sigma>)"
| change: "c \<in> fl_clusters F \<Longrightarrow> distinct (map pod_key ps) \<Longrightarrow> timely_step F \<sigma> (drift F c ps \<sigma>)"

text \<open>
  All steps: the code deletes at any time, also when its lock has run out and another request holds the
  lease. The theorems about the budget are about runs in which this does not happen, which they say:
  every request to delete is carried out while its sender is sure of the lock.
\<close>

inductive fleet_step :: "'s fleet \<Rightarrow> 's fleet_state \<Rightarrow> 's fleet_state \<Rightarrow> bool" for F where
  in_time: "timely_step F \<sigma> \<sigma>' \<Longrightarrow> fleet_step F \<sigma> \<sigma>'"
| late: "c \<in> fl_clusters F \<Longrightarrow>
    late_delete (fl_client F c) (fl_lock F c) (fl_namespace F) (fl_selector F) (fl_skew F) (fs_lock \<sigma> c) g' \<Longrightarrow>
    fleet_step F \<sigma> (\<sigma>\<lparr>fs_lock := (fs_lock \<sigma>)(c := g')\<rparr>)"

definition deletes_in_time :: "'s fleet \<Rightarrow> 's fleet_state \<Rightarrow> 's fleet_state \<Rightarrow> bool" where
  "deletes_in_time F \<sigma> \<sigma>' \<longleftrightarrow>
     (\<forall>c\<in>fl_clusters F. \<forall>p d. pr_pc (fs_lock \<sigma> c) p = Releasing d \<and> pr_pc (fs_lock \<sigma>' c) p = Idle \<longrightarrow>
        sure (fl_skew F) (fs_lock \<sigma> c) d)"

text \<open>The states that the requests reach from the start, when all deletes are in time.\<close>

inductive fleet_reach :: "'s fleet \<Rightarrow> (string \<Rightarrow> 's \<Rightarrow> bool) \<Rightarrow> 's fleet_state \<Rightarrow> bool" for F valid where
  init: "\<forall>c\<in>fl_clusters F. valid c (pr_store (fs_lock \<sigma> c)) \<and> (\<forall>p. pr_pc (fs_lock \<sigma> c) p = Idle) \<and>
      distinct (map pod_key (fs_pods \<sigma> c)) \<Longrightarrow>
    \<forall>p. fs_stage \<sigma> p = Fresh \<and> fs_answer \<sigma> p = Map.empty \<Longrightarrow> fleet_reach F valid \<sigma>"
| step: "fleet_reach F valid \<sigma> \<Longrightarrow> timely_step F \<sigma> \<sigma>' \<Longrightarrow> fleet_reach F valid \<sigma>'"


inductive_cases fleet_stepE: "fleet_step F \<sigma> \<sigma>'"

lemma disrupt_late_simps [simp]:
  "fs_lock (disrupt_late F p t \<sigma>) = fs_lock \<sigma>" "fs_stage (disrupt_late F p t \<sigma>) = (fs_stage \<sigma>)(p := Ended)"
  "fs_answer (disrupt_late F p t \<sigma>) = fs_answer \<sigma>" "fs_base (disrupt_late F p t \<sigma>) = fs_base \<sigma>"
  "fs_pods (disrupt_late F p t \<sigma>) =
     (fs_pods \<sigma>)(fl_home F p := mark_deleted (pod_key (fl_pod F p)) t (fs_pods \<sigma> (fl_home F p)))"
  by (simp_all add: disrupt_late_def set_stage_def drift_def)

lemma lock_step_deletes:
  assumes "lock_step c svc ns sel \<epsilon> g g'" "pr_pc g p = Releasing d" "pr_pc g' p = Idle"
  shows "sure \<epsilon> g d"
  using assms by (cases rule: lock_step.cases) (auto split: if_splits)

text \<open>The steps in time are the steps with deletes in time.\<close>

lemma timely_iff: "timely_step F \<sigma> \<sigma>' \<longleftrightarrow> fleet_step F \<sigma> \<sigma>' \<and> deletes_in_time F \<sigma> \<sigma>'"
proof
  assume t: "timely_step F \<sigma> \<sigma>'"
  have "sure (fl_skew F) (fs_lock \<sigma> c) d"
    if "c \<in> fl_clusters F" "pr_pc (fs_lock \<sigma> c) p = Releasing d" "pr_pc (fs_lock \<sigma>' c) p = Idle" for c p d
    using t that lock_step_deletes
    by (cases rule: timely_step.cases)
      (auto simp: set_stage_def record_answer_def drift_def disrupt_def split: if_splits)
  with t show "fleet_step F \<sigma> \<sigma>' \<and> deletes_in_time F \<sigma> \<sigma>'"
    by (auto simp: deletes_in_time_def intro: fleet_step.in_time)
next
  assume a: "fleet_step F \<sigma> \<sigma>' \<and> deletes_in_time F \<sigma> \<sigma>'"
  then have "fleet_step F \<sigma> \<sigma>'" ..
  then show "timely_step F \<sigma> \<sigma>'"
  proof (cases rule: fleet_step.cases)
    case (late c g')
    from late(3) obtain p d where "pr_pc (fs_lock \<sigma> c) p = Releasing d" "\<not> sure (fl_skew F) (fs_lock \<sigma> c) d" "pr_pc g' p = Idle"
      by (cases rule: late_delete.cases) auto
    then show ?thesis using a late(1,2) by (fastforce simp: deletes_in_time_def)
  qed
qed

text \<open>A run with deletes in time.\<close>

definition timely_run :: "'s fleet \<Rightarrow> 's fleet_state \<Rightarrow> 's fleet_state \<Rightarrow> bool" where
  "timely_run F = (\<lambda>\<sigma> \<sigma>'. fleet_step F \<sigma> \<sigma>' \<and> deletes_in_time F \<sigma> \<sigma>')\<^sup>*\<^sup>*"

lemma timely_run_iff: "timely_run F = (timely_step F)\<^sup>*\<^sup>*"
  by (simp add: timely_run_def timely_iff [abs_def])

section \<open>Pods that are marked\<close>

lemma live_pods_simps [simp]:
  "live_pods ns sel [] = []"
  "live_pods ns sel (p # ps) =
     (if in_namespace ns (pod_namespace p) \<and> selects sel (pod_labels p) \<and> healthy_pod p
      then p # live_pods ns sel ps else live_pods ns sel ps)"
  by (simp_all add: live_pods_def)

lemma mark_deleted_simps [simp]:
  "mark_deleted k t [] = []"
  "mark_deleted k t (p # ps) =
     (if pod_key p = k then p\<lparr>pod_deletionTimestamp := Some t\<rparr> else p) # mark_deleted k t ps"
  by (simp_all add: mark_deleted_def)

lemma pod_key_mark [simp]: "map pod_key (mark_deleted k t ps) = map pod_key ps"
  by (simp add: mark_deleted_def pod_key_def)

lemma mark_deleted_absent: "k \<notin> pod_key ` set ps \<Longrightarrow> mark_deleted k t ps = ps"
  by (induction ps) auto

text \<open>Marking one pod costs one healthy pod at most, and none when the pod was not healthy.\<close>

lemma live_pods_mark:
  assumes "distinct (map pod_key ps)"
  shows "length (live_pods ns sel ps) \<le>
    length (live_pods ns sel (mark_deleted k t ps)) + of_bool (\<exists>q\<in>set ps. pod_key q = k \<and> healthy_pod q)"
  using assms
proof (induction ps)
  case (Cons p ps)
  show ?case
  proof (cases "pod_key p = k")
    case True
    with Cons.prems have "mark_deleted k t ps = ps" by (auto intro: mark_deleted_absent)
    moreover have "\<not> healthy_pod (p\<lparr>pod_deletionTimestamp := Some t\<rparr>)" by (simp add: healthy_pod_def)
    ultimately show ?thesis using True by simp
  qed (use Cons in auto)
qed simp

text \<open>Marking a pod that the budget does not count costs nothing.\<close>

lemma live_pods_mark_other:
  assumes "distinct (map pod_key ps)" "p \<in> set ps" "\<not> (in_namespace ns (pod_namespace p) \<and> selects sel (pod_labels p))"
  shows "length (live_pods ns sel (mark_deleted (pod_key p) t ps)) = length (live_pods ns sel ps)"
  using assms
proof (induction ps)
  case (Cons q qs)
  show ?case
  proof (cases "q = p")
    case True
    with Cons.prems(1) have "mark_deleted (pod_key p) t qs = qs" by (auto intro: mark_deleted_absent)
    with True Cons.prems(3) show ?thesis by auto
  next
    case False
    with Cons.prems have "pod_key q \<noteq> pod_key p" by force
    with False Cons show ?thesis by simp
  qed
qed simp

section \<open>One lock protocol per cluster\<close>

text \<open>The contract of a fleet: every cluster has a lease store with fresh versions.\<close>

locale stored_fleet =
  fixes F :: "'s fleet" and stored :: "string \<Rightarrow> 's \<Rightarrow> object_key \<Rightarrow> lease option"
    and valid :: "string \<Rightarrow> 's \<Rightarrow> bool" and used :: "string \<Rightarrow> 's \<Rightarrow> string set"
  assumes some_cluster: "fl_clusters F \<noteq> {}"
    and finite_clusters: "finite (fl_clusters F)"
    and cluster_store: "c \<in> fl_clusters F \<Longrightarrow> fresh_store (fl_client F c) (stored c) (valid c) (used c)"

lemma fleet_step_lock:
  assumes "timely_step F \<sigma> \<sigma>'" "c \<in> fl_clusters F"
  shows "fs_lock \<sigma>' c = fs_lock \<sigma> c \<or>
    lock_step (fl_client F c) (fl_lock F c) (fl_namespace F) (fl_selector F) (fl_skew F) (fs_lock \<sigma> c) (fs_lock \<sigma>' c)"
  using assms
  by (cases rule: timely_step.cases)
    (auto simp: set_stage_def record_answer_def drift_def disrupt_def intro: lock_step.tick)

lemma fleet_lock_reach:
  assumes "fleet_reach F valid \<sigma>" "c \<in> fl_clusters F"
  shows "lock_reach (fl_client F c) (fl_lock F c) (fl_namespace F) (fl_selector F) (fl_skew F) (valid c) (fs_lock \<sigma> c)"
  using assms
proof (induction rule: fleet_reach.induct)
  case (init \<sigma>)
  then show ?case by (auto intro: lock_reach.init)
next
  case (step \<sigma> \<sigma>')
  with fleet_step_lock [OF step.hyps(2) step.prems] show ?case by (auto intro: lock_reach.step)
qed

context stored_fleet
begin

lemma lock_invariant:
  assumes "fleet_reach F valid \<sigma>" "c \<in> fl_clusters F"
  shows "lock_inv (stored c) (valid c) (used c) (lock_key (fl_lock F c) (fl_namespace F) (fl_selector F)) (fl_skew F) (fs_lock \<sigma> c)"
  by (rule fresh_store.lock_reach_inv [OF cluster_store [OF assms(2)] fleet_lock_reach [OF assms]])

text \<open>Two requests that are sure of the lock in every cluster are the same.\<close>

lemma covered_unique:
  assumes "fleet_reach F valid \<sigma>" "covered F \<sigma> p" "covered F \<sigma> q"
  shows "p = q"
proof -
  obtain c where c: "c \<in> fl_clusters F" using some_cluster by blast
  obtain d e where "protected_at (fl_skew F) (fs_lock \<sigma> c) p d" "protected_at (fl_skew F) (fs_lock \<sigma> c) q e"
    using assms(2,3) c by (fastforce simp: covered_def protected_at_def)
  then show ?thesis
    using fresh_store.protected_unique [OF cluster_store [OF c] lock_invariant [OF assms(1) c]] by blast
qed

end

section \<open>The invariants\<close>

definition deciding :: "stage \<Rightarrow> bool" where
  "deciding s \<longleftrightarrow> s = Counting \<or> s = Passed \<or> s = Admitted"

lemma deciding_simps [simp]:
  "deciding Counting" "deciding Passed" "deciding Admitted"
  "\<not> deciding Fresh" "\<not> deciding Taking" "\<not> deciding Refused" "\<not> deciding Ended"
  by (simp_all add: deciding_def)

lemma fleet_distinct:
  assumes "fleet_reach F valid \<sigma>" "c \<in> fl_clusters F"
  shows "distinct (map pod_key (fs_pods \<sigma> c))"
  using assms
proof (induction rule: fleet_reach.induct)
  case (step \<sigma> \<sigma>')
  from step.hyps(2) show ?case using step.IH step.prems
    by (cases rule: timely_step.cases)
      (auto simp: set_stage_def record_answer_def drift_def disrupt_def)
qed simp

lemma fleet_no_answer:
  assumes "fleet_reach F valid \<sigma>" "fs_stage \<sigma> p = Fresh \<or> fs_stage \<sigma> p = Taking"
  shows "fs_answer \<sigma> p = Map.empty"
  using assms
proof (induction rule: fleet_reach.induct)
  case (step \<sigma> \<sigma>')
  from step.hyps(2) show ?case using step.IH step.prems
    by (cases rule: timely_step.cases)
      (auto simp: set_stage_def record_answer_def drift_def disrupt_def split: if_splits)
qed simp

text \<open>A request that is deciding holds the lock in every cluster, and no move takes it away.\<close>

lemma stays_put:
  assumes "timely_step F \<sigma> \<sigma>'" "\<And>l. \<not> may_move F \<sigma> c p l"
  shows "pr_pc (fs_lock \<sigma>' c) p = pr_pc (fs_lock \<sigma> c) p"
  using assms(1)
proof (cases rule: timely_step.cases)
  case (lock_move c' g')
  then have "pr_pc g' p = pr_pc (fs_lock \<sigma> c) p" if "c' = c" using assms(2) that by blast
  with lock_move(1) show ?thesis by (cases "c' = c") simp_all
qed (auto simp: set_stage_def record_answer_def drift_def disrupt_def)

lemma deciding_keeps_lock:
  assumes "timely_step F \<sigma> \<sigma>'" "deciding (fs_stage \<sigma> p)" "pr_pc (fs_lock \<sigma> c) p = Holding d"
  shows "pr_pc (fs_lock \<sigma>' c) p = Holding d"
proof -
  have "\<not> may_move F \<sigma> c p l" for l using assms(2,3) by (auto simp: may_move_def)
  then show ?thesis using stays_put [OF assms(1), of c p] assms(3) by simp
qed

lemma fleet_holding:
  assumes "fleet_reach F valid \<sigma>" "deciding (fs_stage \<sigma> p)" "c \<in> fl_clusters F"
  shows "holding_in \<sigma> p c"
  using assms
proof (induction arbitrary: c rule: fleet_reach.induct)
  case (step \<sigma> \<sigma>')
  show ?case
  proof (cases "deciding (fs_stage \<sigma> p)")
    case True
    then show ?thesis
      using step.IH [OF True step.prems(2)] deciding_keeps_lock [OF step.hyps(2) True]
      by (auto simp: holding_in_def)
  next
    case False
    from step.hyps(2) False step.prems show ?thesis
      by (cases rule: timely_step.cases)
        (auto simp: set_stage_def record_answer_def drift_def disrupt_def holding_in_def split: if_splits)
  qed
qed simp


lemma fleet_step_now:
  assumes "timely_step F \<sigma> \<sigma>'" shows "pr_now (fs_lock \<sigma> c) \<le> pr_now (fs_lock \<sigma>' c)"
  using assms
  by (cases rule: timely_step.cases) (auto simp: set_stage_def record_answer_def drift_def disrupt_def)

lemma covered_before:
  assumes "timely_step F \<sigma> \<sigma>'" "deciding (fs_stage \<sigma> p)" "\<forall>c\<in>fl_clusters F. holding_in \<sigma> p c" "covered F \<sigma>' p"
  shows "covered F \<sigma> p"
  unfolding covered_def
proof
  fix c assume c: "c \<in> fl_clusters F"
  then obtain d where d: "pr_pc (fs_lock \<sigma> c) p = Holding d" using assms(3) by (auto simp: holding_in_def)
  then have "pr_pc (fs_lock \<sigma>' c) p = Holding d" by (rule deciding_keeps_lock [OF assms(1,2)])
  with assms(4) c have "sure (fl_skew F) (fs_lock \<sigma>' c) d" by (fastforce simp: covered_def)
  then have "sure (fl_skew F) (fs_lock \<sigma> c) d" using fleet_step_now [OF assms(1), of c] by (simp add: sure_def)
  with d show "\<exists>d. pr_pc (fs_lock \<sigma> c) p = Holding d \<and> sure (fl_skew F) (fs_lock \<sigma> c) d" by blast
qed

text \<open>
  The books: a cluster that has answered a request has as many healthy pods as it said, but for those it
  has lost by itself since then.
\<close>

definition balanced :: "'s fleet \<Rightarrow> 's fleet_state \<Rightarrow> string \<Rightarrow> bool" where
  "balanced F \<sigma> p \<longleftrightarrow>
     (\<forall>c\<in>fl_clusters F. \<forall>r. fs_answer \<sigma> p c = Some r \<longrightarrow>
        sint (grs_healthy r) \<le> live F \<sigma> c + (fs_lost \<sigma> c - fs_base \<sigma> p c))"

lemma drift_balance:
  "live F \<sigma> c + (fs_lost \<sigma> c - b) \<le> live F (drift F c' ps \<sigma>) c + (fs_lost (drift F c' ps \<sigma>) c - b)"
  by (auto simp: drift_def live_def)

lemma drift_balanced:
  assumes "balanced F \<sigma> p"
  shows "balanced F (drift F c ps \<sigma>) p"
  unfolding balanced_def
proof (intro ballI allI impI)
  fix c' r assume "c' \<in> fl_clusters F" "fs_answer (drift F c ps \<sigma>) p c' = Some r"
  then have "sint (grs_healthy r) \<le> live F \<sigma> c' + (fs_lost \<sigma> c' - fs_base \<sigma> p c')"
    using assms by (simp add: balanced_def drift_def)
  also have "\<dots> \<le> live F (drift F c ps \<sigma>) c' + (fs_lost (drift F c ps \<sigma>) c' - fs_base \<sigma> p c')"
    by (rule drift_balance)
  finally show "sint (grs_healthy r) \<le>
      live F (drift F c ps \<sigma>) c' + (fs_lost (drift F c ps \<sigma>) c' - fs_base (drift F c ps \<sigma>) p c')"
    by (simp add: drift_def)
qed

lemma balanced_stage: "balanced F (set_stage q s \<sigma>) p = balanced F \<sigma> p"
  by (simp add: balanced_def live_def set_stage_def)

lemma counted_live:
  assumes "cluster_reader (ps_reader svc) (fs_pods \<sigma> c) xs"
    and "GetPodCounts svc (fl_namespace F) (fl_selector F) = Ok (e, h)"
  shows "sint h \<le> live F \<sigma> c"
  using cluster_reader.counted_healthy_le [OF assms refl] by (simp add: live_def live_pods_def)

lemma balanced_step:
  assumes "timely_step F \<sigma> \<sigma>'" "balanced F \<sigma> p" "deciding (fs_stage \<sigma>' p)"
    and alone: "\<And>q. covered F \<sigma> q \<Longrightarrow> q = p"
  shows "balanced F \<sigma>' p"
  using assms(1)
proof (cases rule: timely_step.cases)
  case (count q c svc xs e h)
  then show ?thesis
    using assms(2) counted_live [OF count(6,7)]
    by (auto simp: balanced_def record_answer_def live_def)
next
  case (effect q t)
  then show ?thesis using alone assms(3) by (auto simp: disrupt_def)
next
  case (late_effect q t)
  then show ?thesis using drift_balanced [OF assms(2)] by (simp add: disrupt_late_def balanced_stage)
next
  case (change c ps)
  then show ?thesis using drift_balanced [OF assms(2)] by simp
qed (use assms(2) in \<open>auto simp: balanced_def live_def set_stage_def\<close>)

context stored_fleet
begin

lemma fleet_balanced:
  assumes "fleet_reach F valid \<sigma>" "deciding (fs_stage \<sigma> p)" "covered F \<sigma> p"
  shows "balanced F \<sigma> p"
  using assms
proof (induction rule: fleet_reach.induct)
  case (step \<sigma> \<sigma>')
  show ?case
  proof (cases "deciding (fs_stage \<sigma> p)")
    case True
    have "covered F \<sigma> p"
      using covered_before [OF step.hyps(2) True] fleet_holding [OF step.hyps(1) True] step.prems(2) by blast
    with step True covered_unique [OF step.hyps(1)] show ?thesis
      by (intro balanced_step [OF step.hyps(2)]) blast+
  next
    case False
    from step.hyps(2) False step.prems(1) have "fs_stage \<sigma> p = Taking \<and> \<sigma>' = set_stage p Counting \<sigma>"
      by (cases rule: timely_step.cases)
        (auto simp: set_stage_def record_answer_def drift_def disrupt_def split: if_splits)
    then show ?thesis using fleet_no_answer [OF step.hyps(1)] by (auto simp: balanced_def set_stage_def)
  qed
qed simp

end

text \<open>The verdict behind a request that passed.\<close>

definition passed_by :: "'s fleet \<Rightarrow> 's fleet_state \<Rightarrow> string \<Rightarrow> bool" where
  "passed_by F \<sigma> p \<longleftrightarrow>
     (\<exists>order results own. distinct order \<and> set order = fl_clusters F - {fl_home F p} \<and>
        map (fs_answer \<sigma> p) order = map Some results \<and> fs_answer \<sigma> p (fl_home F p) = Some own \<and>
        fleet_verdict F p results own = Inr True)"

lemma fleet_passed:
  assumes "fleet_reach F valid \<sigma>" "fs_stage \<sigma> p = Passed \<or> fs_stage \<sigma> p = Admitted"
  shows "passed_by F \<sigma> p"
  using assms
proof (induction rule: fleet_reach.induct)
  case (step \<sigma> \<sigma>')
  from step.hyps(2) show ?case
  proof (cases rule: timely_step.cases)
    case (decide q order results own)
    then show ?thesis using step by (cases "q = p") (auto simp: set_stage_def passed_by_def split: if_splits)
  qed (use step.IH step.prems in
      \<open>auto simp: set_stage_def record_answer_def drift_def disrupt_def passed_by_def split: if_splits\<close>)
qed simp


lemma fleet_home_cluster:
  assumes "fleet_reach F valid \<sigma>" "fs_stage \<sigma> p \<noteq> Fresh"
  shows "fl_home F p \<in> fl_clusters F"
  using assms
proof (induction rule: fleet_reach.induct)
  case (step \<sigma> \<sigma>')
  from step.hyps(2) show ?case using step.IH step.prems
    by (cases rule: timely_step.cases)
      (auto simp: set_stage_def record_answer_def drift_def disrupt_def split: if_splits)
qed simp

section \<open>The totals\<close>

definition counted :: "(get_state_response \<Rightarrow> int32) \<Rightarrow> 's fleet \<Rightarrow> 's fleet_state \<Rightarrow> string \<Rightarrow> int" where
  "counted f F \<sigma> p =
     (\<Sum>c\<in>fl_clusters F. case fs_answer \<sigma> p c of None \<Rightarrow> 0 | Some r \<Rightarrow> sint (f r))"

text \<open>Counts that are not negative and whose totals fit into 32 bits.\<close>

definition totals_fit :: "'s fleet \<Rightarrow> 's fleet_state \<Rightarrow> string \<Rightarrow> bool" where
  "totals_fit F \<sigma> p \<longleftrightarrow>
     (\<forall>c\<in>fl_clusters F. \<forall>r. fs_answer \<sigma> p c = Some r \<longrightarrow>
        0 \<le> sint (grs_desiredHealthy r) \<and> 0 \<le> sint (grs_healthy r)) \<and>
     counted grs_desiredHealthy F \<sigma> p < 2 ^ 31 \<and> counted grs_healthy F \<sigma> p < 2 ^ 31 - 1"

lemma counted_total:
  assumes "distinct order" "set order = fl_clusters F - {a}" "a \<in> fl_clusters F"
    and ans: "map (fs_answer \<sigma> p) order = map Some results" "fs_answer \<sigma> p a = Some own"
    and pos: "\<forall>c\<in>fl_clusters F. \<forall>r. fs_answer \<sigma> p c = Some r \<longrightarrow> 0 \<le> sint (f r)"
    and fit: "counted f F \<sigma> p < 2 ^ 31"
  shows "sint (sum_list (map f results) + f own) = counted f F \<sigma> p"
proof -
  let ?cs = "order @ [a]" and ?rs = "results @ [own]"
  have cs: "distinct ?cs" "set ?cs = fl_clusters F" using assms(1-3) by auto
  have rs: "map (fs_answer \<sigma> p) ?cs = map Some ?rs" using ans by simp
  have "counted f F \<sigma> p = sum_list (map (\<lambda>c. case fs_answer \<sigma> p c of None \<Rightarrow> 0 | Some r \<Rightarrow> sint (f r)) ?cs)"
    by (simp only: counted_def sum_list_distinct_conv_sum_set [OF cs(1)] cs(2))
  also have "map (\<lambda>c. case fs_answer \<sigma> p c of None \<Rightarrow> 0 | Some r \<Rightarrow> sint (f r)) ?cs =
      map (case_option 0 (\<lambda>r. sint (f r))) (map (fs_answer \<sigma> p) ?cs)" by simp
  also have "\<dots> = map sint (map f ?rs)" unfolding rs by simp
  finally have total: "counted f F \<sigma> p = sum_list (map sint (map f ?rs))" .
  have "0 \<le> sint (f r)" if "r \<in> set ?rs" for r
  proof -
    have "Some r \<in> set (map (fs_answer \<sigma> p) ?cs)" unfolding rs using that by auto
    then obtain c where "c \<in> set ?cs" "fs_answer \<sigma> p c = Some r" by (metis imageE list.set_map)
    then show ?thesis using pos cs(2) by blast
  qed
  then have "\<forall>w\<in>set (map f ?rs). 0 \<le> sint w" by (metis imageE list.set_map)
  then have "sint (sum_list (map f ?rs)) = counted f F \<sigma> p"
    using sint_sum_list [of "map f ?rs"] fit by (simp only: total)
  then show ?thesis by simp
qed

lemma fleet_verdict_sums:
  "fleet_verdict F p results own =
     disruptionAllowed (fl_f2i F) (Some (fl_xpdb F p)) (fl_pod F p)
       (sum_list (map grs_desiredHealthy results) + grs_desiredHealthy own)
       (sum_list (map grs_healthy results) + grs_healthy own)"
  by (simp add: fleet_verdict_def add_counts_sum)

lemma counted_nonneg:
  assumes "\<forall>c\<in>fl_clusters F. \<forall>r. fs_answer \<sigma> p c = Some r \<longrightarrow> 0 \<le> sint (f r)"
  shows "0 \<le> counted f F \<sigma> p"
  unfolding counted_def using assms by (intro sum_nonneg) (auto split: option.splits)

lemma passed_verdict:
  assumes "passed_by F \<sigma> p" "fl_home F p \<in> fl_clusters F" "totals_fit F \<sigma> p"
    and "sane_budget (xpdb_spec (fl_xpdb F p))"
  shows "required_healthy (xpdb_spec (fl_xpdb F p)) (counted grs_desiredHealthy F \<sigma> p) \<le>
    counted grs_healthy F \<sigma> p - of_bool (IsPodReady (fl_pod F p))"
proof -
  obtain order results own where *: "distinct order" "set order = fl_clusters F - {fl_home F p}"
    "map (fs_answer \<sigma> p) order = map Some results" "fs_answer \<sigma> p (fl_home F p) = Some own"
    and v: "fleet_verdict F p results own = Inr True"
    using assms(1) by (auto simp: passed_by_def)
  have e: "sint (sum_list (map grs_desiredHealthy results) + grs_desiredHealthy own) = counted grs_desiredHealthy F \<sigma> p"
    and h: "sint (sum_list (map grs_healthy results) + grs_healthy own) = counted grs_healthy F \<sigma> p"
    using assms(3) by (auto intro!: counted_total [OF *(1,2) assms(2) *(3,4)] simp: totals_fit_def)
  have "0 \<le> counted grs_desiredHealthy F \<sigma> p" "0 \<le> counted grs_healthy F \<sigma> p" "counted grs_healthy F \<sigma> p < 2 ^ 31 - 1"
    using assms(3) by (auto intro: counted_nonneg simp: totals_fit_def)
  then have "disruptionAllowed (fl_f2i F) (Some (fl_xpdb F p)) (fl_pod F p)
       (sum_list (map grs_desiredHealthy results) + grs_desiredHealthy own)
       (sum_list (map grs_healthy results) + grs_healthy own) =
     Inr (required_healthy (xpdb_spec (fl_xpdb F p)) (counted grs_desiredHealthy F \<sigma> p) \<le>
       counted grs_healthy F \<sigma> p - (if IsPodReady (fl_pod F p) then 1 else 0))"
    using disruptionAllowed_exact [OF assms(4)] e h by metis
  with v show ?thesis by (simp add: fleet_verdict_sums split: if_splits)
qed

text \<open>What an effect costs: one healthy pod at most.\<close>

definition pod_is_healthy :: "'s fleet \<Rightarrow> 's fleet_state \<Rightarrow> string \<Rightarrow> bool" where
  "pod_is_healthy F \<sigma> p \<longleftrightarrow>
     (\<exists>q\<in>set (fs_pods \<sigma> (fl_home F p)). pod_key q = pod_key (fl_pod F p) \<and> healthy_pod q)"

lemma live_disrupt:
  assumes "finite (fl_clusters F)" "fl_home F p \<in> fl_clusters F" "distinct (map pod_key (fs_pods \<sigma> (fl_home F p)))"
  shows "(\<Sum>c\<in>fl_clusters F. live F \<sigma> c) \<le>
    (\<Sum>c\<in>fl_clusters F. live F (disrupt F p t \<sigma>) c) + of_bool (pod_is_healthy F \<sigma> p)"
proof -
  let ?h = "fl_home F p"
  have "length (live_pods (fl_namespace F) (fl_selector F) (fs_pods \<sigma> ?h)) \<le>
      length (live_pods (fl_namespace F) (fl_selector F) (mark_deleted (pod_key (fl_pod F p)) t (fs_pods \<sigma> ?h))) +
      of_bool (pod_is_healthy F \<sigma> p)"
    unfolding pod_is_healthy_def by (rule live_pods_mark [OF assms(3)])
  then have "live F \<sigma> ?h \<le> live F (disrupt F p t \<sigma>) ?h + of_bool (pod_is_healthy F \<sigma> p)"
    by (cases "pod_is_healthy F \<sigma> p") (simp_all add: live_def disrupt_def)
  moreover have "(\<Sum>c\<in>fl_clusters F - {?h}. live F \<sigma> c) = (\<Sum>c\<in>fl_clusters F - {?h}. live F (disrupt F p t \<sigma>) c)"
    by (intro sum.cong) (simp_all add: live_def disrupt_def)
  ultimately show ?thesis
    using sum.remove [OF assms(1,2), of "live F \<sigma>"] sum.remove [OF assms(1,2), of "live F (disrupt F p t \<sigma>)"]
    by linarith
qed

lemma balanced_total:
  assumes "balanced F \<sigma> p" "\<forall>c\<in>fl_clusters F. fs_answer \<sigma> p c \<noteq> None"
  shows "counted grs_healthy F \<sigma> p \<le> (\<Sum>c\<in>fl_clusters F. live F \<sigma> c) + (\<Sum>c\<in>fl_clusters F. fs_lost \<sigma> c - fs_base \<sigma> p c)"
  unfolding counted_def sum.distrib [symmetric]
  using assms by (intro sum_mono) (auto simp: balanced_def split: option.splits)

lemma passed_answers:
  assumes "passed_by F \<sigma> p" shows "\<forall>c\<in>fl_clusters F. fs_answer \<sigma> p c \<noteq> None"
proof
  fix c assume "c \<in> fl_clusters F"
  obtain order results own where *: "set order = fl_clusters F - {fl_home F p}"
    "map (fs_answer \<sigma> p) order = map Some results" "fs_answer \<sigma> p (fl_home F p) = Some own"
    using assms by (auto simp: passed_by_def)
  show "fs_answer \<sigma> p c \<noteq> None"
  proof (cases "c = fl_home F p")
    case False
    with * \<open>c \<in> fl_clusters F\<close> have "fs_answer \<sigma> p c \<in> set (map Some results)" by (metis DiffI imageI list.set_map singletonD)
    then show ?thesis by auto
  qed (use * in simp)
qed


context stored_fleet
begin

lemma disruption_within_budget:
  assumes "fleet_reach F valid \<sigma>" "fs_stage \<sigma> p = Admitted" "covered F \<sigma> p"
    and "sane_budget (xpdb_spec (fl_xpdb F p))" "totals_fit F \<sigma> p"
  shows "required_healthy (xpdb_spec (fl_xpdb F p)) (counted grs_desiredHealthy F \<sigma> p) \<le>
    (\<Sum>c\<in>fl_clusters F. live F (disrupt F p t \<sigma>) c) + (\<Sum>c\<in>fl_clusters F. fs_lost \<sigma> c - fs_base \<sigma> p c) +
    of_bool (pod_is_healthy F \<sigma> p \<and> \<not> IsPodReady (fl_pod F p))"
proof -
  have passed: "passed_by F \<sigma> p" using fleet_passed [OF assms(1)] assms(2) by blast
  have home: "fl_home F p \<in> fl_clusters F" using fleet_home_cluster [OF assms(1)] assms(2) by simp
  have "balanced F \<sigma> p" using fleet_balanced [OF assms(1)] assms(2,3) by simp
  then have "counted grs_healthy F \<sigma> p \<le>
      (\<Sum>c\<in>fl_clusters F. live F \<sigma> c) + (\<Sum>c\<in>fl_clusters F. fs_lost \<sigma> c - fs_base \<sigma> p c)"
    using balanced_total passed_answers [OF passed] by blast
  moreover have "(\<Sum>c\<in>fl_clusters F. live F \<sigma> c) \<le>
      (\<Sum>c\<in>fl_clusters F. live F (disrupt F p t \<sigma>) c) + of_bool (pod_is_healthy F \<sigma> p)"
    using live_disrupt [OF finite_clusters home fleet_distinct [OF assms(1) home]] .
  ultimately show ?thesis
    using passed_verdict [OF passed home assms(5,4)] by (auto simp: of_bool_def split: if_splits)
qed

end

section \<open>The verdict of the code\<close>

text \<open>
  The step \<open>decide\<close> is what \<^verbatim>\<open>CanPodBeDisrupted\<close> computes: when the remote calls return these results
  and the own counts are these, the call returns the verdict.
\<close>

lemma code_decides_verdict:
  assumes "all_tasks (state_task env (xpdb_namespace (fl_xpdb F p)) (spec_selector (xpdb_spec (fl_xpdb F p)))) order rs results rs'"
    and "GetPodCounts svc (xpdb_namespace (fl_xpdb F p)) (spec_selector (xpdb_spec (fl_xpdb F p))) =
      Ok (grs_desiredHealthy own, grs_healthy own)"
    and "ps_remoteEndpoints svc = [] \<longrightarrow> order = []"
  shows "CanPodBeDisrupted (fl_f2i F) env svc order (fl_pod F p) (fl_xpdb F p) rs = (Ok b, rs') \<longleftrightarrow>
    fleet_verdict F p results own = Inr b"
  unfolding CanPodBeDisrupted_Ok [OF assms(3)] fleet_verdict_sums
  using assms(1,2) all_tasks_det by (metis Pair_inject go.inject(1))

end
