(* ===== verification/Fleet_Runs.thy ===== *)
theory Fleet_Runs
  imports Fleet
begin

text \<open>
  Runs of the fleet. A request that no other one disturbs runs through the steps to where the calls of the
  code end: the local and the remote lock calls, the counts of all clusters and the verdict. So the step
  relation contains what the functions of the services compute, and the concrete runs below are obtained
  by evaluating these functions. The properties of the fleet stand at the end.
\<close>

section \<open>Undisturbed requests\<close>

text \<open>
  A step of one request, or of time: no other request moves, and no pod changes.
\<close>

definition own_step :: "'s fleet \<Rightarrow> string \<Rightarrow> 's fleet_state \<Rightarrow> 's fleet_state \<Rightarrow> bool" where
  "own_step F p \<sigma> \<sigma>' \<longleftrightarrow>
     timely_step F \<sigma> \<sigma>' \<and> fs_pods \<sigma>' = fs_pods \<sigma> \<and> fs_lost \<sigma>' = fs_lost \<sigma> \<and>
     (\<forall>q. q \<noteq> p \<longrightarrow> fs_stage \<sigma>' q = fs_stage \<sigma> q \<and> fs_answer \<sigma>' q = fs_answer \<sigma> q \<and>
        (\<forall>c. pr_pc (fs_lock \<sigma>' c) q = pr_pc (fs_lock \<sigma> c) q))"

lemma own_stepI:
  assumes "timely_step F \<sigma> \<sigma>'" "fs_pods \<sigma>' = fs_pods \<sigma>" "fs_lost \<sigma>' = fs_lost \<sigma>"
    and "\<And>q. q \<noteq> p \<Longrightarrow> fs_stage \<sigma>' q = fs_stage \<sigma> q" "\<And>q. q \<noteq> p \<Longrightarrow> fs_answer \<sigma>' q = fs_answer \<sigma> q"
    and "\<And>q c. q \<noteq> p \<Longrightarrow> pr_pc (fs_lock \<sigma>' c) q = pr_pc (fs_lock \<sigma> c) q"
  shows "own_step F p \<sigma> \<sigma>'"
  using assms by (simp add: own_step_def)

lemma own_steps: "(own_step F p)\<^sup>*\<^sup>* \<sigma> \<sigma>' \<Longrightarrow> (timely_step F)\<^sup>*\<^sup>* \<sigma> \<sigma>'"
  by (erule rtranclp_mono [THEN predicate2D, rotated]) (auto simp: own_step_def)

lemma set_stage_simps [simp]:
  "fs_lock (set_stage p s \<sigma>) = fs_lock \<sigma>" "fs_pods (set_stage p s \<sigma>) = fs_pods \<sigma>"
  "fs_answer (set_stage p s \<sigma>) = fs_answer \<sigma>" "fs_lost (set_stage p s \<sigma>) = fs_lost \<sigma>"
  "fs_base (set_stage p s \<sigma>) = fs_base \<sigma>" "fs_stage (set_stage p s \<sigma>) = (fs_stage \<sigma>)(p := s)"
  "set_stage p s (set_stage p s' \<sigma>) = set_stage p s \<sigma>"
  "(set_stage p s \<sigma>)\<lparr>fs_lock := g\<rparr> = set_stage p s (\<sigma>\<lparr>fs_lock := g\<rparr>)"
  by (simp_all add: set_stage_def)

lemma own_stage: "timely_step F \<sigma> (set_stage p s \<sigma>) \<Longrightarrow> own_step F p \<sigma> (set_stage p s \<sigma>)"
  by (simp add: own_step_def)

lemma fleet_call:
  assumes "(call_step (fl_client F c) (fl_lock F c) (fl_namespace F) (fl_selector F) (fl_skew F) p)\<^sup>*\<^sup>* (fs_lock \<sigma> c) g'"
    and "c \<in> fl_clusters F" "fs_stage \<sigma> p = Taking" "c = fl_home F p \<or> holding_in \<sigma> p (fl_home F p)"
  shows "(own_step F p)\<^sup>*\<^sup>* \<sigma> (\<sigma>\<lparr>fs_lock := (fs_lock \<sigma>)(c := g')\<rparr>)"
  using assms(1)
proof (induction rule: rtranclp_induct)
  case base
  then show ?case by simp
next
  case (step g g')
  let ?\<sigma> = "\<sigma>\<lparr>fs_lock := (fs_lock \<sigma>)(c := g)\<rparr>"
  have call: "lock_step (fl_client F c) (fl_lock F c) (fl_namespace F) (fl_selector F) (fl_skew F) g g'"
    "pr_now g' = pr_now g" "\<forall>q. q \<noteq> p \<longrightarrow> pr_pc g' q = pr_pc g q" "in_call (pr_pc g p)"
    using step.hyps(2) by (simp_all add: call_step_def)
  have "may_move F ?\<sigma> c p (pr_pc g' p)"
    using assms(3,4) call(4) by (auto simp: may_move_def holding_in_def in_call_def split: pc.splits)
  then have "own_step F p ?\<sigma> (?\<sigma>\<lparr>fs_lock := (fs_lock ?\<sigma>)(c := g')\<rparr>)"
    using call assms(2) by (intro own_stepI timely_step.lock_move) auto
  then have "own_step F p ?\<sigma> (\<sigma>\<lparr>fs_lock := (fs_lock \<sigma>)(c := g')\<rparr>)" by simp
  with step.IH show ?case by (rule rtranclp.rtrancl_into_rtrancl)
qed

text \<open>The lock calls of the other clusters, in any order.\<close>

lemma fleet_calls:
  assumes "distinct cs" "set cs \<subseteq> fl_clusters F - {fl_home F p}"
    and "fs_stage \<sigma> p = Taking" "holding_in \<sigma> p (fl_home F p)"
    and "\<forall>c\<in>set cs. (call_step (fl_client F c) (fl_lock F c) (fl_namespace F) (fl_selector F) (fl_skew F) p)\<^sup>*\<^sup>*
      (fs_lock \<sigma> c) (G c)"
  shows "(own_step F p)\<^sup>*\<^sup>* \<sigma> (\<sigma>\<lparr>fs_lock := (\<lambda>c. if c \<in> set cs then G c else fs_lock \<sigma> c)\<rparr>)"
  using assms
proof (induction cs arbitrary: \<sigma>)
  case (Cons c cs)
  let ?\<sigma> = "\<sigma>\<lparr>fs_lock := (fs_lock \<sigma>)(c := G c)\<rparr>"
  have "(own_step F p)\<^sup>*\<^sup>* \<sigma> ?\<sigma>" using Cons.prems by (intro fleet_call) auto
  moreover have "(own_step F p)\<^sup>*\<^sup>* ?\<sigma> (?\<sigma>\<lparr>fs_lock := (\<lambda>d. if d \<in> set cs then G d else fs_lock ?\<sigma> d)\<rparr>)"
    using Cons.prems by (intro Cons.IH) (auto simp: holding_in_def)
  moreover have "?\<sigma>\<lparr>fs_lock := (\<lambda>d. if d \<in> set cs then G d else fs_lock ?\<sigma> d)\<rparr> =
      \<sigma>\<lparr>fs_lock := (\<lambda>d. if d \<in> set (c # cs) then G d else fs_lock \<sigma> d)\<rparr>"
    using Cons.prems(1) by (auto simp: fun_eq_iff)
  ultimately show ?case by (metis (no_types, lifting) rtranclp_trans)
qed simp

text \<open>The answers of a list of clusters, recorded one by one.\<close>

definition record_answers ::
    "string \<Rightarrow> string list \<Rightarrow> (string \<Rightarrow> get_state_response) \<Rightarrow> 's fleet_state \<Rightarrow> 's fleet_state" where
  "record_answers p cs A \<sigma> = foldl (\<lambda>\<sigma> c. record_answer p c (A c) \<sigma>) \<sigma> cs"

lemma record_answers_simps [simp]:
  "record_answers p [] A \<sigma> = \<sigma>"
  "record_answers p (c # cs) A \<sigma> = record_answers p cs A (record_answer p c (A c) \<sigma>)"
  by (simp_all add: record_answers_def)

lemma record_answers_fields:
  "fs_answer (record_answers p cs A \<sigma>) q =
     (if q = p then (\<lambda>c. if c \<in> set cs then Some (A c) else fs_answer \<sigma> p c) else fs_answer \<sigma> q)"
  "fs_stage (record_answers p cs A \<sigma>) = fs_stage \<sigma>" "fs_lock (record_answers p cs A \<sigma>) = fs_lock \<sigma>"
  "fs_pods (record_answers p cs A \<sigma>) = fs_pods \<sigma>" "fs_lost (record_answers p cs A \<sigma>) = fs_lost \<sigma>"
  by (induction cs arbitrary: \<sigma>) (auto simp: record_answer_def fun_eq_iff)

definition counts_in ::
    "'s fleet \<Rightarrow> 's fleet_state \<Rightarrow> string \<Rightarrow> get_state_response \<Rightarrow> bool" where
  "counts_in F \<sigma> c r \<longleftrightarrow>
     (\<exists>svc xs. cluster_reader (ps_reader svc) (fs_pods \<sigma> c) xs \<and>
        GetPodCounts svc (fl_namespace F) (fl_selector F) = Ok (grs_desiredHealthy r, grs_healthy r))"

lemma fleet_count:
  assumes "fs_stage \<sigma> p = Counting" "c \<in> fl_clusters F" "fs_answer \<sigma> p c = None" "counts_in F \<sigma> c r"
    and "c = fl_home F p \<longrightarrow> (\<forall>c'\<in>fl_clusters F - {c}. fs_answer \<sigma> p c' \<noteq> None)"
  shows "own_step F p \<sigma> (record_answer p c r \<sigma>)"
proof -
  obtain svc xs where "cluster_reader (ps_reader svc) (fs_pods \<sigma> c) xs"
    "GetPodCounts svc (fl_namespace F) (fl_selector F) = Ok (grs_desiredHealthy r, grs_healthy r)"
    using assms(4) by (auto simp: counts_in_def)
  from timely_step.count [OF assms(1-3,5) this] show ?thesis by (cases r) (simp add: own_stepI record_answer_def)
qed

lemma fleet_counts:
  assumes "distinct cs" "set cs \<subseteq> fl_clusters F - {fl_home F p}" "fs_stage \<sigma> p = Counting"
    and "\<forall>c\<in>set cs. fs_answer \<sigma> p c = None \<and> counts_in F \<sigma> c (A c)"
  shows "(own_step F p)\<^sup>*\<^sup>* \<sigma> (record_answers p cs A \<sigma>)"
  using assms
proof (induction cs arbitrary: \<sigma>)
  case (Cons c cs)
  have "own_step F p \<sigma> (record_answer p c (A c) \<sigma>)" using Cons.prems by (intro fleet_count) auto
  moreover have "(own_step F p)\<^sup>*\<^sup>* (record_answer p c (A c) \<sigma>) (record_answers p cs A (record_answer p c (A c) \<sigma>))"
    using Cons.prems by (intro Cons.IH) (auto simp: record_answer_def counts_in_def)
  ultimately show ?case by (simp add: converse_rtranclp_into_rtranclp)
qed simp


text \<open>
  The whole request: what \<^verbatim>\<open>Lock\<close> and \<^verbatim>\<open>CanPodBeDisrupted\<close> do when nobody interferes. The clusters are locked
  by their own lock services, on the leases they have; \<open>clk\<close> are the readings of the clock.
\<close>

definition locks_all ::
    "'s fleet \<Rightarrow> (string \<Rightarrow> int \<times> int \<times> int) \<Rightarrow> string \<Rightarrow> 's fleet_state \<Rightarrow> (string \<Rightarrow> 's) \<Rightarrow> bool" where
  "locks_all F clk p \<sigma> S \<longleftrightarrow>
     (\<forall>c\<in>fl_clusters F. pr_pc (fs_lock \<sigma> c) p = Idle \<and>
        (case clk c of (n0, n1, n2) \<Rightarrow> reads (fl_skew F) (fs_lock \<sigma> c) n0 \<and>
           reads (fl_skew F) (fs_lock \<sigma> c) n1 \<and> reads (fl_skew F) (fs_lock \<sigma> c) n2) \<and>
        LocalLock (fl_client F c) (fl_lock F c) (clk c) p (fl_namespace F) (fl_selector F) (pr_store (fs_lock \<sigma> c)) =
          (Ok (), S c))"

definition held ::
    "'s fleet \<Rightarrow> (string \<Rightarrow> 's \<Rightarrow> object_key \<Rightarrow> lease option) \<Rightarrow> string \<Rightarrow> 's fleet_state \<Rightarrow> (string \<Rightarrow> 's) \<Rightarrow> string \<Rightarrow> 's protocol" where
  "held F stored p \<sigma> S c =
     (if c \<in> fl_clusters F
      then goto p (after_lock (stored c) (lock_key (fl_lock F c) (fl_namespace F) (fl_selector F)) (Ok ()) (S c)) (S c) (fs_lock \<sigma> c)
      else fs_lock \<sigma> c)"

lemma held_call:
  assumes "lease_store (fl_client F c) (stored c) (valid c)" "valid c (pr_store (fs_lock \<sigma> c))"
    and "locks_all F clk p \<sigma> S" "c \<in> fl_clusters F"
  shows "(call_step (fl_client F c) (fl_lock F c) (fl_namespace F) (fl_selector F) (fl_skew F) p)\<^sup>*\<^sup>*
      (fs_lock \<sigma> c) (held F stored p \<sigma> S c)" (is ?run)
    and "\<exists>d. pr_pc (held F stored p \<sigma> S c) p = Holding d" (is ?holds)
proof -
  obtain n0 n1 n2 where clk: "clk c = (n0, n1, n2)" by (metis surj_pair)
  have call: "LocalLock (fl_client F c) (fl_lock F c) (n0, n1, n2) p (fl_namespace F) (fl_selector F)
      (pr_store (fs_lock \<sigma> c)) = (Ok (), S c)"
    and "pr_pc (fs_lock \<sigma> c) p = Idle" "reads (fl_skew F) (fs_lock \<sigma> c) n0" "reads (fl_skew F) (fs_lock \<sigma> c) n1"
      "reads (fl_skew F) (fs_lock \<sigma> c) n2"
    using assms(3,4) clk by (auto simp: locks_all_def)
  then show ?run
    using lease_store.LocalLock_call [OF assms(1) call assms(2)] assms(4) by (simp add: held_def)
  obtain l where "stored c (S c) (lock_key (fl_lock F c) (fl_namespace F) (fl_selector F)) = Some l"
    using lease_store.LocalLock_acquired [OF assms(1) call assms(2)] .
  then show ?holds using assms(4) by (simp add: held_def after_lock_def)
qed

text \<open>The first half: the request locks every cluster, its own first, and \<^verbatim>\<open>Lock\<close> returns.\<close>

lemma fleet_takes:
  assumes "\<forall>c\<in>fl_clusters F. lease_store (fl_client F c) (stored c) (valid c) \<and> valid c (pr_store (fs_lock \<sigma> c))"
    and "locks_all F clk p \<sigma> S" "fs_stage \<sigma> p = Taking" "fl_home F p \<in> fl_clusters F"
    and "distinct order" "set order = fl_clusters F - {fl_home F p}"
  shows "(own_step F p)\<^sup>*\<^sup>* \<sigma> (\<sigma>\<lparr>fs_lock := held F stored p \<sigma> S\<rparr>)"
    and "\<forall>c\<in>fl_clusters F. \<exists>d. pr_pc (held F stored p \<sigma> S c) p = Holding d"
proof -
  let ?h = "fl_home F p" and ?G = "held F stored p \<sigma> S"
  let ?\<sigma>1 = "\<sigma>\<lparr>fs_lock := (fs_lock \<sigma>)(?h := ?G ?h)\<rparr>"
  have run: "(call_step (fl_client F c) (fl_lock F c) (fl_namespace F) (fl_selector F) (fl_skew F) p)\<^sup>*\<^sup>* (fs_lock \<sigma> c) (?G c)"
    and holds: "\<exists>d. pr_pc (?G c) p = Holding d" if "c \<in> fl_clusters F" for c
    using held_call [where stored = stored and valid = valid] assms(1,2) that by blast+
  then show "\<forall>c\<in>fl_clusters F. \<exists>d. pr_pc (?G c) p = Holding d" by blast
  have first: "(own_step F p)\<^sup>*\<^sup>* \<sigma> ?\<sigma>1" using run assms(3,4) by (intro fleet_call) auto
  have "(own_step F p)\<^sup>*\<^sup>* ?\<sigma>1 (?\<sigma>1\<lparr>fs_lock := (\<lambda>c. if c \<in> set order then ?G c else fs_lock ?\<sigma>1 c)\<rparr>)"
    using run assms(3-6) holds by (intro fleet_calls [where p = p]) (auto simp: holding_in_def)
  moreover have "(\<lambda>c. if c \<in> set order then ?G c else fs_lock ?\<sigma>1 c) = ?G"
    using assms(4,6) by (auto simp: fun_eq_iff held_def)
  ultimately have "(own_step F p)\<^sup>*\<^sup>* ?\<sigma>1 (\<sigma>\<lparr>fs_lock := ?G\<rparr>)" by simp
  with first show "(own_step F p)\<^sup>*\<^sup>* \<sigma> (\<sigma>\<lparr>fs_lock := ?G\<rparr>)" by (rule rtranclp_trans)
qed

lemma fleet_locks:
  assumes "\<forall>c\<in>fl_clusters F. lease_store (fl_client F c) (stored c) (valid c) \<and> valid c (pr_store (fs_lock \<sigma> c))"
    and "locks_all F clk p \<sigma> S" "fs_stage \<sigma> p = Taking" "fl_home F p \<in> fl_clusters F"
    and "distinct order" "set order = fl_clusters F - {fl_home F p}"
  shows "(own_step F p)\<^sup>*\<^sup>* \<sigma> (set_stage p Counting (\<sigma>\<lparr>fs_lock := held F stored p \<sigma> S\<rparr>))"
proof (rule rtranclp.rtrancl_into_rtrancl [OF fleet_takes(1) [OF assms]])
  show "own_step F p (\<sigma>\<lparr>fs_lock := held F stored p \<sigma> S\<rparr>) (set_stage p Counting (\<sigma>\<lparr>fs_lock := held F stored p \<sigma> S\<rparr>))"
    using fleet_takes(2) [OF assms] assms(3) by (intro own_stage timely_step.locked) (auto simp: holding_in_def)
qed

text \<open>The second half: every cluster is counted, the own one last, and the verdict is passed.\<close>

lemma fleet_answers:
  assumes "fs_stage \<sigma> p = Counting" "fl_home F p \<in> fl_clusters F" "fs_answer \<sigma> p = Map.empty"
    and "distinct order" "set order = fl_clusters F - {fl_home F p}" "\<forall>c\<in>fl_clusters F. counts_in F \<sigma> c (A c)"
  shows "(own_step F p)\<^sup>*\<^sup>* \<sigma> (record_answers p (order @ [fl_home F p]) A \<sigma>)"
proof (rule rtranclp.rtrancl_into_rtrancl)
  let ?h = "fl_home F p" and ?\<sigma>1 = "record_answers p order A \<sigma>"
  show "(own_step F p)\<^sup>*\<^sup>* \<sigma> ?\<sigma>1" using assms by (intro fleet_counts) auto
  have "own_step F p ?\<sigma>1 (record_answer p ?h (A ?h) ?\<sigma>1)"
    using assms by (intro fleet_count) (auto simp: record_answers_fields counts_in_def)
  then show "own_step F p ?\<sigma>1 (record_answers p (order @ [?h]) A \<sigma>)" by (simp add: record_answers_def)
qed

lemma fleet_verdict_step:
  assumes "fs_stage \<sigma> p = Counting" "distinct order" "set order = fl_clusters F - {fl_home F p}"
    and "\<forall>c\<in>set (order @ [fl_home F p]). fs_answer \<sigma> p c = Some (A c)"
  shows "own_step F p \<sigma> (set_stage p
      (if fleet_verdict F p (map A order) (A (fl_home F p)) = Inr True then Passed else Refused) \<sigma>)"
  using assms by (intro own_stage timely_step.decide [where order = order]) auto

lemma fleet_decides:
  assumes "fs_stage \<sigma> p = Counting" "fl_home F p \<in> fl_clusters F" "fs_answer \<sigma> p = Map.empty"
    and "distinct order" "set order = fl_clusters F - {fl_home F p}" "\<forall>c\<in>fl_clusters F. counts_in F \<sigma> c (A c)"
  shows "(own_step F p)\<^sup>*\<^sup>* \<sigma> (set_stage p
      (if fleet_verdict F p (map A order) (A (fl_home F p)) = Inr True then Passed else Refused)
      (record_answers p (order @ [fl_home F p]) A \<sigma>))"
proof (rule rtranclp.rtrancl_into_rtrancl [OF fleet_answers [OF assms]])
  show "own_step F p (record_answers p (order @ [fl_home F p]) A \<sigma>) (set_stage p
      (if fleet_verdict F p (map A order) (A (fl_home F p)) = Inr True then Passed else Refused)
      (record_answers p (order @ [fl_home F p]) A \<sigma>))"
    using assms(1,4,5) by (intro fleet_verdict_step) (auto simp: record_answers_fields)
qed

lemma record_answer_stage: "record_answer p c r (set_stage q s \<sigma>) = set_stage q s (record_answer p c r \<sigma>)"
  by (simp add: record_answer_def set_stage_def)

lemma record_answers_stage: "record_answers p cs A (set_stage q s \<sigma>) = set_stage q s (record_answers p cs A \<sigma>)"
  by (induction cs arbitrary: \<sigma>) (simp_all add: record_answer_stage)

text \<open>The state after an undisturbed request.\<close>

definition decided ::
    "'s fleet \<Rightarrow> (string \<Rightarrow> 's \<Rightarrow> object_key \<Rightarrow> lease option) \<Rightarrow> string \<Rightarrow> string list \<Rightarrow> (string \<Rightarrow> 's)
     \<Rightarrow> (string \<Rightarrow> get_state_response) \<Rightarrow> 's fleet_state \<Rightarrow> 's fleet_state" where
  "decided F stored p order S A \<sigma> =
     set_stage p (if fleet_verdict F p (map A order) (A (fl_home F p)) = Inr True then Passed else Refused)
       (record_answers p (order @ [fl_home F p]) A (\<sigma>\<lparr>fs_lock := held F stored p \<sigma> S\<rparr>))"

definition undisturbed ::
    "'s fleet \<Rightarrow> (string \<Rightarrow> 's \<Rightarrow> object_key \<Rightarrow> lease option) \<Rightarrow> (string \<Rightarrow> 's \<Rightarrow> bool) \<Rightarrow> (string \<Rightarrow> int \<times> int \<times> int)
     \<Rightarrow> string \<Rightarrow> string list \<Rightarrow> (string \<Rightarrow> 's) \<Rightarrow> (string \<Rightarrow> get_state_response) \<Rightarrow> 's fleet_state \<Rightarrow> bool" where
  "undisturbed F stored valid clk p order S A \<sigma> \<longleftrightarrow>
     (\<forall>c\<in>fl_clusters F. lease_store (fl_client F c) (stored c) (valid c) \<and> valid c (pr_store (fs_lock \<sigma> c))) \<and>
     xpdb_namespace (fl_xpdb F p) = fl_namespace F \<and> spec_selector (xpdb_spec (fl_xpdb F p)) = fl_selector F \<and>
     fl_home F p \<in> fl_clusters F \<and> distinct order \<and> set order = fl_clusters F - {fl_home F p} \<and>
     fs_stage \<sigma> p = Fresh \<and> fs_answer \<sigma> p = Map.empty \<and>
     locks_all F clk p \<sigma> S \<and> (\<forall>c\<in>fl_clusters F. counts_in F \<sigma> c (A c))"

lemma undisturbed_run:
  assumes "undisturbed F stored valid clk p order S A \<sigma>"
  shows "(own_step F p)\<^sup>*\<^sup>* \<sigma> (decided F stored p order S A \<sigma>)"
proof -
  let ?\<sigma>1 = "set_stage p Taking \<sigma>" and ?\<sigma>2 = "set_stage p Counting (\<sigma>\<lparr>fs_lock := held F stored p \<sigma> S\<rparr>)"
  have "own_step F p \<sigma> ?\<sigma>1" using assms by (intro own_stage timely_step.request) (auto simp: undisturbed_def)
  moreover have "(own_step F p)\<^sup>*\<^sup>* ?\<sigma>1 (set_stage p Counting (?\<sigma>1\<lparr>fs_lock := held F stored p ?\<sigma>1 S\<rparr>))"
    using assms by (intro fleet_locks) (auto simp: undisturbed_def locks_all_def)
  moreover have "held F stored p ?\<sigma>1 S = held F stored p \<sigma> S" by (simp add: held_def fun_eq_iff)
  ultimately have first: "(own_step F p)\<^sup>*\<^sup>* \<sigma> ?\<sigma>2" by (simp add: converse_rtranclp_into_rtranclp)
  have "(own_step F p)\<^sup>*\<^sup>* ?\<sigma>2 (decided F stored p order S A \<sigma>)"
    using fleet_decides [of ?\<sigma>2 p F order A] assms
    by (simp add: undisturbed_def counts_in_def decided_def record_answers_stage)
  with first show ?thesis by (rule rtranclp_trans)
qed

section \<open>Two clusters\<close>

text \<open>
  Two clusters with revision-counter servers and the pods of the sample installation, one unavailable pod
  allowed. The requests \<^verbatim>\<open>r\<close> and \<^verbatim>\<open>q\<close> are for the pods \<^verbatim>\<open>db-0\<close> and \<^verbatim>\<open>db-1\<close> of the first cluster.
\<close>

definition demo_fleet :: "rev_store fleet" where
  "demo_fleet =
     \<lparr>fl_clusters = {''a'', ''b''}, fl_client = (\<lambda>c. rev_client), fl_lock = (\<lambda>c. sample_lock []),
      fl_skew = 1000000, fl_namespace = ''shop'', fl_selector = sample_selector, fl_home = (\<lambda>p. ''a''),
      fl_pod = (\<lambda>p. sample_pod (if p = ''q'' then ''db-1'' else ''db-0'') ''True''), fl_xpdb = (\<lambda>p. sample_xpdb),
      fl_f2i = (\<lambda>q. 0)\<rparr>"

lemma demo_fleet_simps [simp]:
  "fl_clusters demo_fleet = {''a'', ''b''}" "fl_client demo_fleet c = rev_client" "fl_lock demo_fleet c = sample_lock []"
  "fl_skew demo_fleet = 1000000" "fl_namespace demo_fleet = ''shop''" "fl_selector demo_fleet = sample_selector"
  "fl_home demo_fleet p = ''a''" "fl_xpdb demo_fleet p = sample_xpdb" "fl_f2i demo_fleet = (\<lambda>q. 0)"
  "fl_pod demo_fleet p = sample_pod (if p = ''q'' then ''db-1'' else ''db-0'') ''True''"
  by (simp_all add: demo_fleet_def)

definition demo_pods :: "pod list" where
  "demo_pods = [sample_pod ''db-0'' ''True'', sample_pod ''db-1'' ''True'']"

definition demo_start :: "rev_store fleet_state" where
  "demo_start =
     \<lparr>fs_lock = (\<lambda>c. quiet), fs_pods = (\<lambda>c. demo_pods), fs_stage = (\<lambda>_. Fresh), fs_answer = (\<lambda>_. Map.empty),
      fs_lost = (\<lambda>c. 0), fs_base = (\<lambda>p c. 0)\<rparr>"

definition demo_answer :: get_state_response where
  "demo_answer = \<lparr>grs_desiredHealthy = 2, grs_healthy = 2\<rparr>"

abbreviation demo_decided :: "string \<Rightarrow> rev_store \<Rightarrow> rev_store fleet_state \<Rightarrow> rev_store fleet_state" where
  "demo_decided p s \<equiv> decided demo_fleet (\<lambda>c. fst) p [''b''] (\<lambda>c. s) (\<lambda>c. demo_answer)"

lemma demo_counts: "fs_pods \<sigma> c = demo_pods \<Longrightarrow> counts_in demo_fleet \<sigma> c demo_answer"
  unfolding counts_in_def
proof (intro exI conjI)
  assume "fs_pods \<sigma> c = demo_pods"
  then show "cluster_reader (ps_reader (sample_pdb [] ''True'')) (fs_pods \<sigma> c) [sample_xpdb]"
    by (simp add: sample_pdb_def sample_reader_def demo_pods_def fake_list.cluster_reader_axioms)
qed (simp add: sample_counts demo_answer_def)

lemma demo_verdict: "fleet_verdict demo_fleet p [demo_answer] demo_answer = Inr True"
proof -
  have "disruptionAllowed (\<lambda>q. 0) (Some sample_xpdb) (sample_pod ''db-1'' ''True'') 4 4 = Inr True" by code_simp
  then show ?thesis using sample_verdicts(1) [of "\<lambda>q. 0"]
    by (simp add: fleet_verdict_def add_counts_def demo_answer_def)
qed


lemma decided_fields [simp]:
  "fs_pods (decided F stored p order S A \<sigma>) = fs_pods \<sigma>" "fs_lost (decided F stored p order S A \<sigma>) = fs_lost \<sigma>"
  "fs_lock (decided F stored p order S A \<sigma>) = held F stored p \<sigma> S"
  "fs_answer (decided F stored p order S A \<sigma>) q =
     (if q = p then (\<lambda>c. if c \<in> set (order @ [fl_home F p]) then Some (A c) else fs_answer \<sigma> p c) else fs_answer \<sigma> q)"
  "fs_stage (decided F stored p order S A \<sigma>) = (fs_stage \<sigma>)
     (p := if fleet_verdict F p (map A order) (A (fl_home F p)) = Inr True then Passed else Refused)"
  by (simp_all add: decided_def record_answers_fields fun_eq_iff)

lemma demo_start_simps [simp]:
  "fs_lock demo_start c = quiet" "fs_pods demo_start c = demo_pods" "fs_stage demo_start p = Fresh"
  "fs_answer demo_start p = Map.empty" "fs_lost demo_start c = 0"
  by (simp_all add: demo_start_def)

lemma demo_xpdb_simps: "xpdb_namespace sample_xpdb = ''shop''" "spec_selector (xpdb_spec sample_xpdb) = sample_selector"
  by (simp_all add: sample_xpdb_def sample_spec_def)

definition demo_ready :: "string \<Rightarrow> int \<Rightarrow> rev_store \<Rightarrow> rev_store fleet_state \<Rightarrow> bool" where
  "demo_ready p n s \<sigma> \<longleftrightarrow>
     (\<forall>c\<in>{''a'', ''b''}. rev_wf (pr_store (fs_lock \<sigma> c)) \<and> pr_pc (fs_lock \<sigma> c) p = Idle \<and>
        reads 1000000 (fs_lock \<sigma> c) n \<and> fs_pods \<sigma> c = demo_pods \<and>
        LocalLock rev_client (sample_lock []) (n, n, n) p ''shop'' sample_selector (pr_store (fs_lock \<sigma> c)) = (Ok (), s)) \<and>
     fs_stage \<sigma> p = Fresh \<and> fs_answer \<sigma> p = Map.empty"

lemma demo_undisturbed:
  assumes "demo_ready p n s \<sigma>"
  shows "undisturbed demo_fleet (\<lambda>c. fst) (\<lambda>c. rev_wf) (\<lambda>c. (n, n, n)) p [''b''] (\<lambda>c. s) (\<lambda>c. demo_answer) \<sigma>"
  using assms demo_counts demo_xpdb_simps rev.lease_store_axioms
  by (auto simp: demo_ready_def undisturbed_def locks_all_def)

lemma demo_admits:
  assumes "demo_ready p n s \<sigma>"
  shows "(timely_step demo_fleet)\<^sup>*\<^sup>* \<sigma> (set_stage p Admitted (demo_decided p s \<sigma>))"
proof (rule rtranclp.rtrancl_into_rtrancl [OF own_steps [OF undisturbed_run [OF demo_undisturbed [OF assms]]]])
  show "timely_step demo_fleet (demo_decided p s \<sigma>) (set_stage p Admitted (demo_decided p s \<sigma>))"
    by (rule timely_step.probe) (simp_all add: demo_verdict)
qed

text \<open>The first request.\<close>

abbreviation demo_key :: object_key where
  "demo_key \<equiv> lock_key (sample_lock []) ''shop'' sample_selector"

definition demo_lease :: lease where
  "demo_lease = rev_lease (sample_lock []) ''shop'' sample_selector ''r'' 0 1"

definition demo_first :: "rev_store fleet_state" where
  "demo_first = set_stage ''r'' Admitted (demo_decided ''r'' ([demo_key \<mapsto> demo_lease], 1) demo_start)"

lemma demo_start_ready: "demo_ready ''r'' 0 ([demo_key \<mapsto> demo_lease], 1) demo_start"
  using rev_wf_quiet by (simp add: demo_ready_def quiet_def reads_def rev_lock_free demo_lease_def)

lemma demo_first_run: "(timely_step demo_fleet)\<^sup>*\<^sup>* demo_start demo_first"
  unfolding demo_first_def by (rule demo_admits [OF demo_start_ready])

lemma demo_first_simps [simp]:
  "c \<in> {''a'', ''b''} \<Longrightarrow> fs_lock demo_first c = goto ''r'' (Holding 5000000000) ([demo_key \<mapsto> demo_lease], 1) quiet"
  "fs_pods demo_first c = demo_pods" "fs_stage demo_first p = (if p = ''r'' then Admitted else Fresh)"
  "fs_answer demo_first p c = (if p = ''r'' \<and> c \<in> {''a'', ''b''} then Some demo_answer else None)" "fs_lost demo_first c = 0"
  by (auto simp: demo_first_def held_def after_lock_def lease_until_def demo_lease_def lease_deadline_def
      LeaseDurationSeconds_def micro_def)

lemma demo_start_reach: "fleet_reach demo_fleet (\<lambda>c. rev_wf) demo_start"
proof (rule fleet_reach.init)
  have "distinct (map pod_key demo_pods)" by (simp add: demo_pods_def pod_key_def sample_pod_def)
  then show "\<forall>c\<in>fl_clusters demo_fleet. rev_wf (pr_store (fs_lock demo_start c)) \<and>
      (\<forall>q. pr_pc (fs_lock demo_start c) q = Idle) \<and> distinct (map pod_key (fs_pods demo_start c))"
    using rev_wf_quiet by (simp add: quiet_def)
qed simp

lemma fleet_reach_steps:
  assumes "fleet_reach F valid \<sigma>" "(timely_step F)\<^sup>*\<^sup>* \<sigma> \<sigma>'" shows "fleet_reach F valid \<sigma>'"
  using assms(2,1) by (induction rule: rtranclp_induct) (auto intro: fleet_reach.step)

lemma demo_first_reach: "fleet_reach demo_fleet (\<lambda>c. rev_wf) demo_first"
  by (rule fleet_reach_steps [OF demo_start_reach demo_first_run])

interpretation demo: stored_fleet demo_fleet "\<lambda>c. fst" "\<lambda>c. rev_wf" "\<lambda>c. rev_used"
  by (rule stored_fleet.intro) (simp_all add: rev.fresh_store_axioms)

lemma demo_covered: "covered demo_fleet demo_first ''r''"
  by (simp add: covered_def sure_def quiet_def)

lemma demo_fits: "totals_fit demo_fleet demo_first ''r''"
  by (simp add: totals_fit_def counted_def demo_answer_def)

lemma sample_budget_sane: "sane_budget (xpdb_spec sample_xpdb)"
  by (simp add: sane_budget_def sane_value_def sample_xpdb_def sample_spec_def one_unavailable_def)


section \<open>Several budgets\<close>

text \<open>A pod that one budget alone selects is not counted for another budget of its cluster.\<close>

lemma single_budget:
  assumes "cluster_reader (ps_reader svc) ps xs" "GetXPdbsForPod svc p = Inr [y]" "x \<in> set xs" "x \<noteq> y"
    and "xpdb_namespace x \<noteq> []"
  shows "\<not> (in_namespace (xpdb_namespace x) (pod_namespace p) \<and> selects (spec_selector (xpdb_spec x)) (pod_labels p))"
proof
  assume sel: "in_namespace (xpdb_namespace x) (pod_namespace p) \<and> selects (spec_selector (xpdb_spec x)) (pod_labels p)"
  then have "in_namespace (pod_namespace p) (xpdb_namespace x)" using assms(5) by (auto simp: in_namespace_def)
  moreover have "mset [y] = mset (filter (\<lambda>x. in_namespace (pod_namespace p) (xpdb_namespace x) \<and>
      selects (spec_selector (xpdb_spec x)) (pod_labels p)) xs)"
    by (rule cluster_reader.xpdbs_selected [OF assms(1,2) refl])
  then have "set [y] = set (filter (\<lambda>x. in_namespace (pod_namespace p) (xpdb_namespace x) \<and>
      selects (spec_selector (xpdb_spec x)) (pod_labels p)) xs)"
    by (rule mset_eq_setD)
  ultimately show False using sel assms(3,4) by auto
qed

definition web_selector :: label_selector where
  "web_selector = \<lparr>match_labels = [(''app'', ''web'')], match_expressions = []\<rparr>"

definition web_xpdb :: xpdb where
  "web_xpdb = sample_xpdb\<lparr>xpdb_name := ''web'', xpdb_spec := sample_spec\<lparr>spec_selector := web_selector\<rparr>\<rparr>"

definition web_pod :: pod where
  "web_pod = (sample_pod ''web-0'' ''True'')\<lparr>pod_labels := [(''app'', ''web'')]\<rparr>"

definition two_budgets :: pdb_service where
  "two_budgets = \<lparr>ps_reader = fake_reader [sample_pod ''db-0'' ''True'', web_pod] [sample_xpdb, web_xpdb] sample_scale,
                  ps_remoteEndpoints = []\<rparr>"

section \<open>Properties\<close>

definition all_required :: xpdb where
  "all_required = sample_xpdb\<lparr>xpdb_spec := sample_spec\<lparr>spec_maxUnavailable := Some (one_unavailable\<lparr>is_int := 0\<rparr>)\<rparr>\<rparr>"

lemma live_pods_mark_counted:
  assumes "distinct (map pod_key ps)" "q \<in> set ps" "healthy_pod q"
    and "in_namespace ns (pod_namespace q) \<and> selects sel (pod_labels q)"
  shows "Suc (length (live_pods ns sel (mark_deleted (pod_key q) t ps))) = length (live_pods ns sel ps)"
  using assms
proof (induction ps)
  case (Cons p ps)
  show ?case
  proof (cases "p = q")
    case True
    with Cons.prems(1) have "mark_deleted (pod_key q) t ps = ps" by (auto intro: mark_deleted_absent)
    moreover have "\<not> healthy_pod (q\<lparr>pod_deletionTimestamp := Some t\<rparr>)" by (simp add: healthy_pod_def)
    ultimately show ?thesis using True Cons.prems(3,4) by simp
  next
    case False
    with Cons.prems have "pod_key p \<noteq> pod_key q" by force
    with False Cons show ?thesis by auto
  qed
qed simp

text \<open>The healthy pods of the other clusters of a budget service.\<close>

definition healthy_elsewhere :: "'s mesh \<Rightarrow> pdb_service \<Rightarrow> xpdb \<Rightarrow> int" where
  "healthy_elsewhere m svc x = (\<Sum>e\<in>set (ps_remoteEndpoints svc). snd (counts_of (cl_pdb (ms_cluster m e)) x))"

text \<open>
  C30. The readiness of the candidate comes from the request (for an eviction, from the cached client),
  and it is read before the lock is taken; the counts come from the API server afterwards. When the candidate
  has become healthy in between, it is counted as healthy and compensated for as not ready. Then the decision over all
  clusters is positive exactly when the pods that are left after the disruption are at least one less than the budget
  requires. In particular, when exactly as many pods are healthy as the budget requires, the disruption is admitted and
  leaves one too few.
\<close>

theorem stale_candidate_breaks_budget:
  assumes "CanPodBeDisrupted f2i (mesh_env m) svc order p x (pl, w) = (Ok b, (pl', w'))"
    and "honest_pool pl" "distinct order" "set order = set (ps_remoteEndpoints svc)"
    and "sane_budget (xpdb_spec x)" "counts_fit m svc x"
    and "cluster_reader (ps_reader svc) pods xs" "length pods < 2 ^ 31" "distinct (map pod_key pods)"
    and "q \<in> set pods" "pod_key q = pod_key p" "healthy_pod q" "\<not> IsPodReady p"
    and "in_namespace (xpdb_namespace x) (pod_namespace q)" "selects (spec_selector (xpdb_spec x)) (pod_labels q)"
    and "left = int (length (live_pods (xpdb_namespace x) (spec_selector (xpdb_spec x)) (mark_deleted (pod_key p) t pods))) +
      healthy_elsewhere m svc x"
  shows "(b \<longleftrightarrow> required_healthy (xpdb_spec x) (total_expected m svc x) - 1 \<le> left) \<and>
    (total_healthy m svc x = required_healthy (xpdb_spec x) (total_expected m svc x) \<longrightarrow>
       b \<and> left = required_healthy (xpdb_spec x) (total_expected m svc x) - 1)"
proof -
  let ?ns = "xpdb_namespace x" and ?sel = "spec_selector (xpdb_spec x)"
  note mesh = CanPodBeDisrupted_mesh [OF assms(1-4)]
  obtain e h where c: "GetPodCounts svc ?ns ?sel = Ok (e, h)" using mesh(1) by (auto simp: all_counted_def)
  then have "sint h = int (length (live_pods ?ns ?sel pods))"
    using cluster_reader.counts_exact(1) [OF assms(7) c refl assms(8)] by (simp add: live_pods_def)
  also have "\<dots> = int (length (live_pods ?ns ?sel (mark_deleted (pod_key p) t pods))) + 1"
    using live_pods_mark_counted [OF assms(9,10,12), of ?ns ?sel t] assms(11,14,15) by simp
  finally have "total_healthy m svc x = left + 1"
    using c assms(16) by (simp add: total_healthy_def counts_of_def healthy_elsewhere_def)
  then show ?thesis using mesh(2) [OF assms(5,6)] assms(13) by auto
qed

theorem stale_candidate_breaks_budget_witness:
  "CanPodBeDisrupted (\<lambda>q. 0) (mesh_env (sample_mesh ''True'')) (sample_pdb [] ''True'') [] (sample_pod ''db-0'' ''False'')
     all_required (NewClientPool ''/certs'', \<lambda>e. Map.empty) = (Ok True, (NewClientPool ''/certs'', \<lambda>e. Map.empty)) \<and>
   required_healthy (xpdb_spec all_required) 2 = 2 \<and>
   int (length (live_pods ''shop'' sample_selector (mark_deleted (''shop'', ''db-0'') 7 demo_pods))) = 1"
proof -
  let ?svc = "sample_pdb [] ''True''" and ?st = "(NewClientPool ''/certs'', \<lambda>e. Map.empty)" and ?p = "sample_pod ''db-0'' ''False''"
  have x: "xpdb_namespace all_required = ''shop''" "spec_selector (xpdb_spec all_required) = sample_selector"
    by (simp_all add: all_required_def sample_xpdb_def sample_spec_def)
  have "disruptionAllowed (\<lambda>q. 0) (Some all_required) ?p 2 2 = Inr True" by code_simp
  then have can: "CanPodBeDisrupted (\<lambda>q. 0) (mesh_env (sample_mesh ''True'')) ?svc [] ?p all_required ?st = (Ok True, ?st)"
    by (simp add: CanPodBeDisrupted_def x sample_counts)
  have req: "required_healthy (xpdb_spec all_required) 2 = 2"
    by (simp add: required_healthy_def share_of_def percent_of_def all_required_def sample_spec_def one_unavailable_def)
  have counts: "counts_of ?svc all_required = (2, 2)" by (simp add: counts_of_def x sample_counts)
  then have totals: "total_expected (sample_mesh ''True'') ?svc all_required = 2" "total_healthy (sample_mesh ''True'') ?svc all_required = 2"
      "counts_fit (sample_mesh ''True'') ?svc all_required"
    by (simp_all add: total_expected_def total_healthy_def counts_fit_def)
  have reader: "cluster_reader (ps_reader ?svc) demo_pods [sample_xpdb]"
    by (simp add: sample_pdb_def sample_reader_def demo_pods_def fake_list.cluster_reader_axioms)
  have pods: "distinct (map pod_key demo_pods)" "sample_pod ''db-0'' ''True'' \<in> set demo_pods" "length demo_pods < 2 ^ 31"
      "pod_key (sample_pod ''db-0'' ''True'') = pod_key ?p" "pod_key ?p = (''shop'', ''db-0'')"
    by (simp_all add: demo_pods_def pod_key_def sample_pod_def)
  have ready: "healthy_pod (sample_pod ''db-0'' ''True'')" "\<not> IsPodReady ?p" by code_simp+
  have sel: "in_namespace ''shop'' (pod_namespace (sample_pod ''db-0'' ''True''))" "selects sample_selector (pod_labels (sample_pod ''db-0'' ''True''))"
    by (simp_all add: in_namespace_def selects_def sample_selector_def sample_pod_def)
  have sane: "sane_budget (xpdb_spec all_required)"
    by (simp add: sane_budget_def sane_value_def all_required_def sample_spec_def one_unavailable_def)
  have "healthy_elsewhere (sample_mesh ''True'') ?svc all_required = 0" by (simp add: healthy_elsewhere_def)
  then show ?thesis
    using stale_candidate_breaks_budget [where t = 7, OF can honest_pool_new _ _ sane totals(3) reader pods(3,1,2,4) ready, unfolded x, OF _ _ sel refl]
      can req totals pods(5) by simp
qed

text \<open>
  C34. Budgets do not eat into each other: the webhook decides about a pod only under a budget that is the only
  one to select it, so a disruption under another budget of the cluster takes no pod that this budget counts.
  In the fleet of this budget it is a change without a loss.
\<close>

theorem other_budgets_cost_nothing:
  assumes "cluster_reader (ps_reader svc) (fs_pods \<sigma> c) xs" "GetXPdbsForPod svc p = Inr [y]"
    and "x \<in> set xs" "x \<noteq> y" "xpdb_namespace x = fl_namespace F" "fl_namespace F \<noteq> []"
    and "spec_selector (xpdb_spec x) = fl_selector F" "p \<in> set (fs_pods \<sigma> c)" "distinct (map pod_key (fs_pods \<sigma> c))"
  shows "live F (drift F c (mark_deleted (pod_key p) t (fs_pods \<sigma> c)) \<sigma>) = live F \<sigma> \<and>
    fs_lost (drift F c (mark_deleted (pod_key p) t (fs_pods \<sigma> c)) \<sigma>) = fs_lost \<sigma>"
proof -
  have "length (live_pods (fl_namespace F) (fl_selector F) (mark_deleted (pod_key p) t (fs_pods \<sigma> c))) =
      length (live_pods (fl_namespace F) (fl_selector F) (fs_pods \<sigma> c))"
    using single_budget [OF assms(1-4)] assms(5-9) by (intro live_pods_mark_other) auto
  then show ?thesis by (auto simp: drift_def live_def fun_eq_iff)
qed

theorem other_budgets_cost_nothing_witness:
  "fs_lost (drift demo_fleet ''a'' (mark_deleted (pod_key web_pod) 7 [sample_pod ''db-0'' ''True'', web_pod])
      (demo_start\<lparr>fs_pods := (\<lambda>c. [sample_pod ''db-0'' ''True'', web_pod])\<rparr>)) =
   fs_lost (demo_start\<lparr>fs_pods := (\<lambda>c. [sample_pod ''db-0'' ''True'', web_pod])\<rparr>)"
proof -
  let ?\<sigma> = "demo_start\<lparr>fs_pods := (\<lambda>c. [sample_pod ''db-0'' ''True'', web_pod])\<rparr>"
  have reader: "cluster_reader (ps_reader two_budgets) (fs_pods ?\<sigma> ''a'') [sample_xpdb, web_xpdb]"
    by (simp add: two_budgets_def fake_list.cluster_reader_axioms)
  have one: "GetXPdbsForPod two_budgets web_pod = Inr [web_xpdb]" by code_simp
  have ne: "sample_xpdb \<noteq> web_xpdb" by (simp add: web_xpdb_def sample_xpdb_def)
  have keys: "distinct (map pod_key (fs_pods ?\<sigma> ''a''))" by (simp add: pod_key_def web_pod_def sample_pod_def)
  show ?thesis
    using other_budgets_cost_nothing [where F = demo_fleet and t = 7, OF reader one _ ne _ _ _ _ keys]
    by (simp add: demo_xpdb_simps)
qed

end
