(* ===== verification/Lock_Progress.thy ===== *)
theory Lock_Progress
  imports Lock_Protocol
begin

text \<open>
  Progress of the lock. Nothing in the protocol waits for a holder: whatever the holders have done, a
  request finds the lock free or run out at the latest one lease duration later. The invariant \<open>leases_fit\<close>
  bounds the end of every stored lease by the time; with an API server that answers (the contract
  \<open>live_store\<close>) the next call then takes the lock.
\<close>

locale live_store = fresh_store c stored wf used + served_store c stored wf
  for c :: "'s lease_client" and stored wf used

interpretation rev_live: live_store rev_client fst rev_wf rev_used
  by unfold_locales
    (auto simp: rev_create_def rev_get_def rev_update_def rev_delete_def split: option.splits)

section \<open>The leases fit the time\<close>

definition duration_ns :: int where
  "duration_ns = 5000000000"

lemma deadline_ns: "lease_deadline t LeaseDurationSeconds = t + duration_ns"
  by (simp add: lease_deadline_def LeaseDurationSeconds_def duration_ns_def)

definition leases_fit :: "('s \<Rightarrow> object_key \<Rightarrow> lease option) \<Rightarrow> object_key \<Rightarrow> int \<Rightarrow> 's protocol \<Rightarrow> bool" where
  "leases_fit stored k \<epsilon> g \<longleftrightarrow>
     (\<forall>l. stored (pr_store g) k = Some l \<longrightarrow>
        complete_lease l \<and> lease_durationSeconds l = Some LeaseDurationSeconds \<and>
        lease_until l \<le> pr_now g + \<epsilon> + duration_ns) \<and>
     (\<forall>p x. read_lease (pr_pc g p) = Some x \<longrightarrow> lease_durationSeconds x = Some LeaseDurationSeconds) \<and>
     (\<forall>p n. pr_pc g p = Creating n \<longrightarrow> n \<le> pr_now g + \<epsilon>) \<and>
     (\<forall>p x n. pr_pc g p = Updating x n \<longrightarrow> n \<le> pr_now g + \<epsilon>)"

lemma fit_move:
  assumes "leases_fit stored k \<epsilon> g"
    and "\<And>y. stored s' k = Some y \<Longrightarrow> stored (pr_store g) k = Some y \<or>
      complete_lease y \<and> lease_durationSeconds y = Some LeaseDurationSeconds \<and> lease_until y \<le> pr_now g + \<epsilon> + duration_ns"
    and "\<And>x. read_lease m = Some x \<Longrightarrow> lease_durationSeconds x = Some LeaseDurationSeconds"
    and "\<And>n. m = Creating n \<Longrightarrow> n \<le> pr_now g + \<epsilon>" "\<And>x n. m = Updating x n \<Longrightarrow> n \<le> pr_now g + \<epsilon>"
  shows "leases_fit stored k \<epsilon> (goto p m s' g)"
  unfolding leases_fit_def goto_simps
proof (intro conjI allI impI)
  note fit = assms(1) [unfolded leases_fit_def]
  show "complete_lease l" if "stored s' k = Some l" for l using assms(2) [OF that] fit by blast
  show "lease_durationSeconds l = Some LeaseDurationSeconds" if "stored s' k = Some l" for l
    using assms(2) [OF that] fit by blast
  show "lease_until l \<le> pr_now g + \<epsilon> + duration_ns" if "stored s' k = Some l" for l
    using assms(2) [OF that] fit by blast
  show "lease_durationSeconds x = Some LeaseDurationSeconds" if "read_lease (((pr_pc g)(p := m)) q) = Some x" for q x
    using assms(3) fit that by (auto split: if_splits)
  show "n \<le> pr_now g + \<epsilon>" if "((pr_pc g)(p := m)) q = Creating n" for q n
    using assms(4) fit that by (auto split: if_splits)
  show "n \<le> pr_now g + \<epsilon>" if "((pr_pc g)(p := m)) q = Updating x n" for q x n
    using assms(5) fit that by (metis fun_upd_apply)
qed

lemma fit_tick:
  assumes "leases_fit stored k \<epsilon> g" "0 \<le> t"
  shows "leases_fit stored k \<epsilon> (g\<lparr>pr_now := pr_now g + t\<rparr>)"
  using assms unfolding leases_fit_def by (force intro: order_trans)

context fresh_store
begin

lemma create_effect:
  assumes "wf s" "lc_create c l s = (oe, s')" "stored s' k = Some y" "ObjectKeyFromObject l = k"
  shows "stored s k = Some y \<or> (\<exists>rv. y = written l rv)"
proof (cases oe)
  case None
  then show ?thesis using create_ok [OF assms(1), of l s'] assms(2-4) by auto
next
  case (Some e)
  then show ?thesis using create_failed [OF assms(1), of l e s'] assms(2-4) by auto
qed

lemma fit_create:
  assumes fit: "leases_fit stored (lock_key svc ns sel) \<epsilon> g" and wf: "wf (pr_store g)" and pc: "pr_pc g p = Creating n0"
    and cr: "lc_create c (createLeaseForSelector (ls_leaseNamespace svc) p ns sel n0) (pr_store g) = (oe, s')"
    and m: "read_lease m = None" "\<And>n. m \<noteq> Creating n"
  shows "leases_fit stored (lock_key svc ns sel) \<epsilon> (goto p m s' g)"
proof (rule fit_move [OF fit])
  fix y
  assume y: "stored s' (lock_key svc ns sel) = Some y"
  have "n0 \<le> pr_now g + \<epsilon>" using fit pc by (simp add: leases_fit_def)
  then have "complete_lease y \<and> lease_durationSeconds y = Some LeaseDurationSeconds \<and>
      lease_until y \<le> pr_now g + \<epsilon> + duration_ns"
    if "y = written (createLeaseForSelector (ls_leaseNamespace svc) p ns sel n0) rv" for rv
    using that micro_le [of n0] by (simp add: complete_lease_def lease_until_def deadline_ns)
  then show "stored (pr_store g) (lock_key svc ns sel) = Some y \<or> complete_lease y \<and>
      lease_durationSeconds y = Some LeaseDurationSeconds \<and> lease_until y \<le> pr_now g + \<epsilon> + duration_ns"
    using create_effect [OF wf cr y] by auto
qed (use m in \<open>auto simp: read_lease_def\<close>)

lemma fit_update:
  assumes fit: "leases_fit stored k \<epsilon> g" and inv: "lock_inv stored wf used k \<epsilon> g" and pc: "pr_pc g p = Updating l n2"
    and up: "lc_update c (with_holder p n2 l) (pr_store g) = (oe, s')"
    and m: "read_lease m = None" "\<And>n. m \<noteq> Creating n"
  shows "leases_fit stored k \<epsilon> (goto p m s' g)"
proof (rule fit_move [OF fit])
  fix y
  assume y: "stored s' k = Some y"
  have wf: "wf (pr_store g)" using inv by (simp add: lock_inv_def)
  have rd: "read_lease (pr_pc g p) = Some l" using pc by (simp add: read_lease_def)
  then have key: "ObjectKeyFromObject (with_holder p n2 l) = k"
    using inv unfolding lock_inv_def by (simp add: with_holder_def ObjectKeyFromObject_def)
  have dur: "lease_durationSeconds l = Some LeaseDurationSeconds" "n2 \<le> pr_now g + \<epsilon>"
    using fit rd pc unfolding leases_fit_def by blast+
  have "complete_lease y \<and> lease_durationSeconds y = Some LeaseDurationSeconds \<and>
      lease_until y \<le> pr_now g + \<epsilon> + duration_ns" if "y = written (with_holder p n2 l) rv" for rv
    using that micro_le [of n2] dur by (simp add: complete_lease_def lease_until_def deadline_ns with_holder_def)
  then show "stored (pr_store g) k = Some y \<or> complete_lease y \<and>
      lease_durationSeconds y = Some LeaseDurationSeconds \<and> lease_until y \<le> pr_now g + \<epsilon> + duration_ns"
    using update_effect [OF wf up] y unfolding key by (metis option.inject)
qed (use m in \<open>auto simp: read_lease_def\<close>)

lemma delete_effect:
  assumes "wf s" "lc_delete c k s = (oe, s')" "stored s' k = Some y"
  shows "stored s k = Some y"
  using delete_ok [OF assms(1), of k s'] delete_failed [OF assms(1), of k _ s'] assms(2,3) by (cases oe) auto

text \<open>A step that leaves the store alone and reads nothing new.\<close>

lemma fit_stay:
  assumes "leases_fit stored k \<epsilon> g" "read_lease m = None" "\<And>n. m \<noteq> Creating n"
  shows "leases_fit stored k \<epsilon> (goto p m (pr_store g) g)"
  using assms(2,3) by (intro fit_move [OF assms(1)]) (auto simp: read_lease_def)

lemma fit_step:
  assumes st: "lock_step c svc ns sel \<epsilon> g g'" and inv: "lock_inv stored wf used (lock_key svc ns sel) \<epsilon> g"
    and fit: "leases_fit stored (lock_key svc ns sel) \<epsilon> g"
  shows "leases_fit stored (lock_key svc ns sel) \<epsilon> g'"
proof -
  have wf: "wf (pr_store g)" using inv by (simp add: lock_inv_def)
  from st show ?thesis
  proof cases
    case (tick t)
    then show ?thesis using fit_tick [OF fit] by simp
  next
    case (start p n0)
    then show ?thesis by (auto intro!: fit_move [OF fit] simp: read_lease_def reads_def)
  next
    case (created p n0 s')
    then show ?thesis by (auto intro!: fit_create [OF fit wf] simp: read_lease_def)
  next
    case (exists p n0 e s')
    then show ?thesis by (auto intro!: fit_create [OF fit wf] simp: read_lease_def)
  next
    case (not_created p n0 e s')
    then show ?thesis by (auto intro!: fit_create [OF fit wf] simp: read_lease_def)
  next
    case (seen p l)
    have "stored (pr_store g) (lock_key svc ns sel) = Some l" using get_ok wf seen by blast
    then have "lease_durationSeconds l = Some LeaseDurationSeconds" using fit by (simp add: leases_fit_def)
    then show ?thesis using seen(1) by (auto intro!: fit_move [OF fit] simp: read_lease_def)
  next
    case (run_out p l d n1 n2)
    have "read_lease (pr_pc g p) = Some l" using run_out by (simp add: read_lease_def)
    then have "lease_durationSeconds l = Some LeaseDurationSeconds" using fit unfolding leases_fit_def by blast
    then show ?thesis using run_out by (auto intro!: fit_move [OF fit] simp: read_lease_def reads_def)
  next
    case (updated p l n2 d s')
    then show ?thesis by (auto intro!: fit_update [OF fit inv] simp: read_lease_def)
  next
    case (not_updated p l n2 e s')
    then show ?thesis by (auto intro!: fit_update [OF fit inv] simp: read_lease_def)
  next
    case (delete_in_time p d oe s')
    then show ?thesis using delete_effect [OF wf delete_in_time(4)] by (auto intro!: fit_move [OF fit] simp: read_lease_def)
  qed (auto intro!: fit_stay [OF fit] simp: read_lease_def)
qed

lemma fit_steps:
  assumes "(lock_step c svc ns sel \<epsilon>)\<^sup>*\<^sup>* g0 g" "lock_inv stored wf used (lock_key svc ns sel) \<epsilon> g0"
    and "leases_fit stored (lock_key svc ns sel) \<epsilon> g0"
  shows "lock_inv stored wf used (lock_key svc ns sel) \<epsilon> g \<and> leases_fit stored (lock_key svc ns sel) \<epsilon> g"
  using assms by (induction rule: rtranclp_induct) (use lock_step_preserves fit_step in blast)+

end

section \<open>The lock comes free\<close>

context live_store
begin

text \<open>At the end of the waiting time the call takes the lock, for a full lease duration.\<close>

lemma granted:
  assumes wf: "wf (pr_store g)" and fit: "leases_fit stored (lock_key svc ns sel) \<epsilon> g"
  defines "n \<equiv> pr_now g + (\<epsilon> + duration_ns)"
  obtains s' l where "LocalLock c svc (n, n, n) p ns sel (pr_store g) = (Ok (), s')"
    and "stored s' (lock_key svc ns sel) = Some l" "lease_until l = micro n + duration_ns"
proof -
  let ?k = "lock_key svc ns sel"
  obtain r s' where call: "LocalLock c svc (n, n, n) p ns sel (pr_store g) = (r, s')" by fastforce
  have leases: "complete_lease l \<and> lease_until l \<le> n" if "stored (pr_store g) ?k = Some l" for l
    using fit that by (simp add: leases_fit_def n_def)
  then have "r = Ok ()" using LocalLock_Ok_iff [OF wf call] by (simp add: live_lease_def) (meson not_less)
  then have ok: "LocalLock c svc (n, n, n) p ns sel (pr_store g) = (Ok (), s')" using call by simp
  obtain l where l: "stored s' ?k = Some l" "lease_acquireTime l = Some (micro n)"
      "lease_durationSeconds l = Some LeaseDurationSeconds"
  proof (rule LocalLock_acquired [OF ok wf])
    fix l
    assume "stored s' ?k = Some l"
      and "stored (pr_store g) ?k = None \<and> lease_acquireTime l = Some (micro n) \<and>
           lease_durationSeconds l = Some LeaseDurationSeconds \<or>
         (\<exists>old. stored (pr_store g) ?k = Some old \<and> \<not> live_lease old n \<and>
           lease_acquireTime l = Some (micro n) \<and>
           lease_durationSeconds l = lease_durationSeconds old \<and> lease_durationSeconds old \<noteq> None)"
    then show thesis using that [of l] fit by (auto simp: leases_fit_def)
  qed
  then show thesis using that [OF ok l(1)] by (simp add: lease_until_def deadline_ns)
qed

lemma progress:
  assumes inv: "lock_inv stored wf used (lock_key svc ns sel) \<epsilon> g"
    and fit: "leases_fit stored (lock_key svc ns sel) \<epsilon> g"
    and "pr_pc g p = Idle" "0 \<le> \<epsilon>" "\<epsilon> + 1000 < duration_ns"
  shows "\<exists>g' d. (lock_step c svc ns sel \<epsilon>)\<^sup>*\<^sup>* g g' \<and> protected_at \<epsilon> g' p d \<and> pr_now g' \<le> pr_now g + \<epsilon> + duration_ns"
proof -
  let ?n = "pr_now g + (\<epsilon> + duration_ns)"
  let ?g = "g\<lparr>pr_now := ?n\<rparr>"
  have tick: "lock_step c svc ns sel \<epsilon> g ?g"
    using lock_step.tick [of "\<epsilon> + duration_ns"] assms(4) by (simp add: duration_ns_def)
  have wf: "wf (pr_store g)" using inv by (simp add: lock_inv_def)
  have reads: "reads \<epsilon> ?g ?n" using assms(4) by (simp add: reads_def)
  obtain s' l where ok: "LocalLock c svc (?n, ?n, ?n) p ns sel (pr_store ?g) = (Ok (), s')"
    and l: "stored s' (lock_key svc ns sel) = Some l" "lease_until l = micro ?n + duration_ns"
    using granted [OF wf fit] by (metis protocol.select_convs(1) protocol.surjective protocol.update_convs(2))
  have sure: "sure \<epsilon> ?g (lease_until l)" using micro_gt [of ?n] assms(5) l(2) by (simp add: sure_def)
  have "(lock_step c svc ns sel \<epsilon>)\<^sup>*\<^sup>* ?g (goto p (Holding (lease_until l)) s' ?g)"
    using LocalLock_steps [OF ok _ _ reads reads reads] wf assms(3) l(1) by (simp add: after_lock_def)
  then have "(lock_step c svc ns sel \<epsilon>)\<^sup>*\<^sup>* g (goto p (Holding (lease_until l)) s' ?g)"
    using tick by (rule converse_rtranclp_into_rtranclp [rotated])
  moreover have "protected_at \<epsilon> (goto p (Holding (lease_until l)) s' ?g) p (lease_until l)"
    using sure by (simp add: protected_goto)
  moreover have "pr_now (goto p (Holding (lease_until l)) s' ?g) \<le> pr_now g + \<epsilon> + duration_ns" by simp
  ultimately show ?thesis by blast
qed

end


section \<open>Properties\<close>

text \<open>
  The lock always comes free again, in bounded time: whatever steps the requests have made so far
  (locks that were never given back, crashed holders, lost replies), a request that wants the lock can
  hold it within one lease duration and the clock skew, without anything being done by the other
  requests. The API server has to answer, and the skew has to be smaller than the lease duration.
\<close>

theorem lock_comes_free:
  assumes "live_store c stored valid used" "lock_reach c svc ns sel \<epsilon> valid g0"
    and "leases_fit stored (lock_key svc ns sel) \<epsilon> g0" "(lock_step c svc ns sel \<epsilon>)\<^sup>*\<^sup>* g0 g"
    and "pr_pc g p = Idle" "0 \<le> \<epsilon>" "\<epsilon> + 1000 < duration_ns"
  shows "\<exists>g' d. (lock_step c svc ns sel \<epsilon>)\<^sup>*\<^sup>* g g' \<and> protected_at \<epsilon> g' p d \<and> pr_now g' \<le> pr_now g + \<epsilon> + duration_ns"
proof -
  have fresh: "fresh_store c stored valid used" using assms(1) by (simp add: live_store_def)
  have "lock_inv stored valid used (lock_key svc ns sel) \<epsilon> g \<and> leases_fit stored (lock_key svc ns sel) \<epsilon> g"
    using fresh_store.fit_steps [OF fresh assms(4) fresh_store.lock_reach_inv [OF fresh assms(2)] assms(3)] .
  then show ?thesis using live_store.progress [OF assms(1)] assms(5-7) by blast
qed

theorem lock_comes_free_witness:
  "\<exists>g' d. (lock_step rev_client demo_lock ''shop'' demo_selector 1000000)\<^sup>*\<^sup>*
        (first_locked demo_lock ''shop'' demo_selector ''a'') g' \<and>
     protected_at 1000000 g' ''b'' d \<and> pr_now g' \<le> 5001000000"
proof -
  have "\<exists>g' d. (lock_step rev_client demo_lock ''shop'' demo_selector 1000000)\<^sup>*\<^sup>*
        (first_locked demo_lock ''shop'' demo_selector ''a'') g' \<and> protected_at 1000000 g' ''b'' d \<and>
      pr_now g' \<le> pr_now (first_locked demo_lock ''shop'' demo_selector ''a'') + 1000000 + duration_ns"
  proof (rule lock_comes_free [OF rev_live.live_store_axioms])
    show "lock_reach rev_client demo_lock ''shop'' demo_selector 1000000 rev_wf quiet"
      by (rule lock_reach.init) (simp_all add: rev_wf_quiet, simp add: quiet_def)
    show "leases_fit fst (lock_key demo_lock ''shop'' demo_selector) 1000000 quiet"
      by (simp add: leases_fit_def quiet_def read_lease_def)
    show "(lock_step rev_client demo_lock ''shop'' demo_selector 1000000)\<^sup>*\<^sup>* quiet
        (first_locked demo_lock ''shop'' demo_selector ''a'')"
      by (rule first_locked_steps) simp
  qed (simp_all add: first_locked_def quiet_def duration_ns_def)
  then show ?thesis by (simp add: first_locked_def quiet_def duration_ns_def)
qed

end
