(* ===== verification/Fleet_Progress.thy ===== *)
theory Fleet_Progress
  imports Fleet_Runs Lock_Progress
begin

text \<open>
  Progress of the fleet. Nothing waits for a request that does not come to an end: whatever the requests
  have done, a new one can lock every cluster and have its verdict one lease duration later, while it is
  still sure of all its locks.
\<close>

section \<open>What steps leave alone\<close>

lemma fleet_fresh_idle:
  assumes "fleet_reach F valid \<sigma>" "fs_stage \<sigma> p = Fresh" "c \<in> fl_clusters F"
  shows "pr_pc (fs_lock \<sigma> c) p = Idle"
  using assms
proof (induction rule: fleet_reach.induct)
  case (step \<sigma> \<sigma>')
  have fresh: "fs_stage \<sigma> p = Fresh"
    using step.hyps(2) step.prems(1)
    by (cases rule: timely_step.cases)
      (auto simp: set_stage_def record_answer_def drift_def disrupt_def split: if_splits)
  then have idle: "pr_pc (fs_lock \<sigma> c) p = Idle" using step.IH step.prems(2) by blast
  then have "\<not> may_move F \<sigma> c p l" for l using fresh by (simp add: may_move_def)
  then show ?case using stays_put [OF step.hyps(2), of c p] idle by simp
qed simp

lemma fleet_steps_lock:
  assumes "(timely_step F)\<^sup>*\<^sup>* \<sigma> \<sigma>'" "c \<in> fl_clusters F"
  shows "(lock_step (fl_client F c) (fl_lock F c) (fl_namespace F) (fl_selector F) (fl_skew F))\<^sup>*\<^sup>*
    (fs_lock \<sigma> c) (fs_lock \<sigma>' c)"
  using assms(1)
proof (induction rule: rtranclp_induct)
  case (step \<tau> \<tau>')
  then show ?case using fleet_step_lock [OF step.hyps(2) assms(2)] by (auto intro: rtranclp.rtrancl_into_rtrancl)
qed simp

text \<open>
  All clusters have API servers that answer, and the clocks differ by less than the lease duration. The
  leases last five seconds and fit the time.
\<close>

locale live_fleet = stored_fleet F stored valid used
  for F :: "'s fleet" and stored valid used +
  assumes cluster_live: "c \<in> fl_clusters F \<Longrightarrow> live_store (fl_client F c) (stored c) (valid c) (used c)"
    and skew: "0 \<le> fl_skew F" "fl_skew F + 1000 < duration_ns"

definition fleet_fit :: "'s fleet \<Rightarrow> (string \<Rightarrow> 's \<Rightarrow> object_key \<Rightarrow> lease option) \<Rightarrow> 's fleet_state \<Rightarrow> bool" where
  "fleet_fit F stored \<sigma> \<longleftrightarrow>
     (\<forall>c\<in>fl_clusters F.
        leases_fit (stored c) (lock_key (fl_lock F c) (fl_namespace F) (fl_selector F)) (fl_skew F) (fs_lock \<sigma> c))"

context stored_fleet
begin

lemma fleet_fit_steps:
  assumes "fleet_reach F valid \<sigma>" "fleet_fit F stored \<sigma>" "(timely_step F)\<^sup>*\<^sup>* \<sigma> \<sigma>'" "c \<in> fl_clusters F"
  shows "valid c (pr_store (fs_lock \<sigma>' c)) \<and>
    leases_fit (stored c) (lock_key (fl_lock F c) (fl_namespace F) (fl_selector F)) (fl_skew F) (fs_lock \<sigma>' c)"
  using fresh_store.fit_steps [OF cluster_store [OF assms(4)] fleet_steps_lock [OF assms(3,4)] lock_invariant [OF assms(1,4)]]
    assms(2,4) by (simp add: fleet_fit_def lock_inv_def)

end

section \<open>Every request is decided\<close>

definition wait :: "int \<Rightarrow> 's fleet_state \<Rightarrow> 's fleet_state" where
  "wait t \<sigma> = \<sigma>\<lparr>fs_lock := (\<lambda>c. (fs_lock \<sigma> c)\<lparr>pr_now := pr_now (fs_lock \<sigma> c) + t\<rparr>)\<rparr>"

lemma wait_simps [simp]:
  "fs_lock (wait t \<sigma>) c = (fs_lock \<sigma> c)\<lparr>pr_now := pr_now (fs_lock \<sigma> c) + t\<rparr>" "fs_pods (wait t \<sigma>) = fs_pods \<sigma>"
  "fs_stage (wait t \<sigma>) = fs_stage \<sigma>" "fs_answer (wait t \<sigma>) = fs_answer \<sigma>"
  by (simp_all add: wait_def)

lemma wait_step: "0 \<le> t \<Longrightarrow> timely_step F \<sigma> (wait t \<sigma>)"
  unfolding wait_def by (rule timely_step.time)

lemma wait_lost [simp]: "fs_lost (wait t \<sigma>) = fs_lost \<sigma>"
  by (simp add: wait_def)

lemma wait_own: "0 \<le> t \<Longrightarrow> own_step F p \<sigma> (wait t \<sigma>)"
  using wait_step [of t F \<sigma>] by (rule own_stepI) simp_all

text \<open>After waiting for one lease duration, every cluster grants the lock.\<close>

context live_fleet
begin

lemma waited_locks:
  assumes "fleet_reach F valid \<sigma>" "fs_stage \<sigma> p = Fresh"
    and fit: "\<And>c. c \<in> fl_clusters F \<Longrightarrow> valid c (pr_store (fs_lock \<sigma> c)) \<and>
      leases_fit (stored c) (lock_key (fl_lock F c) (fl_namespace F) (fl_selector F)) (fl_skew F) (fs_lock \<sigma> c)"
  defines "\<tau> \<equiv> wait (fl_skew F + duration_ns) \<sigma>"
  obtains clk S where "locks_all F clk p \<tau> S" "covered F (\<tau>\<lparr>fs_lock := held F stored p \<tau> S\<rparr>) p"
proof -
  let ?n = "\<lambda>c. pr_now (fs_lock \<sigma> c) + (fl_skew F + duration_ns)"
  let ?k = "\<lambda>c. lock_key (fl_lock F c) (fl_namespace F) (fl_selector F)"
  have "\<forall>c\<in>fl_clusters F. \<exists>s'. LocalLock (fl_client F c) (fl_lock F c) (?n c, ?n c, ?n c) p (fl_namespace F) (fl_selector F)
      (pr_store (fs_lock \<sigma> c)) = (Ok (), s') \<and>
      (\<exists>l. stored c s' (?k c) = Some l \<and> lease_until l = micro (?n c) + duration_ns)"
  proof
    fix c assume c: "c \<in> fl_clusters F"
    show "\<exists>s'. LocalLock (fl_client F c) (fl_lock F c) (?n c, ?n c, ?n c) p (fl_namespace F) (fl_selector F)
      (pr_store (fs_lock \<sigma> c)) = (Ok (), s') \<and>
      (\<exists>l. stored c s' (?k c) = Some l \<and> lease_until l = micro (?n c) + duration_ns)"
      by (rule live_store.granted [OF cluster_live [OF c], of "fs_lock \<sigma> c" "fl_lock F c" "fl_namespace F" "fl_selector F" "fl_skew F" p])
        (use fit [OF c] in blast)+
  qed
  then obtain S where S: "\<And>c. c \<in> fl_clusters F \<Longrightarrow>
      LocalLock (fl_client F c) (fl_lock F c) (?n c, ?n c, ?n c) p (fl_namespace F) (fl_selector F)
        (pr_store (fs_lock \<sigma> c)) = (Ok (), S c)"
      "\<And>c. c \<in> fl_clusters F \<Longrightarrow> \<exists>l. stored c (S c) (?k c) = Some l \<and> lease_until l = micro (?n c) + duration_ns"
    by metis
  have "locks_all F (\<lambda>c. (?n c, ?n c, ?n c)) p \<tau> S"
    using S(1) fleet_fresh_idle [OF assms(1,2)] skew
    by (simp add: locks_all_def \<tau>_def reads_def)
  moreover have "covered F (\<tau>\<lparr>fs_lock := held F stored p \<tau> S\<rparr>) p"
    unfolding covered_def
  proof
    fix c assume c: "c \<in> fl_clusters F"
    then obtain l where l: "stored c (S c) (?k c) = Some l" "lease_until l = micro (?n c) + duration_ns" using S(2) by blast
    then show "\<exists>d. pr_pc (fs_lock (\<tau>\<lparr>fs_lock := held F stored p \<tau> S\<rparr>) c) p = Holding d \<and>
        sure (fl_skew F) (fs_lock (\<tau>\<lparr>fs_lock := held F stored p \<tau> S\<rparr>) c) d"
      using c skew micro_gt [of "?n c"]
      by (simp add: held_def after_lock_def sure_def \<tau>_def)
  qed
  ultimately show thesis by (rule that)
qed

end

lemma covered_cong: "fs_lock \<sigma> = fs_lock \<sigma>' \<Longrightarrow> covered F \<sigma> p = covered F \<sigma>' p"
  by (simp add: covered_def)

lemma held_now: "pr_now (held F stored p \<sigma> S c) = pr_now (fs_lock \<sigma> c)"
  by (simp add: held_def)

lemma finite_order:
  assumes "finite A" obtains xs where "distinct xs" "set xs = A"
  using finite_distinct_list [OF assms] by blast

context live_fleet
begin

lemma request_decided:
  assumes "fleet_reach F valid \<sigma>0" "fleet_fit F stored \<sigma>0" "(timely_step F)\<^sup>*\<^sup>* \<sigma>0 \<sigma>"
    and "fs_stage \<sigma> p = Fresh" "fl_home F p \<in> fl_clusters F"
    and "xpdb_namespace (fl_xpdb F p) = fl_namespace F" "spec_selector (xpdb_spec (fl_xpdb F p)) = fl_selector F"
    and "\<forall>c\<in>fl_clusters F. counts_in F \<sigma> c (A c)"
  shows "\<exists>\<sigma>' order. (own_step F p)\<^sup>*\<^sup>* \<sigma> \<sigma>' \<and> covered F \<sigma>' p \<and> distinct order \<and> set order = fl_clusters F - {fl_home F p} \<and>
    fs_stage \<sigma>' p = (if fleet_verdict F p (map A order) (A (fl_home F p)) = Inr True then Passed else Refused) \<and>
    (\<forall>c. pr_now (fs_lock \<sigma>' c) = pr_now (fs_lock \<sigma> c) + (fl_skew F + duration_ns))"
proof -
  let ?\<tau> = "wait (fl_skew F + duration_ns) \<sigma>"
  have reach: "fleet_reach F valid \<sigma>" by (rule fleet_reach_steps [OF assms(1,3)])
  note fit = fleet_fit_steps [OF assms(1-3)]
  obtain order where order: "distinct order" "set order = fl_clusters F - {fl_home F p}"
    using finite_order [of "fl_clusters F - {fl_home F p}"] finite_clusters by auto
  obtain clk S where S: "locks_all F clk p ?\<tau> S" "covered F (?\<tau>\<lparr>fs_lock := held F stored p ?\<tau> S\<rparr>) p"
    using waited_locks [OF reach assms(4) fit] .
  let ?\<sigma>' = "decided F stored p order S A ?\<tau>"
  have "undisturbed F stored valid clk p order S A ?\<tau>"
    using assms(4-8) order S(1) fit fleet_no_answer [OF reach, of p] cluster_store
    by (auto simp: undisturbed_def counts_in_def fresh_store_def)
  moreover have "own_step F p \<sigma> ?\<tau>" using skew by (intro wait_own) simp
  ultimately have "(own_step F p)\<^sup>*\<^sup>* \<sigma> ?\<sigma>'" using undisturbed_run by (meson converse_rtranclp_into_rtranclp)
  moreover have "covered F ?\<sigma>' p" using S(2) covered_cong [of ?\<sigma>' "?\<tau>\<lparr>fs_lock := held F stored p ?\<tau> S\<rparr>"] by simp
  ultimately show ?thesis using order by (intro exI [of _ ?\<sigma>'] exI [of _ order]) (simp add: held_now)
qed

end

section \<open>Properties\<close>

text \<open>
  C11. Every request can be decided, in bounded time and by itself: whatever the requests of all clusters have
  done so far (locks never given back, callers that gave up, peers still working for them), a new request can lock
  every cluster, count every cluster and have the verdict that the counts give, one lease duration and the clock
  skew later, by steps of its own and of time only: no other request makes a step and no pod changes. It
  is then still sure of its locks in every cluster. The API servers have to answer, the skew has to be smaller than the
  lease duration, and the deletes so far were in time.
\<close>

theorem every_request_is_decided:
  assumes "live_fleet F stored valid used" "fleet_reach F valid \<sigma>0" "fleet_fit F stored \<sigma>0" "timely_run F \<sigma>0 \<sigma>"
    and "fs_stage \<sigma> p = Fresh" "fl_home F p \<in> fl_clusters F"
    and "xpdb_namespace (fl_xpdb F p) = fl_namespace F" "spec_selector (xpdb_spec (fl_xpdb F p)) = fl_selector F"
    and "\<forall>c\<in>fl_clusters F. counts_in F \<sigma> c (A c)"
  shows "\<exists>\<sigma>' order. (own_step F p)\<^sup>*\<^sup>* \<sigma> \<sigma>' \<and> covered F \<sigma>' p \<and> distinct order \<and> set order = fl_clusters F - {fl_home F p} \<and>
    fs_stage \<sigma>' p = (if fleet_verdict F p (map A order) (A (fl_home F p)) = Inr True then Passed else Refused) \<and>
    (\<forall>c. pr_now (fs_lock \<sigma>' c) = pr_now (fs_lock \<sigma> c) + (fl_skew F + duration_ns))"
  using live_fleet.request_decided [OF assms(1-3) assms(4) [unfolded timely_run_iff] assms(5-9)] .

interpretation demo_live: live_fleet demo_fleet "\<lambda>c. fst" "\<lambda>c. rev_wf" "\<lambda>c. rev_used"
  by (intro live_fleet.intro live_fleet_axioms.intro demo.stored_fleet_axioms)
    (simp_all add: duration_ns_def rev_live.live_store_axioms)

lemma demo_fit: "fleet_fit demo_fleet (\<lambda>c. fst) demo_start"
  by (simp add: fleet_fit_def leases_fit_def quiet_def read_lease_def)

lemma demo_orders:
  assumes "distinct order" "set order = {''b''}" shows "order = [''b'']"
proof (cases order)
  case (Cons x xs)
  then have x: "x = ''b''" "set xs \<subseteq> {''b''}" "''b'' \<notin> set xs" using assms by auto
  then have "set xs = {}" using subset_singletonD [OF x(2)] by auto
  with Cons x(1) show ?thesis by simp
qed (use assms(2) in simp)

lemma demo_first_timely: "timely_run demo_fleet demo_start demo_first"
  unfolding timely_run_iff by (rule demo_first_run)

theorem every_request_is_decided_witness:
  "\<exists>\<sigma>'. (own_step demo_fleet ''q'')\<^sup>*\<^sup>* demo_first \<sigma>' \<and> covered demo_fleet \<sigma>' ''q'' \<and> fs_stage \<sigma>' ''q'' = Passed \<and>
     pr_now (fs_lock \<sigma>' ''a'') = 5001000000"
proof -
  obtain \<sigma>' order where *: "(own_step demo_fleet ''q'')\<^sup>*\<^sup>* demo_first \<sigma>'" "covered demo_fleet \<sigma>' ''q''"
    "distinct order" "set order = {''a'', ''b''} - {''a''}"
    "fs_stage \<sigma>' ''q'' = (if fleet_verdict demo_fleet ''q'' (map (\<lambda>c. demo_answer) order) demo_answer = Inr True then Passed else Refused)"
    "\<forall>c. pr_now (fs_lock \<sigma>' c) = pr_now (fs_lock demo_first c) + (1000000 + duration_ns)"
    using every_request_is_decided [OF demo_live.live_fleet_axioms demo_start_reach demo_fit demo_first_timely, of "''q''" "\<lambda>c. demo_answer"]
      demo_counts demo_xpdb_simps by auto
  have "order = [''b'']" using *(3,4) by (intro demo_orders) auto
  then show ?thesis using *(1,2,5,6) by (intro exI [of _ \<sigma>']) (simp add: demo_verdict quiet_def duration_ns_def)
qed

end
