(* ===== verification/Fleet_Timing.thy ===== *)
theory Fleet_Timing
  imports Fleet_Progress
begin

text \<open>
  How long a request is covered by its locks. Every lock of a request is good for five seconds from the
  moment the request was made at least, up to the skew of the clocks; so a request that is decided and carried
  out in less is covered, and the budget holds. The timeouts of the remote calls are longer than that when
  they are added up: a run in which every call keeps its timeout and the budget is broken.
\<close>

section \<open>The timeouts of the calls\<close>

definition remoteLockTimeout :: int where "remoteLockTimeout = 2000000000"
definition remoteGetStateTimeout :: int where "remoteGetStateTimeout = 2000000000"
definition probeTimeout :: int where "probeTimeout = 2000000000"

section \<open>Deadlines of locks taken since a moment\<close>

definition since :: "int \<Rightarrow> int \<Rightarrow> pc \<Rightarrow> bool" where
  "since T \<epsilon> l =
     (case l of
        Creating n \<Rightarrow> T - \<epsilon> \<le> n
      | Updating x n \<Rightarrow> T - \<epsilon> \<le> n
      | Holding d \<Rightarrow> T - \<epsilon> - 1000 + duration_ns \<le> d
      | _ \<Rightarrow> True)"

lemma since_simps [simp]:
  "since T \<epsilon> Idle" "since T \<epsilon> Reading" "since T \<epsilon> (Checking l)" "since T \<epsilon> Failed" "since T \<epsilon> (Releasing d)"
  "since T \<epsilon> (Creating n) \<longleftrightarrow> T - \<epsilon> \<le> n" "since T \<epsilon> (Updating x n) \<longleftrightarrow> T - \<epsilon> \<le> n"
  "since T \<epsilon> (Holding d) \<longleftrightarrow> T - \<epsilon> - 1000 + duration_ns \<le> d"
  by (simp_all add: since_def)

lemma since_deadline: "T - \<epsilon> \<le> n \<Longrightarrow> since T \<epsilon> (Holding (lease_deadline (micro n) LeaseDurationSeconds))"
  using micro_gt [of n] by (simp add: deadline_ns)

lemma since_step:
  assumes "lock_step c svc ns sel \<epsilon> g g'" "leases_fit stored k \<epsilon> g" "T \<le> pr_now g" "since T \<epsilon> (pr_pc g p)"
  shows "since T \<epsilon> (pr_pc g' p)"
  using assms(1)
proof cases
  case (start q n0)
  then show ?thesis using assms(3,4) by (auto simp: reads_def)
next
  case (created q n0 s')
  then show ?thesis using assms(4) since_deadline [of T \<epsilon> n0] by auto
next
  case (run_out q l d n1 n2)
  then show ?thesis using assms(3,4) by (auto simp: reads_def)
next
  case (updated q l n2 d s')
  then have "read_lease (pr_pc g q) = Some l" by (simp add: read_lease_def)
  then have "d = LeaseDurationSeconds" using assms(2) updated(3) unfolding leases_fit_def by force
  then show ?thesis using assms(4) updated since_deadline [of T \<epsilon> n2] by auto
qed (use assms(4) in auto)

lemma lock_step_now: "lock_step c svc ns sel \<epsilon> g g' \<Longrightarrow> pr_now g \<le> pr_now g'"
  by (erule lock_step.cases) auto

context fresh_store
begin

lemma since_steps:
  assumes "(lock_step c svc ns sel \<epsilon>)\<^sup>*\<^sup>* g0 g" "lock_inv stored wf used (lock_key svc ns sel) \<epsilon> g0"
    and "leases_fit stored (lock_key svc ns sel) \<epsilon> g0" "pr_pc g0 p = Idle"
  shows "pr_now g0 \<le> pr_now g \<and> since (pr_now g0) \<epsilon> (pr_pc g p)"
  using assms(1)
proof (induction rule: rtranclp_induct)
  case (step g g')
  have "leases_fit stored (lock_key svc ns sel) \<epsilon> g" using fit_steps [OF step.hyps(1) assms(2,3)] by simp
  then show ?case using since_step [OF step.hyps(2)] lock_step_now [OF step.hyps(2)] step.IH by force
qed (simp add: assms(4))

end

section \<open>Prompt requests are covered\<close>

context stored_fleet
begin

lemma fleet_since:
  assumes "fleet_reach F valid \<sigma>0" "fleet_fit F stored \<sigma>0" "fs_stage \<sigma>0 p = Fresh"
    and "(timely_step F)\<^sup>*\<^sup>* \<sigma>0 \<sigma>" "c \<in> fl_clusters F"
  shows "since (pr_now (fs_lock \<sigma>0 c)) (fl_skew F) (pr_pc (fs_lock \<sigma> c) p)"
  using fresh_store.since_steps [OF cluster_store [OF assms(5)] fleet_steps_lock [OF assms(4,5)]
      lock_invariant [OF assms(1,5)] _ fleet_fresh_idle [OF assms(1,3,5)]] assms(2,5)
  by (simp add: fleet_fit_def)

end

definition prompt :: "'s fleet \<Rightarrow> 's fleet_state \<Rightarrow> 's fleet_state \<Rightarrow> bool" where
  "prompt F \<sigma>0 \<sigma> \<longleftrightarrow>
     (\<forall>c\<in>fl_clusters F. pr_now (fs_lock \<sigma> c) - pr_now (fs_lock \<sigma>0 c) + 2 * fl_skew F + 1000 < duration_ns)"

context stored_fleet
begin

lemma prompt_covered:
  assumes "fleet_reach F valid \<sigma>0" "fleet_fit F stored \<sigma>0" "fs_stage \<sigma>0 p = Fresh"
    and "(timely_step F)\<^sup>*\<^sup>* \<sigma>0 \<sigma>" "deciding (fs_stage \<sigma> p)" "prompt F \<sigma>0 \<sigma>"
  shows "covered F \<sigma> p"
  unfolding covered_def
proof
  fix c assume c: "c \<in> fl_clusters F"
  obtain d where d: "pr_pc (fs_lock \<sigma> c) p = Holding d"
    using fleet_holding [OF fleet_reach_steps [OF assms(1,4)] assms(5) c] by (auto simp: holding_in_def)
  then have "pr_now (fs_lock \<sigma>0 c) - fl_skew F - 1000 + duration_ns \<le> d"
    using fleet_since [OF assms(1-4) c] by simp
  moreover have "pr_now (fs_lock \<sigma> c) - pr_now (fs_lock \<sigma>0 c) + 2 * fl_skew F + 1000 < duration_ns"
    using assms(6) c by (simp add: prompt_def)
  ultimately have "sure (fl_skew F) (fs_lock \<sigma> c) d" by (simp add: sure_def)
  with d show "\<exists>d. pr_pc (fs_lock \<sigma> c) p = Holding d \<and> sure (fl_skew F) (fs_lock \<sigma> c) d" by blast
qed

end

section \<open>A slow request\<close>

text \<open>
  The request \<^verbatim>\<open>r\<close> of the two clusters again. The leases are written at once, but the reply of the remote lock,
  the counts and the probe take 1.9 seconds each. After 5.1 seconds the leases have run out; the request \<^verbatim>\<open>q\<close>
  takes them over in both clusters, finds all pods healthy, is admitted and carried out. Then the probe of
  the first request answers.
\<close>

definition demo_held :: "rev_store fleet_state" where
  "demo_held = set_stage ''r'' Taking
     (demo_start\<lparr>fs_lock := held demo_fleet (\<lambda>c. fst) ''r'' demo_start (\<lambda>c. ([demo_key \<mapsto> demo_lease], 1))\<rparr>)"

definition demo_counting :: "rev_store fleet_state" where
  "demo_counting = set_stage ''r'' Counting (wait 1900000000 demo_held)"

definition demo_passed :: "rev_store fleet_state" where
  "demo_passed = set_stage ''r'' Passed (wait 1900000000 (record_answers ''r'' [''b'', ''a''] (\<lambda>c. demo_answer) demo_counting))"

definition demo_taken :: rev_store where
  "demo_taken = ([demo_key \<mapsto> written (with_holder ''q'' 5100000000 demo_lease) (format_nat 2)], 2)"

definition demo_other :: "rev_store fleet_state" where
  "demo_other = set_stage ''q'' Admitted (demo_decided ''q'' demo_taken (wait 1300000000 demo_passed))"

definition demo_late :: "rev_store fleet_state" where
  "demo_late = set_stage ''r'' Admitted (wait 600000000 (disrupt demo_fleet ''q'' 7 demo_other))"

abbreviation demo_lock_at :: "int \<Rightarrow> rev_store protocol" where
  "demo_lock_at n \<equiv> goto ''r'' (Holding 5000000000) ([demo_key \<mapsto> demo_lease], 1) (quiet\<lparr>pr_now := n\<rparr>)"

lemma lock_at_later [simp]: "(demo_lock_at n)\<lparr>pr_now := m\<rparr> = demo_lock_at m"
  by (simp add: goto_def)

lemma demo_held_simps [simp]:
  "c \<in> {''a'', ''b''} \<Longrightarrow> fs_lock demo_held c = demo_lock_at 0"
  "fs_pods demo_held c = demo_pods" "fs_stage demo_held p = (if p = ''r'' then Taking else Fresh)"
  "fs_answer demo_held p = Map.empty" "fs_lost demo_held c = 0"
  by (auto simp: demo_held_def held_def after_lock_def lease_until_def demo_lease_def lease_deadline_def
      LeaseDurationSeconds_def micro_def quiet_def)

lemma demo_counting_simps [simp]:
  "c \<in> {''a'', ''b''} \<Longrightarrow> fs_lock demo_counting c = demo_lock_at 1900000000"
  "fs_pods demo_counting c = demo_pods" "fs_stage demo_counting p = (if p = ''r'' then Counting else Fresh)"
  "fs_answer demo_counting p = Map.empty" "fs_lost demo_counting c = 0"
  by (auto simp: demo_counting_def)

lemma demo_passed_simps [simp]:
  "c \<in> {''a'', ''b''} \<Longrightarrow> fs_lock demo_passed c = demo_lock_at 3800000000"
  "fs_pods demo_passed c = demo_pods" "fs_stage demo_passed p = (if p = ''r'' then Passed else Fresh)"
  "p \<noteq> ''r'' \<Longrightarrow> fs_answer demo_passed p = Map.empty" "fs_lost demo_passed c = 0"
  by (auto simp: demo_passed_def record_answers_fields simp del: record_answers_simps)

lemma demo_other_simps [simp]:
  "c \<in> {''a'', ''b''} \<Longrightarrow> fs_lock demo_other c = goto ''q'' (Holding 10100000000) demo_taken (demo_lock_at 5100000000)"
  "fs_pods demo_other c = demo_pods" "fs_stage demo_other p = (if p = ''q'' then Admitted else fs_stage demo_passed p)"
  "fs_lost demo_other c = 0"
  by (auto simp: demo_other_def held_def after_lock_def lease_until_def demo_taken_def demo_lease_def with_holder_def
      lease_deadline_def LeaseDurationSeconds_def micro_def)

lemma demo_late_simps [simp]:
  "c \<in> {''a'', ''b''} \<Longrightarrow> pr_now (fs_lock demo_late c) = 5700000000" "fs_lost demo_late c = 0"
  "c \<in> {''a'', ''b''} \<Longrightarrow> pr_pc (fs_lock demo_late c) ''r'' = Holding 5000000000"
  "fs_pods demo_late = fs_pods (disrupt demo_fleet ''q'' 7 demo_other)" "fs_stage demo_late ''r'' = Admitted"
  by (auto simp: demo_late_def disrupt_def)

lemma demo_held_run: "(timely_step demo_fleet)\<^sup>*\<^sup>* demo_start demo_held"
proof -
  let ?\<sigma> = "set_stage ''r'' Taking demo_start" and ?S = "\<lambda>c. ([demo_key \<mapsto> demo_lease], 1)"
  note ready = demo_undisturbed [OF demo_start_ready, unfolded undisturbed_def]
  have "timely_step demo_fleet demo_start ?\<sigma>" using ready by (intro timely_step.request) auto
  moreover have "(timely_step demo_fleet)\<^sup>*\<^sup>* ?\<sigma> (?\<sigma>\<lparr>fs_lock := held demo_fleet (\<lambda>c. fst) ''r'' ?\<sigma> ?S\<rparr>)"
    using ready by (intro own_steps [of _ "''r''"] fleet_takes(1) [where order = "[''b'']" and valid = "\<lambda>c. rev_wf"])
      (auto simp: locks_all_def)
  moreover have "held demo_fleet (\<lambda>c. fst) ''r'' ?\<sigma> ?S = held demo_fleet (\<lambda>c. fst) ''r'' demo_start ?S"
    by (simp add: held_def fun_eq_iff)
  ultimately show ?thesis by (simp add: demo_held_def converse_rtranclp_into_rtranclp)
qed

lemma wait_steps: "0 \<le> t \<Longrightarrow> (timely_step F)\<^sup>*\<^sup>* \<sigma> (wait t \<sigma>)"
  using wait_step by (rule r_into_rtranclp)

lemma demo_counting_run: "(timely_step demo_fleet)\<^sup>*\<^sup>* demo_held demo_counting"
proof (rule rtranclp.rtrancl_into_rtrancl)
  show "(timely_step demo_fleet)\<^sup>*\<^sup>* demo_held (wait 1900000000 demo_held)" by (rule wait_steps) simp
  show "timely_step demo_fleet (wait 1900000000 demo_held) demo_counting"
    unfolding demo_counting_def by (rule timely_step.locked) (simp_all add: holding_in_def)
qed

lemma demo_passed_run: "(timely_step demo_fleet)\<^sup>*\<^sup>* demo_counting demo_passed"
proof (rule rtranclp.rtrancl_into_rtrancl)
  let ?\<sigma> = "record_answers ''r'' [''b'', ''a''] (\<lambda>c. demo_answer) demo_counting"
  have "(timely_step demo_fleet)\<^sup>*\<^sup>* demo_counting ?\<sigma>"
    using own_steps [OF fleet_answers [of demo_counting "''r''" demo_fleet "[''b'']" "\<lambda>c. demo_answer"]] demo_counts by auto
  then show "(timely_step demo_fleet)\<^sup>*\<^sup>* demo_counting (wait 1900000000 ?\<sigma>)"
    by (rule rtranclp_trans) (rule wait_steps, simp)
  show "timely_step demo_fleet (wait 1900000000 ?\<sigma>) demo_passed"
    using fleet_verdict_step [of "wait 1900000000 ?\<sigma>" "''r''" "[''b'']" demo_fleet "\<lambda>c. demo_answer"]
    by (simp add: own_step_def demo_passed_def demo_verdict record_answers_fields del: record_answers_simps)
qed

lemma demo_other_ready: "demo_ready ''q'' 5100000000 demo_taken (wait 1300000000 demo_passed)"
proof -
  have "rev_wf ([demo_key \<mapsto> demo_lease], 1)" by (auto simp: rev_wf_def demo_lease_def)
  moreover have "LocalLock rev_client (sample_lock []) (5100000000, 5100000000, 5100000000) ''q'' ''shop'' sample_selector
      ([demo_key \<mapsto> demo_lease], 1) = (Ok (), demo_taken)"
    by (simp add: rev_lock_run_out demo_taken_def demo_lease_def numeral_2_eq_2 lease_deadline_def
        LeaseDurationSeconds_def micro_def)
  ultimately show ?thesis by (simp add: demo_ready_def quiet_def reads_def)
qed

lemma demo_other_run: "(timely_step demo_fleet)\<^sup>*\<^sup>* demo_passed demo_other"
proof -
  have "(timely_step demo_fleet)\<^sup>*\<^sup>* demo_passed (wait 1300000000 demo_passed)" by (rule wait_steps) simp
  also have "(timely_step demo_fleet)\<^sup>*\<^sup>* (wait 1300000000 demo_passed) demo_other"
    unfolding demo_other_def by (rule demo_admits [OF demo_other_ready])
  finally show ?thesis .
qed

lemma demo_other_covered: "covered demo_fleet demo_other ''q''"
  by (simp add: covered_def sure_def)

lemma demo_late_run: "(timely_step demo_fleet)\<^sup>*\<^sup>* (disrupt demo_fleet ''q'' 7 demo_other) demo_late"
proof (rule rtranclp.rtrancl_into_rtrancl)
  let ?d = "disrupt demo_fleet ''q'' 7 demo_other"
  show "(timely_step demo_fleet)\<^sup>*\<^sup>* ?d (wait 600000000 ?d)" by (rule wait_steps) simp
  show "timely_step demo_fleet (wait 600000000 ?d) demo_late"
    unfolding demo_late_def by (rule timely_step.probe) (simp_all add: disrupt_def)
qed

lemma demo_late_live:
  "live demo_fleet (disrupt demo_fleet ''r'' 8 demo_late) ''a'' = 0"
  "live demo_fleet (disrupt demo_fleet ''r'' 8 demo_late) ''b'' = 2"
proof -
  have "live_pods ''shop'' sample_selector (mark_deleted (''shop'', ''db-0'') 8 (mark_deleted (''shop'', ''db-1'') 7 demo_pods)) = []"
    "length (live_pods ''shop'' sample_selector demo_pods) = 2" by code_simp+
  then show "live demo_fleet (disrupt demo_fleet ''r'' 8 demo_late) ''a'' = 0"
    "live demo_fleet (disrupt demo_fleet ''r'' 8 demo_late) ''b'' = 2"
    by (simp_all add: live_def disrupt_def pod_key_def sample_pod_def)
qed

section \<open>Properties\<close>

text \<open>
  C3. The budget under concurrency. Requests of all clusters run at once, their lock calls interleave one
  API request at a time, the clusters are counted at different moments, and pods come, go and change
  while that happens. When an admitted disruption takes effect less than five seconds (less twice the clock
  skew and a microsecond) after its request was made, the healthy pods that are left, over all clusters, are
  as many as the budget requires of the expected pods, but for the healthy pods that a cluster has lost since this request
  counted it, and but for the pod itself when it has become healthy since the request was made. Lost pods are those
  that go without the webhook and those of admitted disruptions that were carried out when the locks of their own
  requests had run out. The run, from the start of the system on, is one in which every lease is deleted by a holder that is still sure of it
  (\<open>deletes_in_time\<close>): the code does not ensure that, and a late delete breaks the mutual exclusion.
\<close>

theorem prompt_disruption_keeps_budget:
  assumes "stored_fleet F stored valid used" "fleet_reach F valid \<sigma>0" "fleet_fit F stored \<sigma>0" "fs_stage \<sigma>0 p = Fresh"
    and "timely_run F \<sigma>0 \<sigma>" "fs_stage \<sigma> p = Admitted" "prompt F \<sigma>0 \<sigma>"
    and "sane_budget (xpdb_spec (fl_xpdb F p))" "totals_fit F \<sigma> p"
  shows "required_healthy (xpdb_spec (fl_xpdb F p)) (counted grs_desiredHealthy F \<sigma> p) \<le>
    (\<Sum>c\<in>fl_clusters F. live F (disrupt F p t \<sigma>) c) + (\<Sum>c\<in>fl_clusters F. fs_lost \<sigma> c - fs_base \<sigma> p c) +
    of_bool (pod_is_healthy F \<sigma> p \<and> \<not> IsPodReady (fl_pod F p))"
  using stored_fleet.disruption_within_budget [OF assms(1) fleet_reach_steps [OF assms(2) assms(5) [unfolded timely_run_iff]] assms(6)]
    stored_fleet.prompt_covered [OF assms(1-4) assms(5) [unfolded timely_run_iff]] assms(6-9) by simp

theorem prompt_disruption_keeps_budget_witness:
  "required_healthy sample_spec 4 \<le>
     (\<Sum>c\<in>{''a'', ''b''}. live demo_fleet (disrupt demo_fleet ''r'' 7 demo_first) c)"
proof -
  have "counted grs_desiredHealthy demo_fleet demo_first ''r'' = 4" by (simp add: counted_def demo_answer_def)
  moreover have "fs_base demo_first ''r'' c = 0" for c
    by (simp add: demo_first_def decided_def record_answer_def demo_start_def)
  moreover have "IsPodReady (sample_pod ''db-0'' ''True'')" by code_simp
  moreover have "prompt demo_fleet demo_start demo_first" by (simp add: prompt_def quiet_def duration_ns_def)
  ultimately show ?thesis
    using prompt_disruption_keeps_budget [OF demo.stored_fleet_axioms demo_start_reach demo_fit _ demo_first_timely _ _ _ demo_fits, of 7]
      sample_budget_sane by (simp add: sample_xpdb_def)
qed

text \<open>
  C29. The timeouts of the calls outlast the lease. There is a run of two clusters that starts when a request has
  just written its leases, in full, in both clusters; its remote lock returns, the clusters are counted and the probe
  answers, each within the timeout of the call. Meanwhile the leases have run out, another request has taken them over
  and was admitted and carried out within its own locks. So the first request is admitted without its locks; no pod was lost
  otherwise, no lease was deleted, and when the disruption is carried out two healthy pods are left where the budget requires three.
\<close>

theorem timeouts_outlast_the_lease:
  "\<exists>\<sigma>1 \<sigma>2 \<sigma>3 \<sigma>4 \<sigma>5. fleet_reach demo_fleet (\<lambda>c. rev_wf) \<sigma>1 \<and> fs_stage \<sigma>1 ''r'' = Taking \<and>
     pr_pc (fs_lock \<sigma>1 ''a'') ''r'' = Holding (pr_now (fs_lock \<sigma>1 ''a'') + duration_ns) \<and>
     pr_pc (fs_lock \<sigma>1 ''b'') ''r'' = Holding (pr_now (fs_lock \<sigma>1 ''b'') + duration_ns) \<and>
     timely_run demo_fleet \<sigma>1 \<sigma>2 \<and> fs_stage \<sigma>2 ''r'' = Counting \<and>
     pr_now (fs_lock \<sigma>2 ''a'') - pr_now (fs_lock \<sigma>1 ''a'') \<le> remoteLockTimeout \<and>
     timely_run demo_fleet \<sigma>2 \<sigma>3 \<and> fs_stage \<sigma>3 ''r'' = Passed \<and>
     pr_now (fs_lock \<sigma>3 ''a'') - pr_now (fs_lock \<sigma>2 ''a'') \<le> remoteGetStateTimeout \<and>
     timely_run demo_fleet \<sigma>3 \<sigma>4 \<and> fs_stage \<sigma>4 ''q'' = Admitted \<and> covered demo_fleet \<sigma>4 ''q'' \<and>
     timely_run demo_fleet (disrupt demo_fleet ''q'' 7 \<sigma>4) \<sigma>5 \<and> fs_stage \<sigma>5 ''r'' = Admitted \<and>
     pr_now (fs_lock \<sigma>5 ''a'') - pr_now (fs_lock \<sigma>3 ''a'') \<le> probeTimeout \<and>
     \<not> covered demo_fleet \<sigma>5 ''r'' \<and> (\<forall>c. fs_lost \<sigma>5 c = 0) \<and>
     (\<Sum>c\<in>fl_clusters demo_fleet. live demo_fleet (disrupt demo_fleet ''r'' 8 \<sigma>5) c) = 2 \<and>
     required_healthy (xpdb_spec (fl_xpdb demo_fleet ''r'')) 4 = 3"
  unfolding timely_run_iff
proof (intro exI conjI)
  show "fleet_reach demo_fleet (\<lambda>c. rev_wf) demo_held"
    by (rule fleet_reach_steps [OF demo_start_reach demo_held_run])
  show "(timely_step demo_fleet)\<^sup>*\<^sup>* demo_held demo_counting" by (rule demo_counting_run)
  show "(timely_step demo_fleet)\<^sup>*\<^sup>* demo_counting demo_passed" by (rule demo_passed_run)
  show "(timely_step demo_fleet)\<^sup>*\<^sup>* demo_passed demo_other" by (rule demo_other_run)
  show "covered demo_fleet demo_other ''q''" by (rule demo_other_covered)
  show "(timely_step demo_fleet)\<^sup>*\<^sup>* (disrupt demo_fleet ''q'' 7 demo_other) demo_late" by (rule demo_late_run)
  show "\<not> covered demo_fleet demo_late ''r''" by (auto simp: covered_def sure_def)
  show "required_healthy (xpdb_spec (fl_xpdb demo_fleet ''r'')) 4 = 3"
    by (simp add: required_healthy_def share_of_def percent_of_def sample_xpdb_def sample_spec_def one_unavailable_def)
qed (simp_all add: remoteLockTimeout_def remoteGetStateTimeout_def probeTimeout_def duration_ns_def demo_late_live)

end
