(* ===== verification/Fleet_Handler.thy ===== *)
theory Fleet_Handler
  imports Fleet_Timing Mesh_Release
begin

text \<open>
  The handler and the fleet. \<^verbatim>\<open>Handle\<close> (\<^verbatim>\<open>internal/webhooks/validation.go\<close>) is a function on the state of one
  request; the fleet is a step relation over many. Here the first is shown to be a part of the second: what
  the handler does for a pod with one active budget, on whatever path, is a run of the fleet, with the
  same leases in every cluster at the end. So the invariants of the fleet are invariants of the code.
\<close>

section \<open>The installation as a fleet\<close>

text \<open>The cluster of the webhook beside the clusters of the mesh.\<close>

definition cluster_at ::
    "('s, string, string \<Rightarrow> 's, 'd, 'v, 'p) webhook_env \<Rightarrow> webhook \<Rightarrow> inputs \<Rightarrow> 's mesh \<Rightarrow> string \<Rightarrow> string \<Rightarrow> 's cluster" where
  "cluster_at env h inp m home c =
     (if c = home
      then \<lparr>cl_client = we_leases env, cl_lock = wh_lock h, cl_pdb = wh_pdb h, cl_clk = in_lockClk inp,
            cl_now = in_unlockNow inp\<rparr>
      else ms_cluster m c)"

lemma cluster_at_home [simp]:
  "cl_client (cluster_at env h inp m home home) = we_leases env" "cl_lock (cluster_at env h inp m home home) = wh_lock h"
  "cl_pdb (cluster_at env h inp m home home) = wh_pdb h" "cl_clk (cluster_at env h inp m home home) = in_lockClk inp"
  "cl_now (cluster_at env h inp m home home) = in_unlockNow inp"
  by (simp_all add: cluster_at_def)

text \<open>A state of the fleet has the leases of a state of the handler.\<close>

definition world_at :: "string \<Rightarrow> 's \<Rightarrow> (string \<Rightarrow> 's) \<Rightarrow> string \<Rightarrow> 's" where
  "world_at home s w c = (if c = home then s else w c)"

definition depicts :: "'s fleet \<Rightarrow> (string \<Rightarrow> 's) \<Rightarrow> 's fleet_state \<Rightarrow> bool" where
  "depicts F W \<sigma> \<longleftrightarrow> (\<forall>c\<in>fl_clusters F. pr_store (fs_lock \<sigma> c) = W c)"

text \<open>
  The moment a request comes in: it is new, no lock call of it runs anywhere, the clocks of the clusters
  show the time up to the skew, the pods of the fleet are what the budget services read, and leases that
  are there have the duration that the program writes.
\<close>

definition ready_in ::
    "'s fleet \<Rightarrow> ('s \<Rightarrow> object_key \<Rightarrow> lease option) \<Rightarrow> ('s \<Rightarrow> bool) \<Rightarrow> 's cluster \<Rightarrow> string \<Rightarrow> 's fleet_state \<Rightarrow> string \<Rightarrow> bool" where
  "ready_in F stored valid C me \<sigma> c \<longleftrightarrow>
     valid (pr_store (fs_lock \<sigma> c)) \<and> pr_pc (fs_lock \<sigma> c) me = Idle \<and>
     (case cl_clk C of (n0, n1, n2) \<Rightarrow>
        reads (fl_skew F) (fs_lock \<sigma> c) n0 \<and> reads (fl_skew F) (fs_lock \<sigma> c) n1 \<and> reads (fl_skew F) (fs_lock \<sigma> c) n2) \<and>
     (\<exists>xs. cluster_reader (ps_reader (cl_pdb C)) (fs_pods \<sigma> c) xs) \<and>
     (\<forall>l. stored (pr_store (fs_lock \<sigma> c)) (lock_key (fl_lock F c) (fl_namespace F) (fl_selector F)) = Some l \<longrightarrow>
        lease_durationSeconds l = Some LeaseDurationSeconds)"

definition ready ::
    "'s fleet \<Rightarrow> ('s \<Rightarrow> object_key \<Rightarrow> lease option) \<Rightarrow> ('s \<Rightarrow> bool) \<Rightarrow> (string \<Rightarrow> 's cluster) \<Rightarrow> string \<Rightarrow> 's fleet_state \<Rightarrow> bool" where
  "ready F stored valid C me \<sigma> \<longleftrightarrow>
     fs_stage \<sigma> me = Fresh \<and> fs_answer \<sigma> me = Map.empty \<and>
     (\<forall>c\<in>fl_clusters F. ready_in F stored valid (C c) me \<sigma> c)"

text \<open>Nothing but the request itself has moved.\<close>

definition moved :: "string \<Rightarrow> 's protocol \<Rightarrow> 's protocol \<Rightarrow> bool" where
  "moved me g g' \<longleftrightarrow> pr_now g' = pr_now g \<and> (\<forall>q. q \<noteq> me \<longrightarrow> pr_pc g' q = pr_pc g q)"

definition only_moved :: "string \<Rightarrow> 's fleet_state \<Rightarrow> 's fleet_state \<Rightarrow> bool" where
  "only_moved me \<sigma> \<sigma>' \<longleftrightarrow>
     fs_pods \<sigma>' = fs_pods \<sigma> \<and> fs_lost \<sigma>' = fs_lost \<sigma> \<and> (\<forall>c. moved me (fs_lock \<sigma> c) (fs_lock \<sigma>' c)) \<and>
     (\<forall>q. q \<noteq> me \<longrightarrow> fs_stage \<sigma>' q = fs_stage \<sigma> q \<and> fs_answer \<sigma>' q = fs_answer \<sigma> q)"

lemma moved_refl [simp]: "moved me g g" and moved_goto [simp]: "moved me g (goto me l s g)"
  by (simp_all add: moved_def)

lemma only_moved_refl [simp]: "only_moved me \<sigma> \<sigma>"
  by (simp add: only_moved_def)

lemma only_moved_trans [trans]: "only_moved me \<sigma> \<sigma>' \<Longrightarrow> only_moved me \<sigma>' \<sigma>'' \<Longrightarrow> only_moved me \<sigma> \<sigma>''"
  by (simp add: only_moved_def moved_def)

lemma only_moved_stage [simp]: "only_moved me \<sigma> (set_stage me s \<sigma>)"
  by (simp add: only_moved_def)

text \<open>A request is sure of the lock of a cluster.\<close>

definition surely_held :: "int \<Rightarrow> string \<Rightarrow> 's protocol \<Rightarrow> bool" where
  "surely_held \<epsilon> me g \<longleftrightarrow> (\<exists>d. pr_pc g me = Holding d \<and> sure \<epsilon> g d)"

lemma covered_surely: "covered F \<sigma> me \<longleftrightarrow> (\<forall>c\<in>fl_clusters F. surely_held (fl_skew F) me (fs_lock \<sigma> c))"
  by (simp add: covered_def surely_held_def)

text \<open>
  A request has been answered by every cluster: the answers are the counts that the budget service of
  the cluster finds, and the books are those of this moment.
\<close>

definition answered_by :: "'s fleet \<Rightarrow> (string \<Rightarrow> 's cluster) \<Rightarrow> string \<Rightarrow> 's fleet_state \<Rightarrow> bool" where
  "answered_by F C me \<sigma> \<longleftrightarrow>
     (\<forall>c\<in>fl_clusters F. fs_base \<sigma> me c = fs_lost \<sigma> c \<and>
        (\<exists>r. fs_answer \<sigma> me c = Some r \<and>
           GetPodCounts (cl_pdb (C c)) (fl_namespace F) (fl_selector F) = Ok (grs_desiredHealthy r, grs_healthy r)))"

lemma record_answers_base:
  "fs_base (record_answers p cs A \<sigma>) p c = (if c \<in> set cs then fs_lost \<sigma> c else fs_base \<sigma> p c)"
  by (induction cs arbitrary: \<sigma>) (auto simp: record_answer_def)

lemma set_stage_answered [simp]: "answered_by F C me (set_stage q s \<sigma>) = answered_by F C me \<sigma>"
  by (simp add: answered_by_def set_stage_def)

lemma set_stage_passed [simp]: "passed_by F (set_stage q s \<sigma>) me = passed_by F \<sigma> me"
  by (simp add: passed_by_def set_stage_def)

text \<open>The answers stay when the request is decided.\<close>

lemma answers_step:
  assumes "timely_step F \<sigma> \<sigma>'" "fs_stage \<sigma> me = Admitted \<or> fs_stage \<sigma> me = Ended"
  shows "(fs_stage \<sigma>' me = Admitted \<or> fs_stage \<sigma>' me = Ended) \<and> fs_answer \<sigma>' me = fs_answer \<sigma> me \<and> fs_base \<sigma>' me = fs_base \<sigma> me"
  using assms(1)
proof (cases rule: timely_step.cases)
  case (count q c svc xs e n)
  then have "q \<noteq> me" using assms(2) by auto
  with count(1) assms(2) show ?thesis by (simp add: record_answer_def)
next
  case (decide q order results own)
  have "q \<noteq> me" using decide(2) assms(2) by auto
  with decide(1) assms(2) show ?thesis by (simp add: set_stage_def)
qed (use assms(2) in \<open>auto simp: set_stage_def drift_def disrupt_def\<close>)

lemma answers_stay:
  assumes "(timely_step F)\<^sup>*\<^sup>* \<sigma> \<sigma>'" "fs_stage \<sigma> me = Admitted"
  shows "(fs_stage \<sigma>' me = Admitted \<or> fs_stage \<sigma>' me = Ended) \<and> fs_answer \<sigma>' me = fs_answer \<sigma> me \<and> fs_base \<sigma>' me = fs_base \<sigma> me"
  using assms(1)
proof (induction rule: rtranclp_induct)
  case (step \<sigma>1 \<sigma>2)
  then show ?case using answers_step [OF step.hyps(2)] by metis
qed (simp add: assms(2))

text \<open>
  The contract between the handler and the fleet: which clusters there are, which API server and which
  services each has, and what the fleet says of the request.
\<close>

locale installed =
  fixes F :: "'s fleet" and env :: "('s, string, string \<Rightarrow> 's, 'd, 'v, 'p) webhook_env" and h :: webhook
    and inp :: inputs and m :: "'s mesh" and eps :: "string list" and home :: string and p :: pod and x :: xpdb
    and stored :: "'s \<Rightarrow> object_key \<Rightarrow> lease option" and valid :: "'s \<Rightarrow> bool"
  assumes clusters: "fl_clusters F = insert home (set eps)" "home \<notin> set eps"
    and own: "fl_home F (lock_identity h inp p) = home" "fl_pod F (lock_identity h inp p) = p"
      "fl_xpdb F (lock_identity h inp p) = x" "fl_f2i F = we_f2i env"
    and budget: "fl_namespace F = xpdb_namespace x" "fl_selector F = spec_selector (xpdb_spec x)"
    and services: "\<And>c. c \<in> fl_clusters F \<Longrightarrow> fl_client F c = cl_client (cluster_at env h inp m home c)"
      "\<And>c. c \<in> fl_clusters F \<Longrightarrow> fl_lock F c = cl_lock (cluster_at env h inp m home c)"
      "\<And>c. c \<in> fl_clusters F \<Longrightarrow> lease_store (fl_client F c) stored valid"
    and network: "we_rpc env = mesh_env m"
    and endpoints: "configured h inp eps" "mset (in_unlockOrder inp) = mset eps"
    and skew: "2 * fl_skew F + 1000 < 5000000000"

section \<open>The lock calls\<close>

text \<open>One call of \<^verbatim>\<open>LocalLock\<close> as moves of the protocol.\<close>

lemma deadline_sure:
  assumes "2 * \<epsilon> + 1000 < 5000000000" "reads \<epsilon> g n"
  shows "sure \<epsilon> g (lease_deadline (micro n) LeaseDurationSeconds)"
proof -
  have "n - 1000 < micro n" by (simp add: micro_def)
  then show ?thesis using assms by (auto simp: sure_def reads_def lease_deadline_def LeaseDurationSeconds_def)
qed

lemma lock_call:
  assumes "lease_store c stored valid" "valid (pr_store g)" "pr_pc g me = Idle"
    and "case clk of (n0, n1, n2) \<Rightarrow> reads \<epsilon> g n0 \<and> reads \<epsilon> g n1 \<and> reads \<epsilon> g n2"
    and "\<forall>l. stored (pr_store g) (lock_key svc ns sel) = Some l \<longrightarrow> lease_durationSeconds l = Some LeaseDurationSeconds"
    and "2 * \<epsilon> + 1000 < 5000000000" "LocalLock c svc clk me ns sel (pr_store g) = (r, s')"
  shows "\<exists>g'. (call_step c svc ns sel \<epsilon> me)\<^sup>*\<^sup>* g g' \<and> pr_store g' = s' \<and> valid s' \<and> moved me g g' \<and>
    (r = Ok () \<longrightarrow> surely_held \<epsilon> me g')"
proof -
  obtain n0 n1 n2 where clk: "clk = (n0, n1, n2)" by (metis surj_pair)
  note call = assms(7) [unfolded clk]
  let ?g = "goto me (after_lock stored (lock_key svc ns sel) r s') s' g"
  have "(call_step c svc ns sel \<epsilon> me)\<^sup>*\<^sup>* g ?g"
    using lease_store.LocalLock_call [OF assms(1) call assms(2,3)] assms(4) clk by simp
  moreover have "surely_held \<epsilon> me ?g" if ok: "r = Ok ()"
  proof -
    obtain l where l: "stored s' (lock_key svc ns sel) = Some l"
      and "lease_acquireTime l = Some (micro n0) \<or> lease_acquireTime l = Some (micro n2)"
      and "lease_durationSeconds l = Some LeaseDurationSeconds"
      using lease_store.LocalLock_acquired [OF assms(1) call [unfolded ok] assms(2)] assms(5) by metis
    then have "sure \<epsilon> g (lease_until l)"
      using deadline_sure [OF assms(6)] assms(4) clk by (auto simp: lease_until_def)
    then show ?thesis using l ok by (simp add: surely_held_def after_lock_def)
  qed
  moreover have "valid s'" using lease_store.LocalLock_wf_frame [OF assms(1) call assms(2)] by blast
  ultimately show ?thesis by (intro exI [of _ ?g]) simp
qed

text \<open>One call of \<^verbatim>\<open>LocalUnlock\<close> by a request that was refused and is still sure of the lock.\<close>

lemma own_move:
  assumes "lock_step (fl_client F c) (fl_lock F c) (fl_namespace F) (fl_selector F) (fl_skew F) (fs_lock \<sigma> c) (goto me l s (fs_lock \<sigma> c))"
    and "c \<in> fl_clusters F" "may_move F \<sigma> c me l"
  shows "timely_step F \<sigma> (\<sigma>\<lparr>fs_lock := (fs_lock \<sigma>)(c := goto me l s (fs_lock \<sigma> c))\<rparr>)"
  using assms by (intro timely_step.lock_move) auto

lemma unlock_call:
  assumes "lease_store (fl_client F c) stored valid" "valid (pr_store (fs_lock \<sigma> c))" "surely_held (fl_skew F) me (fs_lock \<sigma> c)"
    and "c \<in> fl_clusters F" "fs_stage \<sigma> me = Refused" "c = fl_home F me \<or> pr_pc (fs_lock \<sigma> (fl_home F me)) me = Idle"
    and "LocalUnlock (fl_client F c) (fl_lock F c) now me (fl_namespace F) (fl_selector F) (pr_store (fs_lock \<sigma> c)) = (r, s')"
  shows "\<exists>l. (timely_step F)\<^sup>*\<^sup>* \<sigma> (\<sigma>\<lparr>fs_lock := (fs_lock \<sigma>)(c := goto me l s' (fs_lock \<sigma> c))\<rparr>) \<and> (r = Ok () \<longrightarrow> l = Idle)"
proof -
  obtain d where d: "pr_pc (fs_lock \<sigma> c) me = Holding d" "sure (fl_skew F) (fs_lock \<sigma> c) d"
    using assms(3) by (auto simp: surely_held_def)
  have may: "may_move F \<sigma> c me l" for l using d assms(5,6) by (simp add: may_move_def)
  note move = own_move [OF _ assms(4) may, THEN r_into_rtranclp [of "timely_step F"]]
  from assms(7) show ?thesis
  proof (cases rule: LocalUnlock_cases)
    case (absent e)
    then show ?thesis using move [OF lock_step.unlock_absent [OF d(1) absent(1,2)]] by blast
  next
    case (incomplete l)
    then show ?thesis using move [OF lock_step.unlock_other [OF d(1) incomplete(1)]] by auto
  next
    case (other l k)
    then show ?thesis using move [OF lock_step.unlock_other [OF d(1) other(1)]] by auto
  next
    case (deleted k oe)
    let ?g = "goto me (Releasing d) (pr_store (fs_lock \<sigma> c)) (fs_lock \<sigma> c)"
    let ?\<sigma> = "\<sigma>\<lparr>fs_lock := (fs_lock \<sigma>)(c := ?g)\<rparr>"
    have k: "k = lock_key (fl_lock F c) (fl_namespace F) (fl_selector F)"
      using deleted(3) lease_store.stored_key [OF assms(1,2)] lease_store.get_ok [OF assms(1,2)] by blast
    have "(timely_step F)\<^sup>*\<^sup>* \<sigma> ?\<sigma>"
      using deleted(3) by (intro move lock_step.unlock_begin [OF d(1)]) auto
    moreover have "timely_step F ?\<sigma> (?\<sigma>\<lparr>fs_lock := (fs_lock ?\<sigma>)(c := goto me Idle s' (fs_lock ?\<sigma> c))\<rparr>)"
    proof (rule own_move [OF _ assms(4)])
      show "lock_step (fl_client F c) (fl_lock F c) (fl_namespace F) (fl_selector F) (fl_skew F) (fs_lock ?\<sigma> c)
          (goto me Idle s' (fs_lock ?\<sigma> c))"
        using lock_step.delete_in_time [where g = ?g and p = me and d = d] d(2) deleted(1) k by simp
    qed (simp add: may_move_def)
    ultimately have "(timely_step F)\<^sup>*\<^sup>* \<sigma> (\<sigma>\<lparr>fs_lock := (fs_lock \<sigma>)(c := goto me Idle s' (fs_lock \<sigma> c))\<rparr>)"
      by (simp add: rtranclp.rtrancl_into_rtrancl)
    then show ?thesis by blast
  qed
qed

text \<open>The calls in the other clusters, of which some may not be reached.\<close>

lemma unlock_calls:
  assumes "distinct es" "set es \<subseteq> fl_clusters F - {fl_home F me}" "fs_stage \<sigma> me = Refused"
    and "pr_pc (fs_lock \<sigma> (fl_home F me)) me = Idle"
    and "\<forall>e\<in>set es. lease_store (fl_client F e) stored valid \<and> valid (pr_store (fs_lock \<sigma> e)) \<and> surely_held (fl_skew F) me (fs_lock \<sigma> e)"
    and "\<forall>e\<in>set es. w e = pr_store (fs_lock \<sigma> e) \<or> (\<exists>now r. LocalUnlock (fl_client F e) (fl_lock F e) now me
      (fl_namespace F) (fl_selector F) (pr_store (fs_lock \<sigma> e)) = (r, w e))"
  shows "\<exists>\<sigma>'. (timely_step F)\<^sup>*\<^sup>* \<sigma> \<sigma>' \<and> only_moved me \<sigma> \<sigma>' \<and> fs_stage \<sigma>' me = Refused \<and>
    (\<forall>c. c \<notin> set es \<longrightarrow> fs_lock \<sigma>' c = fs_lock \<sigma> c) \<and> (\<forall>e\<in>set es. pr_store (fs_lock \<sigma>' e) = w e)"
  using assms
proof (induction es arbitrary: \<sigma>)
  case Nil
  then show ?case by (intro exI [of _ \<sigma>]) simp
next
  case (Cons e es)
  have "\<exists>g. (timely_step F)\<^sup>*\<^sup>* \<sigma> (\<sigma>\<lparr>fs_lock := (fs_lock \<sigma>)(e := g)\<rparr>) \<and> moved me (fs_lock \<sigma> e) g \<and> pr_store g = w e"
  proof -
    have "w e = pr_store (fs_lock \<sigma> e) \<or> (\<exists>now r. LocalUnlock (fl_client F e) (fl_lock F e) now me
      (fl_namespace F) (fl_selector F) (pr_store (fs_lock \<sigma> e)) = (r, w e))" using Cons.prems(6) by simp
    then show ?thesis
    proof (elim disjE exE)
      assume "w e = pr_store (fs_lock \<sigma> e)"
      then show ?thesis by (intro exI [of _ "fs_lock \<sigma> e"]) simp
    next
      fix now r assume "LocalUnlock (fl_client F e) (fl_lock F e) now me (fl_namespace F) (fl_selector F) (pr_store (fs_lock \<sigma> e)) = (r, w e)"
      from unlock_call [OF _ _ _ _ Cons.prems(3) _ this] Cons.prems(2,4,5) obtain l where
        "(timely_step F)\<^sup>*\<^sup>* \<sigma> (\<sigma>\<lparr>fs_lock := (fs_lock \<sigma>)(e := goto me l (w e) (fs_lock \<sigma> e))\<rparr>)" by force
      then show ?thesis by (intro exI [of _ "goto me l (w e) (fs_lock \<sigma> e)"]) simp
    qed
  qed
  then obtain g where g: "(timely_step F)\<^sup>*\<^sup>* \<sigma> (\<sigma>\<lparr>fs_lock := (fs_lock \<sigma>)(e := g)\<rparr>)" "moved me (fs_lock \<sigma> e) g" "pr_store g = w e" by blast
  let ?\<sigma> = "\<sigma>\<lparr>fs_lock := (fs_lock \<sigma>)(e := g)\<rparr>"
  have "\<exists>\<sigma>'. (timely_step F)\<^sup>*\<^sup>* ?\<sigma> \<sigma>' \<and> only_moved me ?\<sigma> \<sigma>' \<and> fs_stage \<sigma>' me = Refused \<and>
      (\<forall>c. c \<notin> set es \<longrightarrow> fs_lock \<sigma>' c = fs_lock ?\<sigma> c) \<and> (\<forall>e\<in>set es. pr_store (fs_lock \<sigma>' e) = w e)"
    using Cons.prems by (intro Cons.IH) auto
  then obtain \<sigma>' where s': "(timely_step F)\<^sup>*\<^sup>* ?\<sigma> \<sigma>'" "only_moved me ?\<sigma> \<sigma>'" "fs_stage \<sigma>' me = Refused"
      "\<forall>c. c \<notin> set es \<longrightarrow> fs_lock \<sigma>' c = fs_lock ?\<sigma> c" "\<forall>e\<in>set es. pr_store (fs_lock \<sigma>' e) = w e" by blast
  have "only_moved me \<sigma> ?\<sigma>" using g(2) by (simp add: only_moved_def)
  then have "only_moved me \<sigma> \<sigma>'" using s'(2) by (rule only_moved_trans)
  moreover have "pr_store (fs_lock \<sigma>' e) = w e" using s'(4) g(3) Cons.prems(1) by simp
  ultimately show ?case using s'(3-5) rtranclp_trans [OF g(1) s'(1)] by (intro exI [of _ \<sigma>']) auto
qed

context installed
begin

abbreviation (input) "me \<equiv> lock_identity h inp p"
abbreviation (input) "C \<equiv> cluster_at env h inp m home"

lemma home_cluster: "home \<in> fl_clusters F" and remote_cluster: "e \<in> set eps \<Longrightarrow> e \<in> fl_clusters F \<and> C e = ms_cluster m e"
  using clusters by (auto simp: cluster_at_def)

lemma cluster_call:
  assumes "ready F stored valid C me \<sigma>" "c \<in> fl_clusters F"
    and "LocalLock (cl_client (C c)) (cl_lock (C c)) (cl_clk (C c)) me (xpdb_namespace x) (spec_selector (xpdb_spec x))
      (pr_store (fs_lock \<sigma> c)) = (r, s')"
  shows "\<exists>g'. (call_step (fl_client F c) (fl_lock F c) (fl_namespace F) (fl_selector F) (fl_skew F) me)\<^sup>*\<^sup>* (fs_lock \<sigma> c) g' \<and>
    pr_store g' = s' \<and> valid s' \<and> moved me (fs_lock \<sigma> c) g' \<and> (r = Ok () \<longrightarrow> surely_held (fl_skew F) me g')"
  using assms services [OF assms(2)] budget skew
  by (intro lock_call [where stored = stored and valid = valid and clk = "cl_clk (C c)"])
    (auto simp: ready_def ready_in_def)

text \<open>The calls of \<^verbatim>\<open>Lock\<close>: the own cluster, and then the others, of which some may not be reached.\<close>

lemma own_call:
  assumes "ready F stored valid C me \<sigma>" "depicts F W \<sigma>"
    and "LocalLock (we_leases env) (wh_lock h) (in_lockClk inp) me (xpdb_namespace x) (spec_selector (xpdb_spec x)) (W home) = (r, s1)"
  shows "\<exists>\<sigma>1. (timely_step F)\<^sup>*\<^sup>* \<sigma> \<sigma>1 \<and> only_moved me \<sigma> \<sigma>1 \<and> depicts F (W(home := s1)) \<sigma>1 \<and>
    fs_stage \<sigma>1 me = Taking \<and> fs_answer \<sigma>1 me = Map.empty \<and> valid s1 \<and> (\<forall>e\<in>set eps. fs_lock \<sigma>1 e = fs_lock \<sigma> e) \<and>
    (r = Ok () \<longrightarrow> surely_held (fl_skew F) me (fs_lock \<sigma>1 home))"
proof -
  have W: "W home = pr_store (fs_lock \<sigma> home)" using assms(2) home_cluster by (simp add: depicts_def)
  obtain g where g: "(call_step (fl_client F home) (fl_lock F home) (fl_namespace F) (fl_selector F) (fl_skew F) me)\<^sup>*\<^sup>* (fs_lock \<sigma> home) g"
    "pr_store g = s1" "valid s1" "moved me (fs_lock \<sigma> home) g" "r = Ok () \<longrightarrow> surely_held (fl_skew F) me g"
    using cluster_call [OF assms(1) home_cluster] assms(3) W by auto
  let ?\<sigma>0 = "set_stage me Taking \<sigma>" and ?\<sigma>1 = "set_stage me Taking (\<sigma>\<lparr>fs_lock := (fs_lock \<sigma>)(home := g)\<rparr>)"
  have "timely_step F \<sigma> ?\<sigma>0"
    using assms(1) own budget home_cluster by (intro timely_step.request) (auto simp: ready_def)
  moreover have "(timely_step F)\<^sup>*\<^sup>* ?\<sigma>0 ?\<sigma>1"
    using own_steps [OF fleet_call [of F home me ?\<sigma>0 g]] g(1) home_cluster own(1) by simp
  ultimately have "(timely_step F)\<^sup>*\<^sup>* \<sigma> ?\<sigma>1" by (rule converse_rtranclp_into_rtranclp)
  moreover have "only_moved me \<sigma> ?\<sigma>1" using g(4) by (auto simp: only_moved_def)
  moreover have "depicts F (W(home := s1)) ?\<sigma>1" using g(2) assms(2) by (auto simp: depicts_def)
  ultimately show ?thesis using g(3,5) assms(1) clusters by (intro exI [of _ ?\<sigma>1]) (auto simp: ready_def)
qed

lemma other_calls:
  assumes "ready F stored valid C me \<sigma>" "depicts F W \<sigma>" "fs_stage \<sigma>1 me = Taking" "\<forall>e\<in>set eps. fs_lock \<sigma>1 e = fs_lock \<sigma> e"
    and "holding_in \<sigma>1 me home"
    and "\<forall>e\<in>set eps. w' e = W e \<and> \<not> ok \<or>
      (\<exists>r. LocalLock (cl_client (ms_cluster m e)) (cl_lock (ms_cluster m e)) (cl_clk (ms_cluster m e)) me (xpdb_namespace x)
        (spec_selector (xpdb_spec x)) (W e) = (r, w' e) \<and> (ok \<longrightarrow> r = Ok ()))"
  shows "\<exists>G. (timely_step F)\<^sup>*\<^sup>* \<sigma>1 (\<sigma>1\<lparr>fs_lock := (\<lambda>c. if c \<in> set eps then G c else fs_lock \<sigma>1 c)\<rparr>) \<and>
    (\<forall>e\<in>set eps. pr_store (G e) = w' e \<and> valid (w' e) \<and> moved me (fs_lock \<sigma> e) (G e) \<and> (ok \<longrightarrow> surely_held (fl_skew F) me (G e)))"
proof -
  have "\<exists>g. (call_step (fl_client F e) (fl_lock F e) (fl_namespace F) (fl_selector F) (fl_skew F) me)\<^sup>*\<^sup>* (fs_lock \<sigma> e) g \<and>
      pr_store g = w' e \<and> valid (w' e) \<and> moved me (fs_lock \<sigma> e) g \<and> (ok \<longrightarrow> surely_held (fl_skew F) me g)" if e: "e \<in> set eps" for e
  proof -
    have W: "W e = pr_store (fs_lock \<sigma> e)" using assms(2) remote_cluster [OF e] by (simp add: depicts_def)
    from bspec [OF assms(6) e] show ?thesis
    proof (elim disjE exE conjE)
      assume "w' e = W e" "\<not> ok"
      with W assms(1) remote_cluster [OF e] show ?thesis
        by (intro exI [of _ "fs_lock \<sigma> e"]) (auto simp: ready_def ready_in_def)
    next
      fix r assume "LocalLock (cl_client (ms_cluster m e)) (cl_lock (ms_cluster m e)) (cl_clk (ms_cluster m e)) me
        (xpdb_namespace x) (spec_selector (xpdb_spec x)) (W e) = (r, w' e)" "ok \<longrightarrow> r = Ok ()"
      with cluster_call [OF assms(1), of e r "w' e"] remote_cluster [OF e] W show ?thesis by auto
    qed
  qed
  then obtain G where G: "\<forall>e\<in>set eps. (call_step (fl_client F e) (fl_lock F e) (fl_namespace F) (fl_selector F) (fl_skew F) me)\<^sup>*\<^sup>*
      (fs_lock \<sigma> e) (G e) \<and> pr_store (G e) = w' e \<and> valid (w' e) \<and> moved me (fs_lock \<sigma> e) (G e) \<and> (ok \<longrightarrow> surely_held (fl_skew F) me (G e))"
    by metis
  have "(timely_step F)\<^sup>*\<^sup>* \<sigma>1 (\<sigma>1\<lparr>fs_lock := (\<lambda>c. if c \<in> set eps then G c else fs_lock \<sigma>1 c)\<rparr>)"
    using G assms(3,4,5) clusters own(1) endpoints(1) by (intro own_steps [of _ me] fleet_calls) (auto simp: configured_def)
  with G show ?thesis by blast
qed

lemma remote_calls:
  assumes "remoteLock (mesh_env m) (wh_lock h) (in_lockOrder inp) me (xpdb_namespace x) (spec_selector (xpdb_spec x))
      (pl, w) = (r, (pl1, w1))" "honest_pool pl" "e \<in> set eps"
  shows "w1 e = w e \<and> r \<noteq> Ok () \<or>
    (\<exists>q. LocalLock (cl_client (ms_cluster m e)) (cl_lock (ms_cluster m e)) (cl_clk (ms_cluster m e)) me (xpdb_namespace x)
      (spec_selector (xpdb_spec x)) (w e) = (q, w1 e) \<and> (r = Ok () \<longrightarrow> q = Ok ()))"
proof (cases "r = Ok ()")
  case True
  then show ?thesis
    using remoteLock_mesh [of m "wh_lock h"] assms configured_orders [OF endpoints(1)] endpoints(1)
    by (auto simp: configured_def)
next
  case False
  then show ?thesis using remoteLock_run [OF assms(1,2)] configured_orders(1) [OF endpoints(1)] by (metis prod.collapse)
qed

text \<open>The remote half of \<^verbatim>\<open>Lock\<close>, and its end: the request goes on to count, or is over.\<close>

lemma remote_half:
  assumes "ready F stored valid C me \<sigma>" "depicts F (world_at home s w) \<sigma>" "honest_pool pl"
    and "remoteLock (mesh_env m) (wh_lock h) (in_lockOrder inp) me (xpdb_namespace x) (spec_selector (xpdb_spec x))
      (pl, w) = (r, (pl1, w1))"
    and "only_moved me \<sigma> \<sigma>1" "depicts F ((world_at home s w)(home := s1)) \<sigma>1"
    "fs_stage \<sigma>1 me = Taking" "valid s1" "\<forall>e\<in>set eps. fs_lock \<sigma>1 e = fs_lock \<sigma> e"
    "surely_held (fl_skew F) me (fs_lock \<sigma>1 home)"
  shows "\<exists>\<sigma>2. (timely_step F)\<^sup>*\<^sup>* \<sigma>1 \<sigma>2 \<and> only_moved me \<sigma> \<sigma>2 \<and> depicts F (world_at home s1 w1) \<sigma>2 \<and>
    fs_stage \<sigma>2 me = (if r = Ok () then Counting else Ended) \<and> fs_answer \<sigma>2 me = fs_answer \<sigma>1 me \<and>
    (r = Ok () \<longrightarrow> covered F \<sigma>2 me \<and> (\<forall>c\<in>fl_clusters F. valid (pr_store (fs_lock \<sigma>2 c))))"
proof -
  have we: "world_at home s w e = w e" if "e \<in> set eps" for e using that clusters(2) by (auto simp: world_at_def)
  have "holding_in \<sigma>1 me home" using assms(10) by (auto simp: holding_in_def surely_held_def)
  from other_calls [OF assms(1,2,7,9) this, of w1 "r = Ok ()"] remote_calls [OF assms(4,3)] we obtain G where
    G: "(timely_step F)\<^sup>*\<^sup>* \<sigma>1 (\<sigma>1\<lparr>fs_lock := (\<lambda>c. if c \<in> set eps then G c else fs_lock \<sigma>1 c)\<rparr>)"
      "\<forall>e\<in>set eps. pr_store (G e) = w1 e \<and> valid (w1 e) \<and> moved me (fs_lock \<sigma> e) (G e) \<and>
        (r = Ok () \<longrightarrow> surely_held (fl_skew F) me (G e))" by auto
  let ?\<sigma>2 = "\<sigma>1\<lparr>fs_lock := (\<lambda>c. if c \<in> set eps then G c else fs_lock \<sigma>1 c)\<rparr>"
  let ?s = "if r = Ok () then Counting else Ended"
  have cov: "r = Ok () \<Longrightarrow> covered F ?\<sigma>2 me" using G(2) assms(10) clusters by (auto simp: covered_surely)
  have "timely_step F ?\<sigma>2 (set_stage me ?s ?\<sigma>2)"
    using cov assms(7) timely_step.locked [of ?\<sigma>2 me F] timely_step.not_locked [of ?\<sigma>2 me F]
    by (auto simp: covered_def holding_in_def)
  with G(1) have "(timely_step F)\<^sup>*\<^sup>* \<sigma>1 (set_stage me ?s ?\<sigma>2)" by (rule rtranclp.rtrancl_into_rtrancl)
  moreover have "only_moved me \<sigma> (set_stage me ?s ?\<sigma>2)" using assms(5) G(2) by (auto simp: only_moved_def)
  moreover have "depicts F (world_at home s1 w1) (set_stage me ?s ?\<sigma>2)"
    using assms(6) G(2) clusters by (auto simp: depicts_def world_at_def)
  moreover have "covered F (set_stage me ?s ?\<sigma>2) me" if "r = Ok ()" using cov [OF that] by (simp add: covered_def)
  moreover have "valid (pr_store (fs_lock ?\<sigma>2 c))" if "c \<in> fl_clusters F" for c
    using that G(2) assms(6,8) clusters by (auto simp: depicts_def)
  ultimately show ?thesis by (intro exI [of _ "set_stage me ?s ?\<sigma>2"]) simp
qed

lemma Lock_run:
  assumes "ready F stored valid C me \<sigma>" "depicts F (world_at home s w) \<sigma>" "honest_pool pl"
    and "Lock (we_leases env) (mesh_env m) (wh_lock h) (in_lockClk inp) (in_lockOrder inp) me (xpdb_namespace x)
      (spec_selector (xpdb_spec x)) (s, (pl, w)) = (r, s1, (pl1, w1))" "r \<noteq> Panic"
  shows "honest_pool pl1 \<and> (\<exists>\<sigma>1. (timely_step F)\<^sup>*\<^sup>* \<sigma> \<sigma>1 \<and> only_moved me \<sigma> \<sigma>1 \<and> depicts F (world_at home s1 w1) \<sigma>1 \<and>
    fs_stage \<sigma>1 me = (if r = Ok () then Counting else Ended) \<and> fs_answer \<sigma>1 me = Map.empty \<and>
    (r = Ok () \<longrightarrow> covered F \<sigma>1 me \<and> (\<forall>c\<in>fl_clusters F. valid (pr_store (fs_lock \<sigma>1 c)))))"
proof -
  obtain r0 s0 where loc: "LocalLock (we_leases env) (wh_lock h) (in_lockClk inp) me (xpdb_namespace x)
      (spec_selector (xpdb_spec x)) s = (r0, s0)" by fastforce
  have s0: "s1 = s0" "r0 \<noteq> Panic" using assms(4,5) loc
    by (auto simp: Lock_def split: go.splits prod.splits if_splits)
  obtain \<sigma>1 where run: "(timely_step F)\<^sup>*\<^sup>* \<sigma> \<sigma>1" and one: "only_moved me \<sigma> \<sigma>1" "depicts F ((world_at home s w)(home := s1)) \<sigma>1"
    "fs_stage \<sigma>1 me = Taking" "fs_answer \<sigma>1 me = Map.empty" "valid s1" "\<forall>e\<in>set eps. fs_lock \<sigma>1 e = fs_lock \<sigma> e"
    "r0 = Ok () \<longrightarrow> surely_held (fl_skew F) me (fs_lock \<sigma>1 home)"
    using own_call [OF assms(1,2), of r0 s1] loc s0(1) by (auto simp: world_at_def)
  show ?thesis
  proof (cases "r0 = Ok ()")
    case False
    then have rs: "r \<noteq> Ok ()" "pl1 = pl" "w1 = w"
      using assms(4) loc s0 by (auto simp: Lock_def split: go.splits)
    have "(timely_step F)\<^sup>*\<^sup>* \<sigma> (set_stage me Ended \<sigma>1)"
      using rtranclp.rtrancl_into_rtrancl [OF run timely_step.not_locked [OF one(3)]] .
    moreover have "depicts F (world_at home s1 w1) (set_stage me Ended \<sigma>1)"
      using one(2) rs(3) by (auto simp: depicts_def world_at_def)
    ultimately show ?thesis using one rs assms(3) only_moved_trans [OF one(1) only_moved_stage] by force
  next
    case True
    then obtain r1 where r1: "remoteLock (mesh_env m) (wh_lock h) (in_lockOrder inp) me (xpdb_namespace x)
        (spec_selector (xpdb_spec x)) (pl, w) = (r1, (pl1, w1))" "r = Ok () \<longleftrightarrow> r1 = Ok ()"
      using assms(4) loc s0 by (auto simp: Lock_def remoteLock_def split: go.splits prod.splits if_splits)
    have "honest_pool pl1" using remoteLock_run [OF r1(1) assms(3)] configured_orders(1) [OF endpoints(1)] by blast
    moreover note remote_half [OF assms(1-3) r1(1) one(1-3,5,6)] True one(4,7) r1(2) rtranclp_trans [OF run]
    ultimately show ?thesis by fastforce
  qed
qed

section \<open>The count and the verdict\<close>

lemma CanPodBeDisrupted_run:
  assumes "ready F stored valid C me \<sigma>" "only_moved me \<sigma> \<sigma>1" "honest_pool pl"
    and "fs_stage \<sigma>1 me = Counting" "fs_answer \<sigma>1 me = Map.empty"
    and "CanPodBeDisrupted (we_f2i env) (mesh_env m) (wh_pdb h) (in_stateOrder inp) p x (pl, w) = (Ok b, (pl', w'))"
  shows "w' = w \<and> honest_pool pl' \<and> (\<exists>\<sigma>2. (timely_step F)\<^sup>*\<^sup>* \<sigma>1 \<sigma>2 \<and> only_moved me \<sigma> \<sigma>2 \<and> fs_lock \<sigma>2 = fs_lock \<sigma>1 \<and>
    fs_stage \<sigma>2 me = (if b then Passed else Refused) \<and> (b \<longrightarrow> passed_by F \<sigma>2 me \<and> answered_by F C me \<sigma>2))"
proof -
  note order = configured_orders [OF endpoints(1)]
  have none: "ps_remoteEndpoints (wh_pdb h) = [] \<longrightarrow> in_stateOrder inp = []"
    using endpoints(1) by (auto simp: configured_def)
  from assms(6) [unfolded CanPodBeDisrupted_Ok [OF none]] obtain results le lh where
    tasks: "all_tasks (state_task (mesh_env m) (xpdb_namespace x) (spec_selector (xpdb_spec x))) (in_stateOrder inp) (pl, w)
      results (pl', w')" and loc: "GetPodCounts (wh_pdb h) (xpdb_namespace x) (spec_selector (xpdb_spec x)) = Ok (le, lh)"
    by blast
  from state_tasks_mesh [OF tasks assms(3) order(3)] obtain ans where remote: "honest_pool pl'" "w' = w"
    "results = map ans (in_stateOrder inp)" "\<forall>e\<in>set (in_stateOrder inp). GetPodCounts (cl_pdb (ms_cluster m e))
      (xpdb_namespace x) (spec_selector (xpdb_spec x)) = Ok (grs_desiredHealthy (ans e), grs_healthy (ans e))" by blast
  define A where "A = ans(home := \<lparr>grs_desiredHealthy = le, grs_healthy = lh\<rparr>)"
  have A: "A home = \<lparr>grs_desiredHealthy = le, grs_healthy = lh\<rparr>" "\<And>e. e \<in> set eps \<Longrightarrow> A e = ans e"
    using clusters(2) by (auto simp: A_def)
  have same: "map A (in_stateOrder inp) = results" using order(4) remote(3) A(2) by simp
  have verdict: "fleet_verdict F me (map A (in_stateOrder inp)) (A home) = Inr b" unfolding same
    using code_decides_verdict [of "mesh_env m" F me "in_stateOrder inp" "(pl, w)" results "(pl', w')" "wh_pdb h" "A home" b]
      tasks loc none assms(6) own A(1) by simp
  have get: "GetPodCounts (cl_pdb (C c)) (fl_namespace F) (fl_selector F) = Ok (grs_desiredHealthy (A c), grs_healthy (A c))"
    if "c \<in> fl_clusters F" for c
    using loc remote(4) order(4) that clusters remote_cluster [of c] A by (cases "c = home") (auto simp: budget)
  have counts: "\<forall>c\<in>fl_clusters F. counts_in F \<sigma>1 c (A c)"
  proof
    fix c assume c: "c \<in> fl_clusters F"
    obtain xs where "cluster_reader (ps_reader (cl_pdb (C c))) (fs_pods \<sigma>1 c) xs"
      using assms(1,2) c by (auto simp: ready_def ready_in_def only_moved_def)
    with get [OF c] show "counts_in F \<sigma>1 c (A c)" unfolding counts_in_def by blast
  qed
  have others: "set (in_stateOrder inp) = fl_clusters F - {fl_home F me}" using order(4) clusters own(1) by auto
  let ?\<sigma>2 = "set_stage me (if b then Passed else Refused) (record_answers me (in_stateOrder inp @ [home]) A \<sigma>1)"
  have "(timely_step F)\<^sup>*\<^sup>* \<sigma>1 ?\<sigma>2"
    using own_steps [OF fleet_decides [OF assms(4) _ assms(5) order(3) others counts]] home_cluster verdict by (simp add: own(1))
  moreover have "only_moved me \<sigma> ?\<sigma>2" using assms(2) by (auto simp: only_moved_def record_answers_fields)
  moreover have "passed_by F ?\<sigma>2 me" if b
    unfolding passed_by_def using order(3) others verdict that own(1)
    by (intro exI [of _ "in_stateOrder inp"] exI [of _ "map A (in_stateOrder inp)"] exI [of _ "A home"])
      (simp add: record_answers_fields)
  moreover have "answered_by F C me ?\<sigma>2"
    unfolding answered_by_def using get order(4) clusters(1) by (simp add: record_answers_fields record_answers_base)
  ultimately show ?thesis using remote(1,2) by (intro conjI exI [of _ ?\<sigma>2]) (simp_all add: record_answers_fields)
qed

text \<open>A count that fails refuses the request.\<close>

lemma CanPodBeDisrupted_failed:
  assumes "honest_pool pl" "only_moved me \<sigma> \<sigma>1" "fs_stage \<sigma>1 me = Counting"
    and "CanPodBeDisrupted (we_f2i env) (mesh_env m) (wh_pdb h) (in_stateOrder inp) p x (pl, w) = (r, (pl', w'))"
  shows "w' = w \<and> honest_pool pl' \<and> (\<exists>\<sigma>2. (timely_step F)\<^sup>*\<^sup>* \<sigma>1 \<sigma>2 \<and> only_moved me \<sigma> \<sigma>2 \<and> fs_lock \<sigma>2 = fs_lock \<sigma>1 \<and>
    fs_stage \<sigma>2 me = Refused)"
proof -
  have "w' = w" "honest_pool pl'"
    using CanPodBeDisrupted_keeps [OF assms(4), of "[]"] assms(1) by (simp_all add: dialled_def)
  then show ?thesis
    using r_into_rtranclp [of "timely_step F", OF timely_step.not_counted [OF assms(3)]] only_moved_trans [OF assms(2) only_moved_stage]
    by (intro conjI exI [of _ "set_stage me Refused \<sigma>1"]) simp_all
qed

section \<open>The release\<close>

lemma Unlock_run:
  assumes "covered F \<sigma> me" "\<forall>c\<in>fl_clusters F. valid (pr_store (fs_lock \<sigma> c))" "depicts F (world_at home s w) \<sigma>"
    and "fs_stage \<sigma> me = Refused" "honest_pool pl"
    and "Unlock (we_leases env) (mesh_env m) (wh_lock h) (in_unlockNow inp) (in_unlockOrder inp) me (xpdb_namespace x)
      (spec_selector (xpdb_spec x)) (s, (pl, w)) = (r, s1, (pl1, w1))"
  shows "\<exists>\<sigma>1. (timely_step F)\<^sup>*\<^sup>* \<sigma> \<sigma>1 \<and> only_moved me \<sigma> \<sigma>1 \<and> depicts F (world_at home s1 w1) \<sigma>1 \<and> fs_stage \<sigma>1 me = Refused"
proof -
  have store: "s = pr_store (fs_lock \<sigma> home)" "\<And>e. e \<in> set eps \<Longrightarrow> w e = pr_store (fs_lock \<sigma> e)"
    using assms(3) clusters by (auto simp: depicts_def world_at_def)
  obtain r0 s0 where loc: "LocalUnlock (we_leases env) (wh_lock h) (in_unlockNow inp) me (xpdb_namespace x)
      (spec_selector (xpdb_spec x)) s = (r0, s0)" by fastforce
  have s0: "s1 = s0" using assms(6) loc by (auto simp: Unlock_def split: go.splits prod.splits if_splits)
  from unlock_call [OF services(3) [OF home_cluster], of \<sigma> me "in_unlockNow inp" r0 s1] loc store(1) services [OF home_cluster]
    budget assms(1,2,4) home_cluster own(1) s0 obtain l where
    l: "(timely_step F)\<^sup>*\<^sup>* \<sigma> (\<sigma>\<lparr>fs_lock := (fs_lock \<sigma>)(home := goto me l s1 (fs_lock \<sigma> home))\<rparr>)" "r0 = Ok () \<longrightarrow> l = Idle"
    by (auto simp: covered_surely)
  let ?\<sigma> = "\<sigma>\<lparr>fs_lock := (fs_lock \<sigma>)(home := goto me l s1 (fs_lock \<sigma> home))\<rparr>"
  have one: "only_moved me \<sigma> ?\<sigma>" by (simp add: only_moved_def)
  show ?thesis
  proof (cases "r0 = Ok () \<and> eps \<noteq> []")
    case False
    then have "w1 = w \<or> eps = []" using assms(6) loc endpoints(1)
      by (auto simp: Unlock_def configured_def split: go.splits prod.splits if_splits)
    then have "depicts F (world_at home s1 w1) ?\<sigma>"
      using assms(3) clusters by (auto simp: depicts_def world_at_def)
    then show ?thesis using l(1) one assms(4) by (intro exI [of _ ?\<sigma>]) simp
  next
    case True
    then obtain r1 where r1: "remoteUnlock (mesh_env m) (wh_lock h) (in_unlockOrder inp) me (xpdb_namespace x)
        (spec_selector (xpdb_spec x)) (pl, w) = (r1, (pl1, w1))"
      using assms(6) loc endpoints(1) by (auto simp: Unlock_def configured_def split: go.splits prod.splits if_splits)
    have un: "distinct (in_unlockOrder inp)"
      using endpoints mset_eq_imp_distinct_iff unfolding configured_def by blast
    have calls: "\<forall>e\<in>set eps. w1 e = pr_store (fs_lock ?\<sigma> e) \<or> (\<exists>now q. LocalUnlock (fl_client F e) (fl_lock F e) now me
        (fl_namespace F) (fl_selector F) (pr_store (fs_lock ?\<sigma> e)) = (q, w1 e))"
    proof
      fix e assume e: "e \<in> set eps"
      have "e \<noteq> home" using e clusters(2) by auto
      then show "w1 e = pr_store (fs_lock ?\<sigma> e) \<or> (\<exists>now q. LocalUnlock (fl_client F e) (fl_lock F e) now me
          (fl_namespace F) (fl_selector F) (pr_store (fs_lock ?\<sigma> e)) = (q, w1 e))"
        using spec [OF remoteUnlock_run [OF r1 assms(5) un], of e] store(2) [OF e] remote_cluster [OF e] services budget
        by (auto simp: prod_eq_iff)
    qed
    have "\<exists>\<sigma>'. (timely_step F)\<^sup>*\<^sup>* ?\<sigma> \<sigma>' \<and> only_moved me ?\<sigma> \<sigma>' \<and> fs_stage \<sigma>' me = Refused \<and>
        (\<forall>c. c \<notin> set eps \<longrightarrow> fs_lock \<sigma>' c = fs_lock ?\<sigma> c) \<and> (\<forall>e\<in>set eps. pr_store (fs_lock \<sigma>' e) = w1 e)"
      using endpoints(1) clusters own(1) assms(1,2,4) l(2) True services(3) calls
      by (intro unlock_calls [where stored = stored and valid = valid]) (auto simp: configured_def covered_surely)
    then obtain \<sigma>' where s': "(timely_step F)\<^sup>*\<^sup>* ?\<sigma> \<sigma>'" "only_moved me ?\<sigma> \<sigma>'" "fs_stage \<sigma>' me = Refused"
      "\<forall>c. c \<notin> set eps \<longrightarrow> fs_lock \<sigma>' c = fs_lock ?\<sigma> c" "\<forall>e\<in>set eps. pr_store (fs_lock \<sigma>' e) = w1 e" by blast
    moreover have "depicts F (world_at home s1 w1) \<sigma>'" using s'(4,5) clusters by (auto simp: depicts_def world_at_def)
    ultimately show ?thesis using rtranclp_trans [OF l(1) s'(1)] only_moved_trans [OF one s'(2)] by blast
  qed
qed

section \<open>The handler\<close>

text \<open>The count and what follows it, up to the answer or to the release.\<close>

lemma verdict_run:
  assumes "ready F stored valid C me \<sigma>" "only_moved me \<sigma> \<sigma>1" "honest_pool pl"
    and "fs_stage \<sigma>1 me = Counting" "fs_answer \<sigma>1 me = Map.empty"
    and "CanPodBeDisrupted (we_f2i env) (mesh_env m) (wh_pdb h) (in_stateOrder inp) p x (pl, w) = (r, (pl', w'))"
    and "a \<longrightarrow> r = Ok True"
  shows "w' = w \<and> honest_pool pl' \<and> (\<exists>\<sigma>2. (timely_step F)\<^sup>*\<^sup>* \<sigma>1 \<sigma>2 \<and> only_moved me \<sigma> \<sigma>2 \<and> fs_lock \<sigma>2 = fs_lock \<sigma>1 \<and>
    fs_stage \<sigma>2 me = (if a then Admitted else Refused) \<and> (a \<longrightarrow> passed_by F \<sigma>2 me \<and> answered_by F C me \<sigma>2))"
proof (cases "r = Ok True")
  case True
  from CanPodBeDisrupted_run [OF assms(1-5)] assms(6) True obtain \<sigma>2 where
    "w' = w" "honest_pool pl'" and s2: "(timely_step F)\<^sup>*\<^sup>* \<sigma>1 \<sigma>2" "only_moved me \<sigma> \<sigma>2" "fs_lock \<sigma>2 = fs_lock \<sigma>1"
      "fs_stage \<sigma>2 me = Passed" "passed_by F \<sigma>2 me" "answered_by F C me \<sigma>2" by force
  let ?s = "if a then Admitted else Refused"
  have "timely_step F \<sigma>2 (set_stage me ?s \<sigma>2)" using s2(4) by (intro timely_step.probe) auto
  with s2(1) have "(timely_step F)\<^sup>*\<^sup>* \<sigma>1 (set_stage me ?s \<sigma>2)" by (rule rtranclp.rtrancl_into_rtrancl)
  then show ?thesis
    using s2 only_moved_trans [OF s2(2) only_moved_stage] \<open>w' = w\<close> \<open>honest_pool pl'\<close>
    by (intro conjI exI [of _ "set_stage me ?s \<sigma>2"]) simp_all
next
  case False
  then have "\<not> a" using assms(7) by blast
  show ?thesis
  proof (cases "r = Ok False")
    case True
    then show ?thesis using CanPodBeDisrupted_run [OF assms(1-5)] assms(6) \<open>\<not> a\<close> by fastforce
  next
    case False
    then show ?thesis using CanPodBeDisrupted_failed [OF assms(3,2,4,6)] \<open>\<not> a\<close> by fastforce
  qed
qed

lemma admitted_run:
  assumes "ready F stored valid C me \<sigma>" "depicts F (world_at home (st_leases st) (snd (st_remote st))) \<sigma>"
    and "honest_pool (fst (st_remote st))" "checks_passed env h inp p x st st'"
  shows "\<exists>\<sigma>'. (timely_step F)\<^sup>*\<^sup>* \<sigma> \<sigma>' \<and> only_moved me \<sigma> \<sigma>' \<and>
    depicts F (world_at home (st_leases st') (snd (st_remote st'))) \<sigma>' \<and>
    fs_stage \<sigma>' me = Admitted \<and> covered F \<sigma>' me \<and> passed_by F \<sigma>' me \<and> answered_by F C me \<sigma>'"
proof -
  obtain pl w where st: "st_remote st = (pl, w)" by fastforce
  obtain s1 pl1 w1 pl2 w2 ps where
    lock: "Lock (we_leases env) (mesh_env m) (wh_lock h) (in_lockClk inp) (in_lockOrder inp) me (xpdb_namespace x)
      (spec_selector (xpdb_spec x)) (st_leases st, (pl, w)) = (Ok (), s1, (pl1, w1))"
    and can: "CanPodBeDisrupted (we_f2i env) (mesh_env m) (wh_pdb h) (in_stateOrder inp) p x (pl1, w1) = (Ok True, (pl2, w2))"
    and st': "st' = snd (accept h p x (st\<lparr>st_leases := s1, st_remote := (pl2, w2), st_probe := ps\<rparr>))"
    using assms(4) st network unfolding checks_passed_def by (metis surj_pair)
  from Lock_run [OF assms(1) _ _ lock] assms(2,3) st obtain \<sigma>1 where
    "honest_pool pl1" and s1: "(timely_step F)\<^sup>*\<^sup>* \<sigma> \<sigma>1" "only_moved me \<sigma> \<sigma>1" "depicts F (world_at home s1 w1) \<sigma>1"
      "fs_stage \<sigma>1 me = Counting" "fs_answer \<sigma>1 me = Map.empty" "covered F \<sigma>1 me" by force
  from verdict_run [OF assms(1) s1(2) this(1) s1(4,5) can, of True] obtain \<sigma>2 where
    "w2 = w1" and s2: "(timely_step F)\<^sup>*\<^sup>* \<sigma>1 \<sigma>2" "only_moved me \<sigma> \<sigma>2" "fs_lock \<sigma>2 = fs_lock \<sigma>1" "fs_stage \<sigma>2 me = Admitted"
      "passed_by F \<sigma>2 me" "answered_by F C me \<sigma>2" by auto
  have "st_leases st' = s1" "snd (st_remote st') = w1" using \<open>w2 = w1\<close> by (simp_all add: st' accept_def Eventf_def)
  then show ?thesis
    using rtranclp_trans [OF s1(1) s2(1)] s1(3,6) s2 by (intro exI [of _ \<sigma>2]) (simp add: depicts_def covered_def)
qed

lemma refused_run:
  assumes "ready F stored valid C me \<sigma>" "depicts F (world_at home (st_leases st) (snd (st_remote st))) \<sigma>"
    and "honest_pool (fst (st_remote st))" "spec_suspend (xpdb_spec x) \<noteq> Some True"
    and "handle_xpdb env h inp req p x st = (Ok resp, st')" "\<not> ar_allowed resp"
  shows "\<exists>\<sigma>'. (timely_step F)\<^sup>*\<^sup>* \<sigma> \<sigma>' \<and> only_moved me \<sigma> \<sigma>' \<and>
    depicts F (world_at home (st_leases st') (snd (st_remote st'))) \<sigma>' \<and> fs_stage \<sigma>' me \<in> {Refused, Ended}"
proof -
  obtain pl w where st: "st_remote st = (pl, w)" by fastforce
  obtain r s1 pl1 w1 where
    lock: "Lock (we_leases env) (mesh_env m) (wh_lock h) (in_lockClk inp) (in_lockOrder inp) me (xpdb_namespace x)
      (spec_selector (xpdb_spec x)) (st_leases st, (pl, w)) = (r, s1, (pl1, w1))" by (metis surj_pair)
  have np: "r \<noteq> Panic" using assms(4,5) lock st network by (auto simp: handle_xpdb_def Let_def)
  from Lock_run [OF assms(1) _ _ lock np] assms(2,3) st obtain \<sigma>1 where
    "honest_pool pl1" and s1: "(timely_step F)\<^sup>*\<^sup>* \<sigma> \<sigma>1" "only_moved me \<sigma> \<sigma>1" "depicts F (world_at home s1 w1) \<sigma>1"
      "fs_stage \<sigma>1 me = (if r = Ok () then Counting else Ended)" "fs_answer \<sigma>1 me = Map.empty"
      "r = Ok () \<longrightarrow> covered F \<sigma>1 me \<and> (\<forall>c\<in>fl_clusters F. valid (pr_store (fs_lock \<sigma>1 c)))" by force
  show ?thesis
  proof (cases "r = Ok ()")
    case False
    then have "st_leases st' = s1" "snd (st_remote st') = w1"
      using assms(4,5) lock st network np by (auto simp: handle_xpdb_def Let_def observe_def split: go.splits)
    then show ?thesis using s1 False by (intro exI [of _ \<sigma>1]) simp
  next
    case True
    then have "handle_budget env h inp req p x me (st\<lparr>st_leases := s1, st_remote := (pl1, w1)\<rparr>) = (Ok resp, st')"
      using assms(4,5) lock st network by (simp add: handle_xpdb_def Let_def)
    from handle_budget_release [OF this assms(6)] obtain st2 r2 where
      rel: "release env h inp me x st2 = (r2, st')" "st_leases st2 = s1"
        "st_remote st2 = snd (CanPodBeDisrupted (we_f2i env) (mesh_env m) (wh_pdb h) (in_stateOrder inp) p x (pl1, w1))"
      using network by auto
    obtain v pl2 w2 where can: "CanPodBeDisrupted (we_f2i env) (mesh_env m) (wh_pdb h) (in_stateOrder inp) p x (pl1, w1)
        = (v, (pl2, w2))" by (metis surj_pair)
    from verdict_run [OF assms(1) s1(2) \<open>honest_pool pl1\<close> _ s1(5) can, of False] s1(4) True obtain \<sigma>2 where
      "w2 = w1" "honest_pool pl2" and s2: "(timely_step F)\<^sup>*\<^sup>* \<sigma>1 \<sigma>2" "only_moved me \<sigma> \<sigma>2" "fs_lock \<sigma>2 = fs_lock \<sigma>1"
        "fs_stage \<sigma>2 me = Refused" by auto
    obtain r3 s3 pl3 w3 where un: "Unlock (we_leases env) (mesh_env m) (wh_lock h) (in_unlockNow inp) (in_unlockOrder inp)
        me (xpdb_namespace x) (spec_selector (xpdb_spec x)) (s1, (pl2, w1)) = (r3, s3, (pl3, w3))" by (metis surj_pair)
    have st': "st_leases st' = s3" "snd (st_remote st') = w3"
      using rel can un network \<open>w2 = w1\<close> by (auto simp: release_def)
    from Unlock_run [OF _ _ _ s2(4) \<open>honest_pool pl2\<close> un] s1(3,6) s2(3) True obtain \<sigma>3 where
      "(timely_step F)\<^sup>*\<^sup>* \<sigma>2 \<sigma>3" "only_moved me \<sigma>2 \<sigma>3" "depicts F (world_at home s3 w3) \<sigma>3" "fs_stage \<sigma>3 me = Refused"
      by (auto simp: covered_def depicts_def)
    then show ?thesis
      using rtranclp_trans [OF rtranclp_trans [OF s1(1) s2(1)]] only_moved_trans [OF s2(2)] st' by blast
  qed
qed

text \<open>The totals of the answers are those of the clusters.\<close>

lemma answered_counts:
  assumes "answered_by F C me \<sigma>" "fs_answer \<sigma>' me = fs_answer \<sigma> me" "c \<in> fl_clusters F"
  shows "\<exists>r. fs_answer \<sigma>' me c = Some r \<and> counts_of (cl_pdb (C c)) x = (sint (grs_desiredHealthy r), sint (grs_healthy r))"
  using assms budget by (fastforce simp: answered_by_def counts_of_def)

lemma answered_totals:
  assumes "answered_by F C me \<sigma>" "fs_answer \<sigma>' me = fs_answer \<sigma> me"
  shows "counted grs_desiredHealthy F \<sigma>' me = total_expected m (wh_pdb h) x"
    "counted grs_healthy F \<sigma>' me = total_healthy m (wh_pdb h) x"
proof -
  have eps: "set (ps_remoteEndpoints (wh_pdb h)) = set eps" using endpoints(1) by (simp add: configured_def)
  have sum: "(\<Sum>c\<in>fl_clusters F. f (counts_of (cl_pdb (C c)) x)) =
      f (counts_of (wh_pdb h) x) + (\<Sum>e\<in>set eps. f (counts_of (cl_pdb (ms_cluster m e)) x))" for f :: "int \<times> int \<Rightarrow> int"
    using clusters remote_cluster by simp
  have "counted grs_desiredHealthy F \<sigma>' me = (\<Sum>c\<in>fl_clusters F. fst (counts_of (cl_pdb (C c)) x))"
    "counted grs_healthy F \<sigma>' me = (\<Sum>c\<in>fl_clusters F. snd (counts_of (cl_pdb (C c)) x))"
    unfolding counted_def using answered_counts [OF assms] by (fastforce intro!: sum.cong)+
  then show "counted grs_desiredHealthy F \<sigma>' me = total_expected m (wh_pdb h) x"
    "counted grs_healthy F \<sigma>' me = total_healthy m (wh_pdb h) x"
    unfolding total_expected_def total_healthy_def eps by (simp_all only: sum)
qed

lemma answered_fit:
  assumes "answered_by F C me \<sigma>" "fs_answer \<sigma>' me = fs_answer \<sigma> me" "counts_fit m (wh_pdb h) x"
  shows "totals_fit F \<sigma>' me"
proof -
  have eps: "ps_remoteEndpoints (wh_pdb h) = eps" using endpoints(1) by (simp add: configured_def)
  have pos: "0 \<le> fst (counts_of (cl_pdb (C c)) x)" "0 \<le> snd (counts_of (cl_pdb (C c)) x)" if "c \<in> fl_clusters F" for c
    using assms(3) that clusters remote_cluster [of c] by (auto simp: counts_fit_def eps)
  have "0 \<le> sint (grs_desiredHealthy r) \<and> 0 \<le> sint (grs_healthy r)"
    if "c \<in> fl_clusters F" "fs_answer \<sigma>' me c = Some r" for c r
    using answered_counts [OF assms(1,2) that(1)] that(2) pos [OF that(1)] by auto
  then show ?thesis
    using assms(3) by (auto simp: totals_fit_def answered_totals [OF assms(1,2)] counts_fit_def)
qed

end

section \<open>An installation on revision-counter servers\<close>

text \<open>
  The two clusters of the sample installation with API servers that count revisions, as one webhook sees
  them and as a fleet.
\<close>

definition rev_mesh :: "rev_store mesh" where
  "rev_mesh =
     \<lparr>ms_cluster = (\<lambda>e. \<lparr>cl_client = rev_client, cl_lock = sample_lock [], cl_pdb = sample_pdb [] ''True'',
                         cl_clk = (1000, 2000, 3000), cl_now = 9000\<rparr>),
      ms_dial = sample_dial, ms_connect = (\<lambda>e. None), ms_request = (\<lambda>e. None), ms_reply = (\<lambda>e. None)\<rparr>"

definition rev_env :: "(rev_store, string, string \<Rightarrow> rev_store, unit, unit, nat) webhook_env" where
  "rev_env =
     \<lparr>we_leases = rev_client, we_rpc = mesh_env rev_mesh, we_probe = we_probe (sample_env ''True''),
      we_updatePod = (\<lambda>p n. (None, Suc n)), we_getPod = (\<lambda>k s. Inr (sample_pod ''db-0'' ''True'')),
      we_decodeRaw = (\<lambda>r. Inl (EMsg [])), we_f2i = (\<lambda>q. 0)\<rparr>"

definition rev_state :: "(rev_store, string, string \<Rightarrow> rev_store, unit, unit, nat) webhook_state" where
  "rev_state =
     \<lparr>st_leases = (Map.empty, 0), st_remote = (NewClientPool ''/certs'', \<lambda>e. (Map.empty, 0)),
      st_probe = (probe_NewClientPool ''/certs'', ()), st_pods = 0, st_metrics = no_metrics, st_events = []\<rparr>"

definition rev_locked :: "lock_service \<Rightarrow> rev_store" where
  "rev_locked svc =
     ([lock_key svc ''shop'' sample_selector \<mapsto> rev_lease svc ''shop'' sample_selector sample_identity 1000 1], 1)"

definition rev_admitted :: "(rev_store, string, string \<Rightarrow> rev_store, unit, unit, nat) webhook_state" where
  "rev_admitted = snd (accept (sample_webhook False) (sample_pod ''db-0'' ''True'') sample_xpdb
     (rev_state\<lparr>st_leases := rev_locked (sample_lock [''b:9643'']),
                st_remote := (sample_pool, (\<lambda>e. (Map.empty, 0))(''b:9643'' := rev_locked (sample_lock []))),
                st_probe := st_probe rev_state\<rparr>))"

definition code_fleet :: "rev_store fleet" where
  "code_fleet =
     demo_fleet\<lparr>fl_clusters := {''a'', ''b:9643''}, fl_pod := (\<lambda>p. sample_pod ''db-0'' ''True''),
                fl_lock := (\<lambda>c. if c = ''a'' then sample_lock [''b:9643''] else sample_lock [])\<rparr>"

definition code_start :: "rev_store fleet_state" where
  "code_start = demo_start\<lparr>fs_lock := (\<lambda>c. quiet\<lparr>pr_now := 2000\<rparr>)\<rparr>"

lemma rev_dialled:
  "state_pool_Get (re_dial (mesh_env rev_mesh)) (NewClientPool ''/certs'') ''b:9643'' = (Inr ''b:9643'', sample_pool)"
  by (simp add: state_pool_Get_def state_newClient_def dial_with_ca_def mesh_env_def rev_mesh_def sample_dial_def
      NewClientPool_def sample_pool_def)

lemma rev_remote_lock:
  "remoteLock (mesh_env rev_mesh) (sample_lock [''b:9643'']) [''b:9643''] sample_identity ''shop'' sample_selector
       (NewClientPool ''/certs'', \<lambda>e. (Map.empty, 0)) =
     (Ok (), (sample_pool, (\<lambda>e. (Map.empty, 0))(''b:9643'' := rev_locked (sample_lock []))))"
  by (simp add: remoteLock_def rpc_task_def rev_dialled)
    (simp add: mesh_env_def over_network_def rev_mesh_def stateServer_Lock_converted rev_lock_free rev_locked_def)

lemma rev_decision:
  "CanPodBeDisrupted f2i (mesh_env rev_mesh) (sample_pdb [''b:9643''] ''True'') [''b:9643'']
     (sample_pod ''db-0'' ''True'') sample_xpdb (sample_pool, w) = (Ok True, (sample_pool, w))"
proof -
  have "getRemotePodCounts (mesh_env rev_mesh) (sample_pdb [''b:9643''] ''True'') [''b:9643''] ''shop''
      sample_selector (sample_pool, w) = (Ok (2, 2), (sample_pool, w))"
    by (simp add: getRemotePodCounts_def state_task_def rpc_task_def sample_cached)
      (simp add: mesh_env_def over_network_def rev_mesh_def sample_get_state add_counts_def)
  then show ?thesis by (simp add: CanPodBeDisrupted_def sample_counts sample_verdicts)
qed

lemma rev_checks_passed:
  "checks_passed rev_env (sample_webhook False) sample_inputs (sample_pod ''db-0'' ''True'') sample_xpdb rev_state rev_admitted"
proof -
  let ?l = "rev_locked (sample_lock [''b:9643''])"
  let ?rs = "(sample_pool, (\<lambda>e. (Map.empty, 0))(''b:9643'' := rev_locked (sample_lock [])))"
  have "Lock (we_leases rev_env) (we_rpc rev_env) (wh_lock (sample_webhook False))
      (in_lockClk sample_inputs) (in_lockOrder sample_inputs)
      (lock_identity (sample_webhook False) sample_inputs (sample_pod ''db-0'' ''True''))
      (xpdb_namespace sample_xpdb) (spec_selector (xpdb_spec sample_xpdb))
      (st_leases rev_state, st_remote rev_state) = (Ok (), ?l, ?rs)"
    unfolding sample_identity_dry using rev_remote_lock
    by (simp add: Lock_Ok rev_env_def sample_webhook_def sample_inputs_def rev_state_def rev_lock_free rev_locked_def)
  moreover have "CanPodBeDisrupted (we_f2i rev_env) (we_rpc rev_env) (wh_pdb (sample_webhook False))
      (in_stateOrder sample_inputs) (sample_pod ''db-0'' ''True'') sample_xpdb ?rs = (Ok True, ?rs)"
    using rev_decision by (simp add: rev_env_def sample_webhook_def sample_inputs_def)
  ultimately show ?thesis
    unfolding checks_passed_def rev_admitted_def
    by (intro exI [of _ ?l] exI [of _ ?rs] exI [of _ "st_probe rev_state"]) (simp add: probe_wanted_def)
qed

lemma rev_decoded: "decodePod rev_env sample_request pods = Inr (sample_pod ''db-0'' ''True'')"
  by (simp add: decodePod_def sample_request_def rev_env_def)

lemma rev_handled:
  "\<exists>resp. Handle rev_env (sample_webhook False) sample_inputs sample_request rev_state = (Ok resp, rev_admitted) \<and> ar_allowed resp"
  unfolding Handle_allowed admits_def
  using rev_checks_passed sample_not_exempt sample_xpdbs by (simp add: rev_decoded sample_webhook_def)

lemma code_fleet_simps [simp]:
  "fl_clusters code_fleet = {''a'', ''b:9643''}" "fl_client code_fleet c = rev_client" "fl_skew code_fleet = 1000000"
  "fl_namespace code_fleet = ''shop''" "fl_selector code_fleet = sample_selector" "fl_home code_fleet p = ''a''"
  "fl_xpdb code_fleet p = sample_xpdb" "fl_pod code_fleet p = sample_pod ''db-0'' ''True''" "fl_f2i code_fleet = (\<lambda>q. 0)"
  "fl_lock code_fleet c = (if c = ''a'' then sample_lock [''b:9643''] else sample_lock [])"
  by (simp_all add: code_fleet_def)

interpretation code_installed: installed code_fleet rev_env "sample_webhook False" sample_inputs rev_mesh "[''b:9643'']" "''a''"
    "sample_pod ''db-0'' ''True''" sample_xpdb fst rev_wf
  by (rule installed.intro)
    (auto simp: cluster_at_def rev_env_def rev_mesh_def sample_webhook_def sample_inputs_def configured_def rev.lease_store_axioms)

lemma code_ready:
  "ready code_fleet fst rev_wf (cluster_at rev_env (sample_webhook False) sample_inputs rev_mesh ''a'') sample_identity code_start"
proof -
  have "cluster_reader (ps_reader (sample_pdb eps ''True'')) demo_pods [sample_xpdb]" for eps
    by (simp add: sample_pdb_def sample_reader_def demo_pods_def fake_list.cluster_reader_axioms)
  then show ?thesis
    using rev_wf_quiet by (auto simp: ready_def ready_in_def code_start_def cluster_at_def rev_mesh_def sample_webhook_def
        sample_inputs_def quiet_def reads_def demo_start_def)
qed

lemma code_depicts: "depicts code_fleet (world_at ''a'' (st_leases rev_state) (snd (st_remote rev_state))) code_start"
  by (simp add: depicts_def world_at_def code_start_def rev_state_def quiet_def)

lemma code_reach: "fleet_reach code_fleet (\<lambda>c. rev_wf) code_start"
proof (rule fleet_reach.init)
  have "distinct (map pod_key demo_pods)" by (simp add: demo_pods_def pod_key_def sample_pod_def)
  then show "\<forall>c\<in>fl_clusters code_fleet. rev_wf (pr_store (fs_lock code_start c)) \<and>
      (\<forall>q. pr_pc (fs_lock code_start c) q = Idle) \<and> distinct (map pod_key (fs_pods code_start c))"
    using rev_wf_quiet by (simp add: quiet_def code_start_def)
qed (simp add: code_start_def)

interpretation code_stored: stored_fleet code_fleet "\<lambda>c. fst" "\<lambda>c. rev_wf" "\<lambda>c. rev_used"
  by (rule stored_fleet.intro) (simp_all add: rev.fresh_store_axioms)

section \<open>Properties\<close>

text \<open>
  C4. The handler runs as a request of the fleet. Whatever \<^verbatim>\<open>Handle\<close> answers for a pod with one active budget,
  there is a run of the fleet from the state the request found to one with the same leases in every cluster as
  the handler leaves behind, in which nothing but this request has moved. When the handler admits, the request
  is admitted there, within all its locks and by the verdict over the answers of all clusters; when it refuses, by
  the budget, by the probe, by a failed count or by a lock that was not obtained, with lost calls and failed
  releases included, the request is refused or over there.
\<close>

theorem handler_runs_as_fleet:
  assumes "installed F env h inp m eps home p x stored valid"
    and "ready F stored valid (cluster_at env h inp m home) (lock_identity h inp p) \<sigma>"
    and "depicts F (world_at home (st_leases st) (snd (st_remote st))) \<sigma>" "honest_pool (fst (st_remote st))"
    and "decodePod env req (st_pods st) = Inr p" "\<not> exempt p" "\<not> has_preactivity p"
    and "GetXPdbsForPod (wh_pdb h) p = Inr [x]" "spec_suspend (xpdb_spec x) \<noteq> Some True"
    and "Handle env h inp req st = (Ok resp, st')"
  shows "\<exists>\<sigma>'. (timely_step F)\<^sup>*\<^sup>* \<sigma> \<sigma>' \<and> only_moved (lock_identity h inp p) \<sigma> \<sigma>' \<and>
    depicts F (world_at home (st_leases st') (snd (st_remote st'))) \<sigma>' \<and>
    (if ar_allowed resp
     then fs_stage \<sigma>' (lock_identity h inp p) = Admitted \<and> covered F \<sigma>' (lock_identity h inp p) \<and>
       passed_by F \<sigma>' (lock_identity h inp p)
     else fs_stage \<sigma>' (lock_identity h inp p) \<in> {Refused, Ended})"
proof -
  have handle: "handle_xpdb env h inp req p x st = (Ok resp, st')"
    using assms(10) Handle_one_xpdb [OF assms(5-8)] by simp
  show ?thesis
  proof (cases "ar_allowed resp")
    case True
    then have "checks_passed env h inp p x st st'"
      using handle handle_xpdb_allowed [of env h inp req p x st st'] assms(9) by auto
    from installed.admitted_run [OF assms(1-4) this] True show ?thesis by auto
  next
    case False
    from installed.refused_run [OF assms(1-4,9) handle False] False show ?thesis by auto
  qed
qed

theorem handler_runs_as_fleet_witness:
  "\<exists>\<sigma>'. (timely_step code_fleet)\<^sup>*\<^sup>* code_start \<sigma>' \<and> fs_stage \<sigma>' sample_identity = Admitted \<and> covered code_fleet \<sigma>' sample_identity \<and>
     depicts code_fleet (world_at ''a'' (st_leases rev_admitted) (snd (st_remote rev_admitted))) \<sigma>'"
proof -
  obtain resp where h: "Handle rev_env (sample_webhook False) sample_inputs sample_request rev_state = (Ok resp, rev_admitted)"
    "ar_allowed resp" using rev_handled by blast
  have "GetXPdbsForPod (wh_pdb (sample_webhook False)) (sample_pod ''db-0'' ''True'') = Inr [sample_xpdb]"
    using sample_xpdbs by (simp add: sample_webhook_def)
  from handler_runs_as_fleet [OF code_installed.installed_axioms _ code_depicts _ rev_decoded sample_not_exempt this _ h(1)]
  show ?thesis using code_ready h(2) by (auto simp: rev_state_def honest_pool_new)
qed

text \<open>
  C2. A disruption that the handler admits keeps the budget under concurrency. When \<^verbatim>\<open>Handle\<close> admits a
  request in a state that the fleet reaches with deletes in time, the fleet can be where the handler has left it; and however the
  other requests and the pods move on from there, as long as no lease is deleted by a holder that is no longer sure of it
  (\<open>deletes_in_time\<close>), and less than five seconds (less twice the clock skew and a
  microsecond) have passed since the request came in, carrying the disruption out leaves as many healthy pods
  over all clusters as the budget requires of the pods that the clusters expect. Excepted are pods that were lost
  since the request came in, without the webhook or by disruptions that were carried out when the locks of their own
  requests had run out, and the pod itself when it has become healthy since. That deletes are in time is not
  ensured by the code.
\<close>

theorem admitted_by_handler_keeps_budget:
  assumes "installed F env h inp m eps home p x stored valid" "stored_fleet F (\<lambda>c. stored) (\<lambda>c. valid) used"
    and "fleet_reach F (\<lambda>c. valid) \<sigma>" "fleet_fit F (\<lambda>c. stored) \<sigma>"
    and "ready F stored valid (cluster_at env h inp m home) (lock_identity h inp p) \<sigma>"
    and "depicts F (world_at home (st_leases st) (snd (st_remote st))) \<sigma>" "honest_pool (fst (st_remote st))"
    and "decodePod env req (st_pods st) = Inr p" "\<not> exempt p"
    and "GetXPdbsForPod (wh_pdb h) p = Inr [x]" "spec_suspend (xpdb_spec x) \<noteq> Some True"
    and "sane_budget (xpdb_spec x)" "counts_fit m (wh_pdb h) x"
    and "Handle env h inp req st = (Ok resp, st')" "ar_allowed resp"
  shows "\<exists>\<sigma>'. (timely_step F)\<^sup>*\<^sup>* \<sigma> \<sigma>' \<and> only_moved (lock_identity h inp p) \<sigma> \<sigma>' \<and>
    depicts F (world_at home (st_leases st') (snd (st_remote st'))) \<sigma>' \<and> fs_stage \<sigma>' (lock_identity h inp p) = Admitted \<and>
    (\<forall>\<sigma>'' t. timely_run F \<sigma>' \<sigma>'' \<and> fs_stage \<sigma>'' (lock_identity h inp p) = Admitted \<and> prompt F \<sigma> \<sigma>'' \<longrightarrow>
       required_healthy (xpdb_spec x) (total_expected m (wh_pdb h) x) \<le>
         (\<Sum>c\<in>fl_clusters F. live F (disrupt F (lock_identity h inp p) t \<sigma>'') c) + (\<Sum>c\<in>fl_clusters F. fs_lost \<sigma>'' c - fs_lost \<sigma> c) +
         of_bool (pod_is_healthy F \<sigma>'' (lock_identity h inp p) \<and> \<not> IsPodReady p))"
proof -
  let ?me = "lock_identity h inp p"
  have "admits env h inp req st st'" using assms(14,15) Handle_allowed by blast
  then have "checks_passed env h inp p x st st'" using assms(8-11) by (simp add: admits_def)
  from installed.admitted_run [OF assms(1,5-7) this] obtain \<sigma>' where
    run: "(timely_step F)\<^sup>*\<^sup>* \<sigma> \<sigma>'" and one: "only_moved ?me \<sigma> \<sigma>'" and adm: "fs_stage \<sigma>' ?me = Admitted"
    and ans: "answered_by F (cluster_at env h inp m home) ?me \<sigma>'"
    and dep: "depicts F (world_at home (st_leases st') (snd (st_remote st'))) \<sigma>'" by blast
  have "required_healthy (xpdb_spec x) (total_expected m (wh_pdb h) x) \<le>
      (\<Sum>c\<in>fl_clusters F. live F (disrupt F ?me t \<sigma>'') c) + (\<Sum>c\<in>fl_clusters F. fs_lost \<sigma>'' c - fs_lost \<sigma> c) +
      of_bool (pod_is_healthy F \<sigma>'' ?me \<and> \<not> IsPodReady p)"
    if on: "(timely_step F)\<^sup>*\<^sup>* \<sigma>' \<sigma>''" "fs_stage \<sigma>'' ?me = Admitted" "prompt F \<sigma> \<sigma>''" for \<sigma>'' t
  proof -
    have run': "(timely_step F)\<^sup>*\<^sup>* \<sigma> \<sigma>''" using run on(1) by (rule rtranclp_trans)
    have fresh: "fs_stage \<sigma> ?me = Fresh" using assms(5) by (simp add: ready_def)
    have cov: "covered F \<sigma>'' ?me" using stored_fleet.prompt_covered [OF assms(2-4) fresh run'] on(2,3) by simp
    have kept: "fs_answer \<sigma>'' ?me = fs_answer \<sigma>' ?me" "fs_base \<sigma>'' ?me = fs_base \<sigma>' ?me"
      using answers_stay [OF on(1) adm] by blast+
    have "(\<Sum>c\<in>fl_clusters F. fs_lost \<sigma>'' c - fs_base \<sigma>'' ?me c) = (\<Sum>c\<in>fl_clusters F. fs_lost \<sigma>'' c - fs_lost \<sigma> c)"
      using ans one kept(2) by (intro sum.cong) (auto simp: answered_by_def only_moved_def)
    then show ?thesis
      using stored_fleet.disruption_within_budget [OF assms(2) fleet_reach_steps [OF assms(3) run'] on(2) cov _
          installed.answered_fit [OF assms(1) ans kept(1) assms(13)]] assms(12)
        installed.own [OF assms(1)] installed.answered_totals(1) [OF assms(1) ans kept(1)] by simp
  qed
  with run one adm dep show ?thesis unfolding timely_run_iff by blast
qed

theorem admitted_by_handler_keeps_budget_witness:
  "\<exists>\<sigma>'. (timely_step code_fleet)\<^sup>*\<^sup>* code_start \<sigma>' \<and> fs_stage \<sigma>' sample_identity = Admitted \<and>
     required_healthy sample_spec 4 \<le> (\<Sum>c\<in>{''a'', ''b:9643''}. live code_fleet (disrupt code_fleet sample_identity 7 \<sigma>') c)"
proof -
  obtain resp where h: "Handle rev_env (sample_webhook False) sample_inputs sample_request rev_state = (Ok resp, rev_admitted)"
    "ar_allowed resp" using rev_handled by blast
  have xs: "GetXPdbsForPod (wh_pdb (sample_webhook False)) (sample_pod ''db-0'' ''True'') = Inr [sample_xpdb]"
    using sample_xpdbs by (simp add: sample_webhook_def)
  have counts: "counts_of (sample_pdb eps ''True'') sample_xpdb = (2, 2)" for eps by (simp add: counts_of_def sample_counts)
  have total: "total_expected rev_mesh (wh_pdb (sample_webhook False)) sample_xpdb = 4"
    and fit: "counts_fit rev_mesh (wh_pdb (sample_webhook False)) sample_xpdb"
    by (simp_all add: total_expected_def total_healthy_def counts_fit_def counts sample_webhook_def rev_mesh_def)
  have ready: "IsPodReady (sample_pod ''db-0'' ''True'')" by code_simp
  have fitting: "fleet_fit code_fleet (\<lambda>c. fst) code_start"
    by (simp add: fleet_fit_def leases_fit_def quiet_def read_lease_def code_start_def)
  have "honest_pool (fst (st_remote rev_state))" by (simp add: rev_state_def honest_pool_new)
  from admitted_by_handler_keeps_budget [OF code_installed.installed_axioms code_stored.stored_fleet_axioms code_reach fitting _
      code_depicts this rev_decoded sample_not_exempt(1) xs _ sample_budget_sane fit h] code_ready total ready
  obtain \<sigma>' where run: "(timely_step code_fleet)\<^sup>*\<^sup>* code_start \<sigma>'" "fs_stage \<sigma>' sample_identity = Admitted"
    and one: "only_moved sample_identity code_start \<sigma>'"
    and le: "\<And>\<sigma>'' t. timely_run code_fleet \<sigma>' \<sigma>'' \<Longrightarrow> fs_stage \<sigma>'' sample_identity = Admitted \<Longrightarrow> prompt code_fleet code_start \<sigma>'' \<Longrightarrow>
       required_healthy (xpdb_spec sample_xpdb) 4 \<le>
         (\<Sum>c\<in>fl_clusters code_fleet. live code_fleet (disrupt code_fleet sample_identity t \<sigma>'') c) +
         (\<Sum>c\<in>fl_clusters code_fleet. fs_lost \<sigma>'' c - fs_lost code_start c)"
    by auto
  have "prompt code_fleet code_start \<sigma>'" using one by (simp add: prompt_def only_moved_def moved_def duration_ns_def)
  with run le [of \<sigma>' 7] one show ?thesis by (auto simp: only_moved_def sample_xpdb_def timely_run_iff)
qed

end
