(* ===== verification/Wire_Handler.thy ===== *)
theory Wire_Handler
  imports State_Rpc Mesh_Release
begin

text \<open>
  The handler over the wire. In the mesh (\<^const>\<open>mesh_env\<close>) the remote calls of a cluster are the methods of
  the peer's state server; in truth they go through the generated client stub, the codec, the bytes on
  the network, the codec of the peer and the generated handler. Here the handler is run on these calls,
  and it is shown that nothing changes as long as what is sent is text within the receive limit.
\<close>

section \<open>The remote calls through stubs and bytes\<close>

definition wire_env :: "err_text \<Rightarrow> 's mesh \<Rightarrow> (string, string \<Rightarrow> 's) rpc_env" where
  "wire_env show_err m =
     (mesh_env m)
       \<lparr>re_Lock := (\<lambda>e. \<lambda>req. over_network m e (stateServiceClient_Lock show_err
          (stateServer_Lock (cl_client (ms_cluster m e)) (cl_lock (ms_cluster m e)) (cl_clk (ms_cluster m e))) req)),
        re_Unlock := (\<lambda>e. \<lambda>req. over_network m e (stateServiceClient_Unlock show_err
          (stateServer_Unlock (cl_client (ms_cluster m e)) (cl_lock (ms_cluster m e)) (cl_now (ms_cluster m e))) req)),
        re_GetState := (\<lambda>e. \<lambda>req. over_network m e (stateServiceClient_GetState show_err
          (\<lambda>q s. (stateServer_GetState (cl_pdb (ms_cluster m e)) q, s)) req))\<rparr>"

text \<open>The three requests that the handler makes for a budget.\<close>

definition lock_request_for :: "string \<Rightarrow> xpdb \<Rightarrow> lock_request" where
  "lock_request_for me x =
     \<lparr>lrq_leaseHolderIdentity = me, lrq_namespace = xpdb_namespace x,
      lrq_labelSelector = Some (ConvertLabelSelectorToState (spec_selector (xpdb_spec x)))\<rparr>"

definition unlock_request_for :: "string \<Rightarrow> xpdb \<Rightarrow> unlock_request" where
  "unlock_request_for me x =
     \<lparr>urq_leaseHolderIdentity = me, urq_namespace = xpdb_namespace x,
      urq_labelSelector = Some (ConvertLabelSelectorToState (spec_selector (xpdb_spec x)))\<rparr>"

definition get_state_request_for :: "xpdb \<Rightarrow> get_state_request" where
  "get_state_request_for x =
     \<lparr>grq_namespace = xpdb_namespace x, grq_labelSelector = Some (ConvertLabelSelectorToState (spec_selector (xpdb_spec x)))\<rparr>"

text \<open>They can be sent: their strings are UTF-8, and they are within the receive limit.\<close>

definition budget_sendable :: "string \<Rightarrow> xpdb \<Rightarrow> bool" where
  "budget_sendable me x \<longleftrightarrow>
     lock_request_sendable (lock_request_for me x) \<and>
     sizePointer LockRequest_fields (Some (lock_request_for me x)) \<le> maxReceiveMessageSize \<and>
     unlock_request_sendable (unlock_request_for me x) \<and>
     sizePointer UnlockRequest_fields (Some (unlock_request_for me x)) \<le> maxReceiveMessageSize \<and>
     get_state_request_sendable (get_state_request_for x) \<and>
     sizePointer GetStateRequest_fields (Some (get_state_request_for x)) \<le> maxReceiveMessageSize"

text \<open>
  A peer answers with text: the replies of its state server to the lock and to the unlock request, on
  the leases it has and on those it has after the lock request. The error of a reply is a text
  that is made from errors of its API server.
\<close>

definition lock_reply_sendable :: "go_err + lock_response \<Rightarrow> bool" where
  "lock_reply_sendable r =
     (case r of
        Inl _ \<Rightarrow> True
      | Inr res \<Rightarrow> lock_response_sendable res \<and> sizePointer LockResponse_fields (Some res) \<le> maxReceiveMessageSize)"

definition unlock_reply_sendable :: "go_err + unlock_response \<Rightarrow> bool" where
  "unlock_reply_sendable r =
     (case r of
        Inl _ \<Rightarrow> True
      | Inr res \<Rightarrow> unlock_response_sendable res \<and> sizePointer UnlockResponse_fields (Some res) \<le> maxReceiveMessageSize)"

definition answers_in_text :: "'s cluster \<Rightarrow> string \<Rightarrow> xpdb \<Rightarrow> 's \<Rightarrow> bool" where
  "answers_in_text c me x s \<longleftrightarrow>
     (let locked = stateServer_Lock (cl_client c) (cl_lock c) (cl_clk c) (lock_request_for me x) s;
          unlock = stateServer_Unlock (cl_client c) (cl_lock c) (cl_now c) (unlock_request_for me x)
      in lock_reply_sendable (fst locked) \<and> unlock_reply_sendable (fst (unlock s)) \<and>
         unlock_reply_sendable (fst (unlock (snd locked))))"

lemma lock_call_over_wire:
  assumes "budget_sendable me x" "lock_reply_sendable (fst (srv (lock_request_for me x) s))"
  shows "stateServiceClient_Lock show_err srv (lock_request_for me x) s = srv (lock_request_for me x) s"
  unfolding stateServiceClient_Lock_def StateService_Lock_Handler_def
  using assms by (intro lock_rpc.transparent) (auto simp: budget_sendable_def lock_reply_sendable_def)

lemma unlock_call_over_wire:
  assumes "budget_sendable me x" "unlock_reply_sendable (fst (srv (unlock_request_for me x) s))"
  shows "stateServiceClient_Unlock show_err srv (unlock_request_for me x) s = srv (unlock_request_for me x) s"
  unfolding stateServiceClient_Unlock_def StateService_Unlock_Handler_def
  using assms by (intro unlock_rpc.transparent) (auto simp: budget_sendable_def unlock_reply_sendable_def)

lemma get_state_call_over_wire:
  assumes "budget_sendable me x"
  shows "stateServiceClient_GetState show_err srv (get_state_request_for x) = srv (get_state_request_for x)"
  unfolding stateServiceClient_GetState_def StateService_GetState_Handler_def fun_eq_iff
  using assms get_state_response_deliverable
  by (intro allI get_state_rpc.transparent) (auto simp: budget_sendable_def)

section \<open>The services over the wire\<close>

text \<open>Two ways to call the peers that agree on the state of every peer give the same pool run.\<close>

lemma pool_run_agree:
  assumes "honest_pool pl" "distinct order" "\<forall>e\<in>set order. f e (w e) = g e (w e)"
  shows "pool_run (rpc_task (re_dial (mesh_env m)) (\<lambda>cli. over_network m cli (f cli))) order (pl, w) =
    pool_run (rpc_task (re_dial (mesh_env m)) (\<lambda>cli. over_network m cli (g cli))) order (pl, w)"
  using assms
proof (induction order arbitrary: pl w)
  case (Cons e es)
  let ?f = "rpc_task (re_dial (mesh_env m)) (\<lambda>cli. over_network m cli (f cli))"
    and ?g = "rpc_task (re_dial (mesh_env m)) (\<lambda>cli. over_network m cli (g cli))"
  obtain c pl0 where dial: "state_pool_Get (re_dial (mesh_env m)) pl e = (c, pl0)" by fastforce
  have same: "?f e (pl, w) = ?g e (pl, w)"
  proof (cases c)
    case (Inr cli)
    then have "cli = e" by (rule honest_pool_Get(2) [OF Cons.prems(1) dial])
    then show ?thesis using dial Inr Cons.prems(3) by (simp add: rpc_task_def over_network_def cong: option.case_cong)
  qed (simp add: rpc_task_def dial)
  obtain r pl1 w1 where t: "?g e (pl, w) = (r, (pl1, w1))" by (metis surj_pair)
  note t' = mesh_task [OF Cons.prems(1) t]
  have "\<forall>e'\<in>set es. f e' (w1 e') = g e' (w1 e')" using Cons.prems(2,3) t'(2) by force
  then have "pool_run ?f es (pl1, w1) = pool_run ?g es (pl1, w1)" using Cons.IH [OF t'(1)] Cons.prems(2) by simp
  then show ?case using same t by (cases r) simp_all
qed simp

lemma wire_env_dial [simp]: "re_dial (wire_env show_err m) = re_dial (mesh_env m)"
  by (simp add: wire_env_def)

lemma remoteLock_over_wire:
  assumes "budget_sendable me x" "honest_pool pl" "distinct order"
    and "\<forall>e\<in>set order. answers_in_text (ms_cluster m e) me x (w e)"
  shows "remoteLock (wire_env show_err m) svc order me (xpdb_namespace x) (spec_selector (xpdb_spec x)) (pl, w) =
    remoteLock (mesh_env m) svc order me (xpdb_namespace x) (spec_selector (xpdb_spec x)) (pl, w)"
proof -
  let ?srv = "\<lambda>e. stateServer_Lock (cl_client (ms_cluster m e)) (cl_lock (ms_cluster m e)) (cl_clk (ms_cluster m e))"
  have "pool_run (rpc_task (re_dial (mesh_env m)) (\<lambda>cli. over_network m cli (stateServiceClient_Lock show_err (?srv cli)
        (lock_request_for me x)))) order (pl, w) =
      pool_run (rpc_task (re_dial (mesh_env m)) (\<lambda>cli. over_network m cli (?srv cli (lock_request_for me x)))) order (pl, w)"
    using assms(4) by (intro pool_run_agree [OF assms(2,3)] ballI lock_call_over_wire [OF assms(1)])
      (simp add: answers_in_text_def Let_def)
  then show ?thesis by (simp add: remoteLock_def wire_env_def mesh_env_def lock_request_for_def)
qed

lemma remoteUnlock_over_wire:
  assumes "budget_sendable me x" "honest_pool pl" "distinct order"
    and "\<forall>e\<in>set order. unlock_reply_sendable (fst (stateServer_Unlock (cl_client (ms_cluster m e)) (cl_lock (ms_cluster m e))
      (cl_now (ms_cluster m e)) (unlock_request_for me x) (w e)))"
  shows "remoteUnlock (wire_env show_err m) svc order me (xpdb_namespace x) (spec_selector (xpdb_spec x)) (pl, w) =
    remoteUnlock (mesh_env m) svc order me (xpdb_namespace x) (spec_selector (xpdb_spec x)) (pl, w)"
proof -
  let ?srv = "\<lambda>e. stateServer_Unlock (cl_client (ms_cluster m e)) (cl_lock (ms_cluster m e)) (cl_now (ms_cluster m e))"
  have "pool_run (rpc_task (re_dial (mesh_env m)) (\<lambda>cli. over_network m cli (stateServiceClient_Unlock show_err (?srv cli)
        (unlock_request_for me x)))) order (pl, w) =
      pool_run (rpc_task (re_dial (mesh_env m)) (\<lambda>cli. over_network m cli (?srv cli (unlock_request_for me x)))) order (pl, w)"
    using assms(4) by (intro pool_run_agree [OF assms(2,3)] ballI unlock_call_over_wire [OF assms(1)]) simp
  then show ?thesis by (simp add: remoteUnlock_def wire_env_def mesh_env_def unlock_request_for_def)
qed

lemma CanPodBeDisrupted_over_wire:
  assumes "budget_sendable me x"
  shows "CanPodBeDisrupted f2i (wire_env show_err m) svc order p x rs = CanPodBeDisrupted f2i (mesh_env m) svc order p x rs"
proof -
  have call: "stateServiceClient_GetState show_err (\<lambda>q s. (stateServer_GetState c q, s)) (get_state_request_for x) =
      (\<lambda>s. (stateServer_GetState c (get_state_request_for x), s))" for c :: pdb_service
    by (rule get_state_call_over_wire [OF assms])
  have "state_task (wire_env show_err m) (xpdb_namespace x) (spec_selector (xpdb_spec x)) =
      state_task (mesh_env m) (xpdb_namespace x) (spec_selector (xpdb_spec x))"
    by (simp add: state_task_def wire_env_def mesh_env_def call [unfolded get_state_request_for_def])
  then show ?thesis by (simp add: CanPodBeDisrupted_def getRemotePodCounts_def)
qed

section \<open>The handler over the wire\<close>

lemma decodePod_rpc: "decodePod (env\<lparr>we_rpc := rpc\<rparr>) = decodePod env"
  by (simp add: decodePod_def fun_eq_iff)

text \<open>The handler and two environments that differ in the remote calls only.\<close>

lemma release_agree:
  assumes "Unlock (we_leases env) (we_rpc env) (wh_lock h) (in_unlockNow inp) (in_unlockOrder inp) me (xpdb_namespace x)
      (spec_selector (xpdb_spec x)) (st_leases st, st_remote st) =
    Unlock (we_leases env) rpc (wh_lock h) (in_unlockNow inp) (in_unlockOrder inp) me (xpdb_namespace x)
      (spec_selector (xpdb_spec x)) (st_leases st, st_remote st)"
  shows "release env h inp me x st = release (env\<lparr>we_rpc := rpc\<rparr>) h inp me x st"
  using assms by (simp add: release_def)

lemma handle_budget_agree:
  assumes can: "CanPodBeDisrupted (we_f2i env) (we_rpc env) (wh_pdb h) (in_stateOrder inp) p x (st_remote st) = (r, rs1)"
      "CanPodBeDisrupted (we_f2i env) rpc (wh_pdb h) (in_stateOrder inp) p x (st_remote st) = (r, rs1)"
    and un: "Unlock (we_leases env) (we_rpc env) (wh_lock h) (in_unlockNow inp) (in_unlockOrder inp) me (xpdb_namespace x)
      (spec_selector (xpdb_spec x)) (st_leases st, rs1) =
    Unlock (we_leases env) rpc (wh_lock h) (in_unlockNow inp) (in_unlockOrder inp) me (xpdb_namespace x)
      (spec_selector (xpdb_spec x)) (st_leases st, rs1)"
  shows "handle_budget env h inp req p x me st = handle_budget (env\<lparr>we_rpc := rpc\<rparr>) h inp req p x me st"
proof -
  let ?env = "env\<lparr>we_rpc := rpc\<rparr>"
  have rel: "release env h inp me x st' = release ?env h inp me x st'"
    if "st_leases st' = st_leases st" "st_remote st' = rs1" for st'
    using un that by (intro release_agree) simp
  have err: "handleError env h inp (Some x) d e me st' = handleError ?env h inp (Some x) d e me st'"
    if "st_leases st' = st_leases st" "st_remote st' = rs1" for d e st'
    using rel [OF that] by (simp add: handleError_def)
  have no: "handleNotAllowedDisruption env h inp req (Some x) p me t st' = handleNotAllowedDisruption ?env h inp req (Some x) p me t st'"
    if "st_leases st' = st_leases st" "st_remote st' = rs1" for t st'
    using that by (simp add: handleNotAllowedDisruption_def rel observe_def Eventf_def)
  have "handle_probe env h inp req p x me (st\<lparr>st_remote := rs1\<rparr>) = handle_probe ?env h inp req p x me (st\<lparr>st_remote := rs1\<rparr>)"
    by (simp add: handle_probe_def Let_def err no split: prod.splits sum.splits)
  then show ?thesis
    using can by (simp add: handle_budget_def Let_def err no split: go.splits)
qed

text \<open>The peers answer in text as long as the request goes on.\<close>

lemma stateServer_Lock_leases:
  "snd (stateServer_Lock c svc clk (lock_request_for me x) s) =
    snd (LocalLock c svc clk me (xpdb_namespace x) (spec_selector (xpdb_spec x)) s)"
  unfolding lock_request_for_def stateServer_Lock_converted by (auto split: prod.splits go.splits)

lemma Unlock_over_wire:
  assumes "budget_sendable me x" "honest_pool pl" "distinct order"
    and "\<forall>e\<in>set order. answers_in_text (ms_cluster m e) me x (w0 e)"
    and "\<forall>e. w e = w0 e \<or> w e = snd (LocalLock (cl_client (ms_cluster m e)) (cl_lock (ms_cluster m e)) (cl_clk (ms_cluster m e)) me
      (xpdb_namespace x) (spec_selector (xpdb_spec x)) (w0 e))"
  shows "Unlock c (mesh_env m) svc now order me (xpdb_namespace x) (spec_selector (xpdb_spec x)) (s, (pl, w)) =
    Unlock c (wire_env show_err m) svc now order me (xpdb_namespace x) (spec_selector (xpdb_spec x)) (s, (pl, w))"
proof -
  have "\<forall>e\<in>set order. unlock_reply_sendable (fst (stateServer_Unlock (cl_client (ms_cluster m e))
      (cl_lock (ms_cluster m e)) (cl_now (ms_cluster m e)) (unlock_request_for me x) (w e)))"
  proof
    fix e
    assume "e \<in> set order"
    then have "answers_in_text (ms_cluster m e) me x (w0 e)" using assms(4) by blast
    then show "unlock_reply_sendable (fst (stateServer_Unlock (cl_client (ms_cluster m e))
        (cl_lock (ms_cluster m e)) (cl_now (ms_cluster m e)) (unlock_request_for me x) (w e)))"
      using assms(5) [rule_format, of e] by (auto simp: answers_in_text_def Let_def stateServer_Lock_leases)
  qed
  from remoteUnlock_over_wire [OF assms(1-3) this] show ?thesis by (simp only: Unlock_def prod.case)
qed

lemma Lock_over_wire:
  assumes "budget_sendable me x" "honest_pool pl" "distinct order"
    and "\<forall>e\<in>set order. answers_in_text (ms_cluster m e) me x (w e)"
  shows "Lock c (mesh_env m) svc clk order me (xpdb_namespace x) (spec_selector (xpdb_spec x)) (s, (pl, w)) =
    Lock c (wire_env show_err m) svc clk order me (xpdb_namespace x) (spec_selector (xpdb_spec x)) (s, (pl, w))"
  by (simp only: Lock_def prod.case remoteLock_over_wire [OF assms])

lemma Lock_world:
  assumes "Lock c (mesh_env m) svc clk order me ns sel (s, (pl, w)) = (r, s1, (pl1, w1))" "honest_pool pl" "distinct order"
  shows "honest_pool pl1 \<and> (\<forall>e. w1 e = w e \<or> w1 e = snd (LocalLock (cl_client (ms_cluster m e)) (cl_lock (ms_cluster m e))
    (cl_clk (ms_cluster m e)) me ns sel (w e)))"
proof (cases "pl1 = pl \<and> w1 = w")
  case False
  then obtain q where "remoteLock (mesh_env m) svc order me ns sel (pl, w) = (q, (pl1, w1))"
    using assms(1) by (auto simp: Lock_def split: go.splits prod.splits if_splits)
  from remoteLock_run [OF this assms(2,3)] show ?thesis by blast
qed (use assms(2) in simp)

lemma handle_xpdb_over_wire:
  assumes "we_rpc env = mesh_env m" "budget_sendable (lock_identity h inp p) x" "honest_pool (fst (st_remote st))"
    and "distinct (in_lockOrder inp)" "distinct (in_unlockOrder inp)"
    and "\<forall>e\<in>set (in_lockOrder inp) \<union> set (in_unlockOrder inp).
      answers_in_text (ms_cluster m e) (lock_identity h inp p) x (snd (st_remote st) e)"
  shows "handle_xpdb env h inp req p x st = handle_xpdb (env\<lparr>we_rpc := wire_env show_err m\<rparr>) h inp req p x st"
proof -
  let ?me = "lock_identity h inp p" and ?ns = "xpdb_namespace x" and ?sel = "spec_selector (xpdb_spec x)"
  obtain pl w where st: "st_remote st = (pl, w)" by fastforce
  obtain r s1 pl1 w1 where lock: "Lock (we_leases env) (mesh_env m) (wh_lock h) (in_lockClk inp) (in_lockOrder inp) ?me ?ns ?sel
      (st_leases st, (pl, w)) = (r, s1, (pl1, w1))" by (metis surj_pair)
  have hon: "honest_pool pl" using assms(3) st by simp
  have text1: "\<forall>e\<in>set (in_lockOrder inp). answers_in_text (ms_cluster m e) ?me x (w e)"
    and text2: "\<forall>e\<in>set (in_unlockOrder inp). answers_in_text (ms_cluster m e) ?me x (w e)" using assms(6) st by auto
  have lock': "Lock (we_leases env) (wire_env show_err m) (wh_lock h) (in_lockClk inp) (in_lockOrder inp) ?me ?ns ?sel
      (st_leases st, (pl, w)) = (r, s1, (pl1, w1))"
    by (simp only: Lock_over_wire [OF assms(2) hon assms(4) text1, symmetric] lock)
  note world = Lock_world [OF lock hon assms(4)]
  obtain v pl2 w2 where can: "CanPodBeDisrupted (we_f2i env) (mesh_env m) (wh_pdb h) (in_stateOrder inp) p x (pl1, w1)
      = (v, (pl2, w2))" by (metis surj_pair)
  have keeps: "honest_pool pl2" "w2 = w1" using CanPodBeDisrupted_keeps [OF can, of "[]"] world by (auto simp: dialled_def)
  have "handle_budget env h inp req p x ?me (st\<lparr>st_leases := s1, st_remote := (pl1, w1)\<rparr>) =
      handle_budget (env\<lparr>we_rpc := wire_env show_err m\<rparr>) h inp req p x ?me (st\<lparr>st_leases := s1, st_remote := (pl1, w1)\<rparr>)"
  proof (rule handle_budget_agree)
    show "CanPodBeDisrupted (we_f2i env) (we_rpc env) (wh_pdb h) (in_stateOrder inp) p x
        (st_remote (st\<lparr>st_leases := s1, st_remote := (pl1, w1)\<rparr>)) = (v, (pl2, w2))" using can assms(1) by simp
    show "CanPodBeDisrupted (we_f2i env) (wire_env show_err m) (wh_pdb h) (in_stateOrder inp) p x
        (st_remote (st\<lparr>st_leases := s1, st_remote := (pl1, w1)\<rparr>)) = (v, (pl2, w2))"
      by (simp add: CanPodBeDisrupted_over_wire [OF assms(2)] can)
  qed (use Unlock_over_wire [OF assms(2) keeps(1) assms(5) text2, of w1] world keeps(2) assms(1) in simp)
  then show ?thesis using lock lock' st assms(1) by (simp add: handle_xpdb_def Let_def split: go.splits)
qed

text \<open>
  C18. The webhook that calls its peers through the generated stubs, the protobuf codec and the bytes on
  the network decides, and leaves every cluster, as the webhook that calls the methods of the peers'
  state servers: for every admission request and every state, provided that the requests for the pod's budget
  are valid text within the receive limit of four megabytes, and so are the replies of the peers. Failures of the
  network are in both: the connections, the requests and the replies that are lost.
\<close>

theorem handler_over_the_wire:
  assumes "we_rpc env = mesh_env m" "honest_pool (fst (st_remote st))"
    and "distinct (in_lockOrder inp)" "distinct (in_unlockOrder inp)"
    and "\<And>p x. decodePod env req (st_pods st) = Inr p \<Longrightarrow> GetXPdbsForPod (wh_pdb h) p = Inr [x] \<Longrightarrow>
      budget_sendable (lock_identity h inp p) x \<and>
      (\<forall>e\<in>set (in_lockOrder inp) \<union> set (in_unlockOrder inp).
         answers_in_text (ms_cluster m e) (lock_identity h inp p) x (snd (st_remote st) e))"
  shows "Handle (env\<lparr>we_rpc := wire_env show_err m\<rparr>) h inp req st = Handle env h inp req st"
proof (cases "decodePod env req (st_pods st)")
  case (Inr p)
  have one: "handle_xpdb (env\<lparr>we_rpc := wire_env show_err m\<rparr>) h inp req p x (st\<lparr>st_pods := pods\<rparr>) =
      handle_xpdb env h inp req p x (st\<lparr>st_pods := pods\<rparr>)" if "GetXPdbsForPod (wh_pdb h) p = Inr [x]" for x pods
    using assms(5) [OF Inr that] assms(1-4) by (intro handle_xpdb_over_wire [symmetric]) simp_all
  then have "handle_xpdbs (env\<lparr>we_rpc := wire_env show_err m\<rparr>) h inp req p (st\<lparr>st_pods := pods\<rparr>) =
      handle_xpdbs env h inp req p (st\<lparr>st_pods := pods\<rparr>)" for pods
    by (auto simp: handle_xpdbs_def split: sum.splits list.splits)
  then show ?thesis using Inr
    by (simp add: Handle_def decodePod_rpc handleError_def handleNotAllowedDisruption_def Let_def
        split: prod.split sum.split)
qed (simp add: Handle_def decodePod_rpc)

text \<open>On the sample installation.\<close>

lemma sample_sendable: "budget_sendable sample_identity sample_xpdb"
  by (simp add: budget_sendable_def lock_request_for_def unlock_request_for_def get_state_request_for_def
      sample_identity_def lock_identity_def CreateLeaseHolderIdentity_def sample_webhook_def sample_inputs_def sample_pod_def
      sample_selector_def wire_eval)

lemma sample_replies:
  "stateServer_Lock fake_client (sample_lock []) (1000, 2000, 3000) (lock_request_for me sample_xpdb) Map.empty =
     (Inr \<lparr>lrs_acquired = True, lrs_error = []\<rparr>, locked_by (sample_lock []) me ''shop'' sample_selector 1000)"
  "stateServer_Unlock fake_client (sample_lock []) 9000 (unlock_request_for me sample_xpdb) Map.empty =
     (Inr \<lparr>urs_unlocked = True, urs_error = []\<rparr>, Map.empty)"
  "stateServer_Unlock fake_client (sample_lock []) 9000 (unlock_request_for me sample_xpdb)
       (locked_by (sample_lock []) me ''shop'' sample_selector 1000) =
     (Inr \<lparr>urs_unlocked = True, urs_error = []\<rparr>, Map.empty)"
  unfolding lock_request_for_def unlock_request_for_def stateServer_Lock_converted stateServer_Unlock_converted
  by (simp_all add: fake_lock_free fake_unlock_locked) (simp add: LocalUnlock_def fake_get_def)

lemma sample_in_text: "answers_in_text (sample_cluster ready) me sample_xpdb Map.empty"
  unfolding answers_in_text_def sample_cluster_def cluster.simps sample_replies Let_def fst_conv snd_conv
  by (simp add: lock_reply_sendable_def unlock_reply_sendable_def wire_eval)

theorem handler_over_the_wire_witness:
  "\<exists>resp. Handle (sample_env ''True''\<lparr>we_rpc := wire_env (\<lambda>e. ''proto'') (sample_mesh ''True'')\<rparr>) (sample_webhook False)
     sample_inputs sample_request sample_state = (Ok resp, sample_admitted) \<and> ar_allowed resp"
proof -
  have "Handle (sample_env ''True''\<lparr>we_rpc := wire_env (\<lambda>e. ''proto'') (sample_mesh ''True'')\<rparr>) (sample_webhook False)
      sample_inputs sample_request sample_state =
    Handle (sample_env ''True'') (sample_webhook False) sample_inputs sample_request sample_state"
  proof (rule handler_over_the_wire)
    fix p x
    assume "decodePod (sample_env ''True'') sample_request (st_pods sample_state) = Inr p"
      "GetXPdbsForPod (wh_pdb (sample_webhook False)) p = Inr [x]"
    then have "p = sample_pod ''db-0'' ''True''" "x = sample_xpdb"
      using sample_xpdbs by (auto simp: sample_decoded sample_webhook_def)
    then show "budget_sendable (lock_identity (sample_webhook False) sample_inputs p) x \<and>
      (\<forall>e\<in>set (in_lockOrder sample_inputs) \<union> set (in_unlockOrder sample_inputs).
         answers_in_text (ms_cluster (sample_mesh ''True'') e) (lock_identity (sample_webhook False) sample_inputs p) x
           (snd (st_remote sample_state) e))"
      using sample_sendable sample_in_text by (simp add: sample_mesh_def sample_state_def)
  qed (simp_all add: sample_env_def sample_state_def sample_inputs_def honest_pool_new)
  then show ?thesis using sample_handled by simp
qed

end
