(* ===== verification/Deep_Copy.thy ===== *)
theory Deep_Copy
  imports Kube_Types "HOL-Library.AList"
begin

text \<open>
  \<^verbatim>\<open>api/v1alpha1/zz_generated.deepcopy.go\<close>: the deep copies of the program's resource. Budgets live in
  the cache of the API client and are shared, so a copy must look like the original and must not share
  memory with it. Pointers, maps and slices are addresses of cells in a heap here; a struct is a
  record of its fields. A slice is the address of its backing array (its length is that of the array), so
  nil and empty slices are different. The copies of the embedded \<^verbatim>\<open>metav1\<close> structs are translated from the
  vendored \<^verbatim>\<open>k8s.io/apimachinery\<close>.

  The contract \<open>copier\<close> says what a deep copy is; it is shown for pointers, slices and pairs once,
  and every struct is an instance.
\<close>

section \<open>The heap\<close>

type_synonym addr = nat

record 'c heap =
  cells :: "addr \<Rightarrow> 'c option"
  lim :: addr

definition heap_ok :: "'c heap \<Rightarrow> bool" where
  "heap_ok h \<longleftrightarrow> (\<forall>a. cells h a \<noteq> None \<longrightarrow> a < lim h)"

definition extends :: "'c heap \<Rightarrow> 'c heap \<Rightarrow> bool" where
  "extends h h' \<longleftrightarrow> lim h \<le> lim h' \<and> (\<forall>a < lim h. cells h' a = cells h a)"

definition store :: "addr \<Rightarrow> 'c \<Rightarrow> 'c heap \<Rightarrow> 'c heap" where
  "store a c h = h\<lparr>cells := (cells h)(a \<mapsto> c)\<rparr>"

text \<open>\<^verbatim>\<open>new(T)\<close> and \<^verbatim>\<open>make\<close>: the next free address, with the zero value of the type in it.\<close>

definition new :: "'c \<Rightarrow> 'c heap \<Rightarrow> addr \<times> 'c heap" where
  "new zero h = (lim h, h\<lparr>cells := (cells h)(lim h \<mapsto> zero), lim := lim h + 1\<rparr>)"

lemma extends_refl [simp]: "extends h h"
  by (simp add: extends_def)

lemma extends_trans [trans]: "extends h h1 \<Longrightarrow> extends h1 h2 \<Longrightarrow> extends h h2"
  by (simp add: extends_def)

lemma heap_ok_new: "heap_ok h \<Longrightarrow> heap_ok (snd (new z h)) \<and> extends h (snd (new z h))"
  by (auto simp: heap_ok_def new_def extends_def)

lemma heap_ok_store: "heap_ok h \<Longrightarrow> a < lim h \<Longrightarrow> heap_ok (store a c h)"
  by (auto simp: heap_ok_def store_def)

lemma store_simps [simp]: "cells (store a c h) = (cells h)(a \<mapsto> c)" "lim (store a c h) = lim h"
  by (simp_all add: store_def)


section \<open>What an object looks like\<close>

text \<open>
  The observation of an object: everything that can be seen by following its pointers, but not the
  addresses. It is what \<^verbatim>\<open>reflect.DeepEqual\<close> compares. A view also collects the addresses it has passed
  through, and is undefined for a pointer to a cell that is not there or has another type.
\<close>

datatype obs =
    OText string
  | OBool bool
  | OInt int
  | OIntStr int_or_string
  | OMap dict
  | OTexts "string list"
  | ONil
  | OPtr obs
  | OSeq "obs list"
  | OPair obs obs

type_synonym ('c, 'a) view = "'c heap \<Rightarrow> 'a \<Rightarrow> (obs \<times> addr set) option"

definition view_leaf :: "('a \<Rightarrow> obs) \<Rightarrow> ('c, 'a) view" where
  "view_leaf f h x = Some (f x, {})"

definition view_map :: "('c, dict) view" where
  "view_map h d = (if distinct (map fst d) then Some (OMap d, {}) else None)"

definition view_ptr :: "('c \<Rightarrow> 'a option) \<Rightarrow> ('c, 'a) view \<Rightarrow> ('c, addr option) view" where
  "view_ptr prj view h p =
     (case p of
        None \<Rightarrow> Some (ONil, {})
      | Some a \<Rightarrow>
          (case Option.bind (cells h a) prj of
             None \<Rightarrow> None
           | Some x \<Rightarrow> map_option (\<lambda>(v, R). (OPtr v, insert a R)) (view h x)))"

definition view_pair :: "('c, 'a) view \<Rightarrow> ('c, 'b) view \<Rightarrow> ('c, 'a \<times> 'b) view" where
  "view_pair f g h p =
     (case (f h (fst p), g h (snd p)) of
        (Some (v, R), Some (w, S)) \<Rightarrow> Some (OPair v w, R \<union> S)
      | _ \<Rightarrow> None)"

fun view_list :: "('c, 'a) view \<Rightarrow> ('c, 'a list) view" where
  "view_list f h [] = Some (OSeq [], {})"
| "view_list f h (x # xs) =
     (case (f h x, view_list f h xs) of
        (Some (v, R), Some (OSeq vs, S)) \<Rightarrow> Some (OSeq (v # vs), R \<union> S)
      | _ \<Rightarrow> None)"

definition view_struct :: "('a \<Rightarrow> obs) \<Rightarrow> ('a \<Rightarrow> 'b) \<Rightarrow> ('c, 'b) view \<Rightarrow> ('c, 'a) view" where
  "view_struct label parts view h x = map_option (\<lambda>(v, R). (OPair (label x) v, R)) (view h (parts x))"


section \<open>The contract of a deep copy\<close>

locale copier =
  fixes into :: "'a \<Rightarrow> 'c heap \<Rightarrow> 'a \<times> 'c heap"
    and view :: "('c, 'a) view"
  assumes view_local: "view h x = Some (v, R) \<Longrightarrow> (\<And>a. a \<in> R \<Longrightarrow> cells h' a = cells h a) \<Longrightarrow>
      view h' x = Some (v, R)"
    and view_allocated: "heap_ok h \<Longrightarrow> view h x = Some (v, R) \<Longrightarrow> R \<subseteq> {..<lim h}"
    and copy_heap: "heap_ok h \<Longrightarrow> view h x = Some (v, R) \<Longrightarrow> into x h = (y, h') \<Longrightarrow>
      heap_ok h' \<and> extends h h'"
    and copy_view: "heap_ok h \<Longrightarrow> view h x = Some (v, R) \<Longrightarrow> into x h = (y, h') \<Longrightarrow>
      \<exists>R'. view h' y = Some (v, R') \<and> R' \<subseteq> {lim h..<lim h'}"
begin

lemma view_extends:
  assumes "heap_ok h" "view h x = Some (v, R)" "extends h h'"
  shows "view h' x = Some (v, R)"
  using assms(2)
proof (rule view_local)
  show "cells h' a = cells h a" if "a \<in> R" for a
    using view_allocated [OF assms(1,2)] assms(3) that by (auto simp: extends_def)
qed

text \<open>The copy looks like the original and nothing written to one of the two is seen in the other.\<close>

lemma independent:
  assumes "heap_ok h" "view h x = Some (v, R)" "into x h = (y, h')"
  shows "\<exists>R'. view h' x = Some (v, R) \<and> view h' y = Some (v, R') \<and> R \<inter> R' = {} \<and>
    (\<forall>a c. a \<in> R' \<longrightarrow> view (store a c h') x = Some (v, R)) \<and>
    (\<forall>a c. a \<in> R \<longrightarrow> view (store a c h') y = Some (v, R'))"
proof -
  obtain R' where y: "view h' y = Some (v, R')" "R' \<subseteq> {lim h..<lim h'}" using copy_view [OF assms] by blast
  have x: "view h' x = Some (v, R)" using view_extends [OF assms(1,2)] copy_heap [OF assms] by blast
  have dis: "R \<inter> R' = {}" using view_allocated [OF assms(1,2)] y(2) by fastforce
  have "view (store a c h') x = Some (v, R)" if "a \<in> R'" for a c
    by (rule view_local [OF x]) (use dis that in auto)
  moreover have "view (store a c h') y = Some (v, R')" if "a \<in> R" for a c
    by (rule view_local [OF y(1)]) (use dis that in auto)
  ultimately show ?thesis using x y(1) dis by blast
qed

end

section \<open>Copying pointers, slices and structs\<close>

text \<open>
  The pattern of the generated code for a field that is a pointer, a map or a slice: nothing for nil;
  otherwise a new cell, whose content is copied from the old one.
\<close>

definition copy_ptr ::
    "'c \<Rightarrow> ('a \<Rightarrow> 'c) \<Rightarrow> ('c \<Rightarrow> 'a option) \<Rightarrow> ('a \<Rightarrow> 'c heap \<Rightarrow> 'a \<times> 'c heap) \<Rightarrow> addr option \<Rightarrow> 'c heap
     \<Rightarrow> addr option \<times> 'c heap" where
  "copy_ptr zero mk prj into p h =
     (case p of
        None \<Rightarrow> (None, h)
      | Some a \<Rightarrow>
          (case Option.bind (cells h a) prj of
             None \<Rightarrow> (p, h)
           | Some x \<Rightarrow>
               (let (out, h1) = new zero h; (y, h2) = into x h1 in (Some out, store out (mk y) h2))))"

definition copy_value :: "'a \<Rightarrow> 'c heap \<Rightarrow> 'a \<times> 'c heap" where
  "copy_value x h = (x, h)"

text \<open>The loop over a map: the keys are inserted into the new map in the order of the iteration.\<close>

definition copy_map :: "dict \<Rightarrow> 'c heap \<Rightarrow> dict \<times> 'c heap" where
  "copy_map d h = (foldl (\<lambda>m (k, v). AList.update k v m) [] d, h)"

fun copy_list :: "('a \<Rightarrow> 'c heap \<Rightarrow> 'a \<times> 'c heap) \<Rightarrow> 'a list \<Rightarrow> 'c heap \<Rightarrow> 'a list \<times> 'c heap" where
  "copy_list into [] h = ([], h)"
| "copy_list into (x # xs) h =
     (let (y, h1) = into x h; (ys, h2) = copy_list into xs h1 in (y # ys, h2))"

definition copy_pair ::
    "('a \<Rightarrow> 'c heap \<Rightarrow> 'a \<times> 'c heap) \<Rightarrow> ('b \<Rightarrow> 'c heap \<Rightarrow> 'b \<times> 'c heap) \<Rightarrow> 'a \<times> 'b \<Rightarrow> 'c heap
     \<Rightarrow> ('a \<times> 'b) \<times> 'c heap" where
  "copy_pair f g p h = (let (x, h1) = f (fst p) h; (y, h2) = g (snd p) h1 in ((x, y), h2))"

lemma copier_value: "copier copy_value (view_leaf f)"
  by unfold_locales (auto simp: copy_value_def view_leaf_def)

lemma insert_all_distinct:
  "distinct (map fst (m @ d)) \<Longrightarrow> foldl (\<lambda>m (k, v). AList.update k v m) m d = m @ d"
proof (induction d arbitrary: m)
  case (Cons kv d)
  obtain k v where kv: "kv = (k, v)" by fastforce
  have "AList.update k v m = m @ [(k, v)]"
    using Cons.prems kv by (induction m) auto
  then show ?case using Cons.IH [of "m @ [(k, v)]"] Cons.prems kv by simp
qed simp

lemma copier_map: "copier copy_map view_map"
  by unfold_locales (auto simp: copy_map_def view_map_def insert_all_distinct [where m = "[]", simplified] split: if_splits)

lemma copier_ptr:
  assumes "copier into view" and prj: "\<And>x. prj (mk x) = Some x"
  shows "copier (copy_ptr zero mk prj into) (view_ptr prj view)"
proof -
  note ax = copier.view_local [OF assms(1)] copier.view_allocated [OF assms(1)]
  have shape: "p = None \<and> v = ONil \<and> R = {} \<or>
      (\<exists>a x w S. p = Some a \<and> Option.bind (cells h a) prj = Some x \<and> view h x = Some (w, S) \<and> v = OPtr w \<and> R = insert a S)"
    if "view_ptr prj view h p = Some (v, R)" for h p v R
    using that by (auto simp: view_ptr_def split: option.splits)
  show ?thesis
  proof
    fix h h' :: "'b heap" and p v R
    assume v: "view_ptr prj view h p = Some (v, R)" and same: "\<And>a. a \<in> R \<Longrightarrow> cells h' a = cells h a"
    from shape [OF v] show "view_ptr prj view h' p = Some (v, R)"
    proof (elim disjE exE conjE)
      fix a x w S
      assume p: "p = Some a" "Option.bind (cells h a) prj = Some x" "view h x = Some (w, S)" "v = OPtr w" "R = insert a S"
      then have "view h' x = Some (w, S)" using ax(1) same by blast
      then show ?thesis using p same by (simp add: view_ptr_def)
    qed (simp add: view_ptr_def)
  next
    fix h :: "'b heap" and p v R
    assume ok: "heap_ok h" and v: "view_ptr prj view h p = Some (v, R)"
    from shape [OF v] show "R \<subseteq> {..<lim h}"
    proof (elim disjE exE conjE)
      fix a x w S
      assume p: "Option.bind (cells h a) prj = Some x" "view h x = Some (w, S)" "R = insert a S"
      then have "a < lim h" using ok by (auto simp: heap_ok_def bind_eq_Some_conv)
      then show ?thesis using ax(2) [OF ok p(2)] p(3) by blast
    qed simp
  next
    fix h h' :: "'b heap" and p v R q
    assume ok: "heap_ok h" and v: "view_ptr prj view h p = Some (v, R)" and cp: "copy_ptr zero mk prj into p h = (q, h')"
    have "(heap_ok h' \<and> extends h h') \<and> (\<exists>R'. view_ptr prj view h' q = Some (v, R') \<and> R' \<subseteq> {lim h..<lim h'})"
      using shape [OF v]
    proof (elim disjE exE conjE)
      fix a x w S
      assume p: "p = Some a" "Option.bind (cells h a) prj = Some x" "view h x = Some (w, S)" "v = OPtr w"
      obtain h1 where h1: "new zero h = (lim h, h1)" "lim h1 = lim h + 1" by (simp add: new_def)
      have ok1: "heap_ok h1" "extends h h1" using heap_ok_new [OF ok, of zero] h1 by simp_all
      obtain y h2 where h2: "into x h1 = (y, h2)" by fastforce
      have q: "q = Some (lim h)" "h' = store (lim h) (mk y) h2" using cp p h1 h2 by (auto simp: copy_ptr_def)
      have x: "view h1 x = Some (w, S)" using copier.view_extends [OF assms(1) ok p(3) ok1(2)] .
      obtain S' where y: "view h2 y = Some (w, S')" "S' \<subseteq> {lim h1..<lim h2}"
        using copier.copy_view [OF assms(1) ok1(1) x h2] by blast
      have ok2: "heap_ok h2" "extends h1 h2" using copier.copy_heap [OF assms(1) ok1(1) x h2] by blast+
      have "view h' y = Some (w, S')" using y(1) by (rule ax(1)) (use y(2) q h1(2) in auto)
      then have "view_ptr prj view h' q = Some (v, insert (lim h) S')" using q p(4) by (simp add: view_ptr_def prj)
      moreover have "insert (lim h) S' \<subseteq> {lim h..<lim h'}" using y(2) h1(2) q ok2(2) by (auto simp: extends_def)
      moreover have "heap_ok h'" using heap_ok_store [OF ok2(1), of "lim h" "mk y"] q ok2(2) h1(2) by (auto simp: extends_def)
      moreover have "extends h h'" using ok1(2) ok2(2) q by (auto simp: extends_def)
      ultimately show ?thesis by blast
    qed (use cp ok in \<open>auto simp: copy_ptr_def view_ptr_def\<close>)
    then show "heap_ok h' \<and> extends h h'" "\<exists>R'. view_ptr prj view h' q = Some (v, R') \<and> R' \<subseteq> {lim h..<lim h'}" by blast+
  qed
qed

text \<open>Two copies one after the other: the first result is not touched by the second.\<close>

lemma copier_pair:
  assumes f: "copier f v" and g: "copier g w"
  shows "copier (copy_pair f g) (view_pair v w)"
proof
  fix h h' :: "'b heap" and p o1 R
  assume "view_pair v w h p = Some (o1, R)" and "\<And>a. a \<in> R \<Longrightarrow> cells h' a = cells h a"
  then show "view_pair v w h' p = Some (o1, R)"
    using copier.view_local [OF f, of h "fst p" _ _ h'] copier.view_local [OF g, of h "snd p" _ _ h']
    by (auto simp: view_pair_def split: option.splits prod.splits)
next
  fix h :: "'b heap" and p o1 R
  assume "heap_ok h" "view_pair v w h p = Some (o1, R)"
  then show "R \<subseteq> {..<lim h}"
    using copier.view_allocated [OF f, of h "fst p"] copier.view_allocated [OF g, of h "snd p"]
    by (fastforce simp: view_pair_def split: option.splits prod.splits)
next
  fix h h' :: "'b heap" and p o1 R q
  assume ok: "heap_ok h" and "view_pair v w h p = Some (o1, R)" and cp: "copy_pair f g p h = (q, h')"
  then obtain a S b T where o1: "v h (fst p) = Some (a, S)" "w h (snd p) = Some (b, T)" "o1 = OPair a b"
    by (auto simp: view_pair_def split: option.splits prod.splits)
  obtain x h1 where x: "f (fst p) h = (x, h1)" by fastforce
  obtain y where y: "g (snd p) h1 = (y, h')" "q = (x, y)" using cp x by (auto simp: copy_pair_def split: prod.splits)
  have ok1: "heap_ok h1" "extends h h1" using copier.copy_heap [OF f ok o1(1) x] by blast+
  have w1: "w h1 (snd p) = Some (b, T)" using copier.view_extends [OF g ok o1(2) ok1(2)] .
  have ok2: "heap_ok h'" "extends h1 h'" using copier.copy_heap [OF g ok1(1) w1 y(1)] by blast+
  obtain S' where S': "v h1 x = Some (a, S')" "S' \<subseteq> {lim h..<lim h1}" using copier.copy_view [OF f ok o1(1) x] by blast
  obtain T' where T': "w h' y = Some (b, T')" "T' \<subseteq> {lim h1..<lim h'}" using copier.copy_view [OF g ok1(1) w1 y(1)] by blast
  have "v h' x = Some (a, S')" using copier.view_extends [OF f ok1(1) S'(1) ok2(2)] .
  then have "view_pair v w h' q = Some (o1, S' \<union> T')" using T'(1) y(2) o1(3) by (simp add: view_pair_def)
  moreover have "S' \<union> T' \<subseteq> {lim h..<lim h'}" using S'(2) T'(2) ok1(2) ok2(2) by (auto simp: extends_def)
  ultimately show "\<exists>R'. view_pair v w h' q = Some (o1, R') \<and> R' \<subseteq> {lim h..<lim h'}" by blast
  show "heap_ok h' \<and> extends h h'" using ok1(2) ok2 extends_trans by blast
qed

text \<open>A copy through another representation, and the embedding of labels.\<close>

lemma copier_struct:
  assumes "copier f v"
    and "\<And>x h. into x h = (case f (parts x) h of (p, h') \<Rightarrow> (build x p, h'))"
    and "\<And>x p. parts (build x p) = p" "\<And>x p. label (build x p) = label x"
  shows "copier into (view_struct label parts v)"
proof
  fix h h' :: "'b heap" and x o1 R
  assume "view_struct label parts v h x = Some (o1, R)" and "\<And>a. a \<in> R \<Longrightarrow> cells h' a = cells h a"
  then show "view_struct label parts v h' x = Some (o1, R)"
    using copier.view_local [OF assms(1), of h "parts x" _ R h'] by (auto simp: view_struct_def)
next
  fix h :: "'b heap" and x o1 R
  assume "heap_ok h" "view_struct label parts v h x = Some (o1, R)"
  then show "R \<subseteq> {..<lim h}" using copier.view_allocated [OF assms(1), of h "parts x"] by (auto simp: view_struct_def)
next
  fix h h' :: "'b heap" and x o1 R y
  assume ok: "heap_ok h" and "view_struct label parts v h x = Some (o1, R)" and cp: "into x h = (y, h')"
  then obtain w where w: "v h (parts x) = Some (w, R)" "o1 = OPair (label x) w" by (auto simp: view_struct_def)
  obtain p where p: "f (parts x) h = (p, h')" "y = build x p" using cp assms(2) by (auto split: prod.splits)
  show "heap_ok h' \<and> extends h h'" using copier.copy_heap [OF assms(1) ok w(1) p(1)] .
  show "\<exists>R'. view_struct label parts v h' y = Some (o1, R') \<and> R' \<subseteq> {lim h..<lim h'}"
    using copier.copy_view [OF assms(1) ok w(1) p(1)] w(2) p(2) assms(3,4) by (auto simp: view_struct_def)
qed

lemma view_list_Cons:
  "view_list v h (x # xs) = Some (o1, R) \<longleftrightarrow>
     (\<exists>a S vs T. v h x = Some (a, S) \<and> view_list v h xs = Some (OSeq vs, T) \<and> o1 = OSeq (a # vs) \<and> R = S \<union> T)"
  by (auto split: option.splits prod.splits obs.splits)

lemma copier_list:
  assumes f: "copier f v"
  shows "copier (copy_list f) (view_list v)"
proof
  show "view_list v h' xs = Some (o1, R)"
    if "view_list v h xs = Some (o1, R)" "\<And>a. a \<in> R \<Longrightarrow> cells h' a = cells h a" for h h' xs o1 R
    using that
  proof (induction xs arbitrary: o1 R)
    case (Cons x xs)
    then obtain a S vs T where "v h x = Some (a, S)" "view_list v h xs = Some (OSeq vs, T)" "o1 = OSeq (a # vs)" "R = S \<union> T"
      by (auto simp: view_list_Cons simp del: view_list.simps)
    then show ?case using Cons copier.view_local [OF f, of h x a S h'] by (auto simp: view_list_Cons simp del: view_list.simps)
  qed simp
next
  show "R \<subseteq> {..<lim h}" if "heap_ok h" "view_list v h xs = Some (o1, R)" for h xs o1 R
    using that(2)
  proof (induction xs arbitrary: o1 R)
    case (Cons x xs)
    then show ?case using copier.view_allocated [OF f that(1), of x]
      by (fastforce simp: view_list_Cons simp del: view_list.simps)
  qed simp
next
  have both: "heap_ok h' \<and> extends h h' \<and> (\<exists>R'. view_list v h' ys = Some (o1, R') \<and> R' \<subseteq> {lim h..<lim h'})"
    if "heap_ok h" "view_list v h xs = Some (o1, R)" "copy_list f xs h = (ys, h')" for h h' xs ys o1 R
    using that
  proof (induction xs arbitrary: h o1 R ys)
    case (Cons x xs)
    from Cons.prems(2) obtain a S vs T where
      o1: "v h x = Some (a, S)" "view_list v h xs = Some (OSeq vs, T)" "o1 = OSeq (a # vs)"
      by (auto simp: view_list_Cons simp del: view_list.simps)
    obtain y h1 where x: "f x h = (y, h1)" by fastforce
    obtain zs where zs: "copy_list f xs h1 = (zs, h')" "ys = y # zs" using Cons.prems(3) x by (auto split: prod.splits)
    have ok1: "heap_ok h1" "extends h h1" using copier.copy_heap [OF f Cons.prems(1) o1(1) x] by blast+
    obtain S' where S': "v h1 y = Some (a, S')" "S' \<subseteq> {lim h..<lim h1}"
      using copier.copy_view [OF f Cons.prems(1) o1(1) x] by blast
    have "view_list v h1 xs = Some (OSeq vs, T)" using o1(2) ok1(2) Cons.prems(1)
    proof (induction xs arbitrary: vs T)
      case (Cons z zs)
      then show ?case using copier.view_extends [OF f _ _ ok1(2), of z]
        by (fastforce simp: view_list_Cons simp del: view_list.simps)
    qed simp
    from Cons.IH [OF ok1(1) this zs(1)] obtain T' where
      ok2: "heap_ok h'" "extends h1 h'" and T': "view_list v h' zs = Some (OSeq vs, T')" "T' \<subseteq> {lim h1..<lim h'}" by blast
    have "v h' y = Some (a, S')" using copier.view_extends [OF f ok1(1) S'(1) ok2(2)] .
    then have "view_list v h' ys = Some (o1, S' \<union> T')" using T'(1) zs(2) o1(3)
      by (auto simp: view_list_Cons simp del: view_list.simps)
    moreover have "S' \<union> T' \<subseteq> {lim h..<lim h'}" using S'(2) T'(2) ok1(2) ok2(2) by (auto simp: extends_def)
    moreover have "extends h h'" using ok1(2) ok2(2) by (rule extends_trans)
    ultimately show ?case using ok2(1) by blast
  qed simp
  show "heap_ok h' \<and> extends h h'"
    if "heap_ok h" "view_list v h xs = Some (o1, R)" "copy_list f xs h = (ys, h')" for h h' xs ys o1 R
    using both [OF that] by blast
  show "\<exists>R'. view_list v h' ys = Some (o1, R') \<and> R' \<subseteq> {lim h..<lim h'}"
    if "heap_ok h" "view_list v h xs = Some (o1, R)" "copy_list f xs h = (ys, h')" for h h' xs ys o1 R
    using both [OF that] by blast
qed


section \<open>The structs and the cells\<close>

text \<open>
  The structs of the vendored \<^verbatim>\<open>metav1\<close> and of \<^verbatim>\<open>xpoddisruptionbudget_types.go\<close>: a pointer, map or slice is
  an address. \<^verbatim>\<open>TypeMeta\<close> is embedded, so its two strings are fields of the object.
\<close>

record fields_obj =
  fo_raw :: "addr option"

record managed_obj =
  mo_manager :: string
  mo_operation :: string
  mo_apiVersion :: string
  mo_time :: "addr option"
  mo_fieldsType :: string
  mo_fieldsV1 :: "addr option"
  mo_subresource :: string

record owner_obj =
  oo_apiVersion :: string
  oo_kind :: string
  oo_name :: string
  oo_uid :: string
  oo_controller :: "addr option"
  oo_blockOwnerDeletion :: "addr option"

record object_meta =
  om_name :: string
  om_generateName :: string
  om_namespace :: string
  om_selfLink :: string
  om_uid :: string
  om_resourceVersion :: string
  om_generation :: int64
  om_creationTimestamp :: int
  om_deletionTimestamp :: "addr option"
  om_deletionGracePeriodSeconds :: "addr option"
  om_labels :: "addr option"
  om_annotations :: "addr option"
  om_ownerReferences :: "addr option"
  om_finalizers :: "addr option"
  om_managedFields :: "addr option"

record list_meta =
  lm_selfLink :: string
  lm_resourceVersion :: string
  lm_continue :: string
  lm_remainingItemCount :: "addr option"

record requirement_obj =
  ro_key :: string
  ro_operator :: string
  ro_values :: "addr option"

record selector_obj =
  so_matchLabels :: "addr option"
  so_matchExpressions :: "addr option"

record probe_obj =
  po_enabled :: "addr option"
  po_endpoint :: string

record spec_obj =
  sp_suspend :: "addr option"
  sp_minAvailable :: "addr option"
  sp_selector :: selector_obj
  sp_maxUnavailable :: "addr option"
  sp_probe :: "addr option"

record budget_obj =
  bo_kind :: string
  bo_apiVersion :: string
  bo_meta :: object_meta
  bo_spec :: spec_obj
  bo_status :: unit

record budget_list_obj =
  bl_kind :: string
  bl_apiVersion :: string
  bl_meta :: list_meta
  bl_items :: "addr option"

text \<open>The contents of a cell, by type; a new cell holds the zero value.\<close>

datatype cell =
    ZeroCell
  | BoolCell bool
  | Int64Cell int64
  | TimeCell int
  | IntOrStringCell int_or_string
  | MapCell dict
  | StringsCell "string list"
  | BytesCell string
  | RequirementsCell "requirement_obj list"
  | OwnersCell "owner_obj list"
  | FieldsCell fields_obj
  | ManagedCell "managed_obj list"
  | ProbeCell probe_obj
  | SpecCell spec_obj
  | StatusCell unit
  | BudgetCell budget_obj
  | BudgetsCell "budget_obj list"
  | BudgetListCell budget_list_obj

definition unBool :: "cell \<Rightarrow> bool option" where
  "unBool c = (case c of BoolCell x \<Rightarrow> Some x | _ \<Rightarrow> None)"

definition unInt64 :: "cell \<Rightarrow> int64 option" where
  "unInt64 c = (case c of Int64Cell x \<Rightarrow> Some x | _ \<Rightarrow> None)"

definition unTime :: "cell \<Rightarrow> int option" where
  "unTime c = (case c of TimeCell x \<Rightarrow> Some x | _ \<Rightarrow> None)"

definition unIntOrString :: "cell \<Rightarrow> int_or_string option" where
  "unIntOrString c = (case c of IntOrStringCell x \<Rightarrow> Some x | _ \<Rightarrow> None)"

definition unMap :: "cell \<Rightarrow> dict option" where
  "unMap c = (case c of MapCell x \<Rightarrow> Some x | _ \<Rightarrow> None)"

definition unStrings :: "cell \<Rightarrow> (string list) option" where
  "unStrings c = (case c of StringsCell x \<Rightarrow> Some x | _ \<Rightarrow> None)"

definition unBytes :: "cell \<Rightarrow> string option" where
  "unBytes c = (case c of BytesCell x \<Rightarrow> Some x | _ \<Rightarrow> None)"

definition unRequirements :: "cell \<Rightarrow> (requirement_obj list) option" where
  "unRequirements c = (case c of RequirementsCell x \<Rightarrow> Some x | _ \<Rightarrow> None)"

definition unOwners :: "cell \<Rightarrow> (owner_obj list) option" where
  "unOwners c = (case c of OwnersCell x \<Rightarrow> Some x | _ \<Rightarrow> None)"

definition unFields :: "cell \<Rightarrow> fields_obj option" where
  "unFields c = (case c of FieldsCell x \<Rightarrow> Some x | _ \<Rightarrow> None)"

definition unManaged :: "cell \<Rightarrow> (managed_obj list) option" where
  "unManaged c = (case c of ManagedCell x \<Rightarrow> Some x | _ \<Rightarrow> None)"

definition unProbe :: "cell \<Rightarrow> probe_obj option" where
  "unProbe c = (case c of ProbeCell x \<Rightarrow> Some x | _ \<Rightarrow> None)"

definition unSpec :: "cell \<Rightarrow> spec_obj option" where
  "unSpec c = (case c of SpecCell x \<Rightarrow> Some x | _ \<Rightarrow> None)"

definition unStatus :: "cell \<Rightarrow> unit option" where
  "unStatus c = (case c of StatusCell x \<Rightarrow> Some x | _ \<Rightarrow> None)"

definition unBudget :: "cell \<Rightarrow> budget_obj option" where
  "unBudget c = (case c of BudgetCell x \<Rightarrow> Some x | _ \<Rightarrow> None)"

definition unBudgets :: "cell \<Rightarrow> (budget_obj list) option" where
  "unBudgets c = (case c of BudgetsCell x \<Rightarrow> Some x | _ \<Rightarrow> None)"

definition unBudgetList :: "cell \<Rightarrow> budget_list_obj option" where
  "unBudgetList c = (case c of BudgetListCell x \<Rightarrow> Some x | _ \<Rightarrow> None)"

lemma un_cell [simp]:
  "unBool (BoolCell x0) = Some x0" "unInt64 (Int64Cell x1) = Some x1" "unTime (TimeCell x2) = Some x2" "unIntOrString (IntOrStringCell x3) = Some x3" "unMap (MapCell x4) = Some x4" "unStrings (StringsCell x5) = Some x5" "unBytes (BytesCell x6) = Some x6" "unRequirements (RequirementsCell x7) = Some x7" "unOwners (OwnersCell x8) = Some x8" "unFields (FieldsCell x9) = Some x9" "unManaged (ManagedCell x10) = Some x10" "unProbe (ProbeCell x11) = Some x11" "unSpec (SpecCell x12) = Some x12" "unStatus (StatusCell x13) = Some x13" "unBudget (BudgetCell x14) = Some x14" "unBudgets (BudgetsCell x15) = Some x15" "unBudgetList (BudgetListCell x16) = Some x16"
  by (simp_all add: unBool_def unInt64_def unTime_def unIntOrString_def unMap_def unStrings_def unBytes_def unRequirements_def unOwners_def unFields_def unManaged_def unProbe_def unSpec_def unStatus_def unBudget_def unBudgets_def unBudgetList_def)

type_synonym 'a deep_copy = "'a \<Rightarrow> cell heap \<Rightarrow> 'a \<times> cell heap"

section \<open>The generated copies\<close>

text \<open>The pattern for each type of pointer, map and slice.\<close>

definition copy_bool :: "addr option deep_copy" where
  "copy_bool = copy_ptr ZeroCell BoolCell unBool copy_value"

definition copy_int64 :: "addr option deep_copy" where
  "copy_int64 = copy_ptr ZeroCell Int64Cell unInt64 copy_value"

definition copy_time :: "addr option deep_copy" where
  "copy_time = copy_ptr ZeroCell TimeCell unTime copy_value"

definition copy_intOrString :: "addr option deep_copy" where
  "copy_intOrString = copy_ptr ZeroCell IntOrStringCell unIntOrString copy_value"

definition copy_stringMap :: "addr option deep_copy" where
  "copy_stringMap = copy_ptr ZeroCell MapCell unMap copy_map"

definition copy_strings :: "addr option deep_copy" where
  "copy_strings = copy_ptr ZeroCell StringsCell unStrings copy_value"

definition copy_bytes :: "addr option deep_copy" where
  "copy_bytes = copy_ptr ZeroCell BytesCell unBytes copy_value"

text \<open>The vendored copies of the embedded \<^verbatim>\<open>metav1\<close> structs.\<close>

definition FieldsV1_DeepCopyInto :: "fields_obj deep_copy" where
  "FieldsV1_DeepCopyInto x h = (let (raw, h1) = copy_bytes (fo_raw x) h in (x\<lparr>fo_raw := raw\<rparr>, h1))"

definition ManagedFieldsEntry_DeepCopyInto :: "managed_obj deep_copy" where
  "ManagedFieldsEntry_DeepCopyInto x h =
     (let (time, h1) = copy_time (mo_time x) h;
          (fieldsV1, h2) = copy_ptr ZeroCell FieldsCell unFields FieldsV1_DeepCopyInto (mo_fieldsV1 x) h1
      in (x\<lparr>mo_time := time, mo_fieldsV1 := fieldsV1\<rparr>, h2))"

definition OwnerReference_DeepCopyInto :: "owner_obj deep_copy" where
  "OwnerReference_DeepCopyInto x h =
     (let (controller, h1) = copy_bool (oo_controller x) h;
          (blockOwnerDeletion, h2) = copy_bool (oo_blockOwnerDeletion x) h1
      in (x\<lparr>oo_controller := controller, oo_blockOwnerDeletion := blockOwnerDeletion\<rparr>, h2))"

definition ObjectMeta_DeepCopyInto :: "object_meta deep_copy" where
  "ObjectMeta_DeepCopyInto x h =
     (let (deletionTimestamp, h1) = copy_time (om_deletionTimestamp x) h;
          (deletionGracePeriodSeconds, h2) = copy_int64 (om_deletionGracePeriodSeconds x) h1;
          (labels, h3) = copy_stringMap (om_labels x) h2;
          (annotations, h4) = copy_stringMap (om_annotations x) h3;
          (ownerReferences, h5) =
            copy_ptr ZeroCell OwnersCell unOwners (copy_list OwnerReference_DeepCopyInto) (om_ownerReferences x) h4;
          (finalizers, h6) = copy_strings (om_finalizers x) h5;
          (managedFields, h7) =
            copy_ptr ZeroCell ManagedCell unManaged (copy_list ManagedFieldsEntry_DeepCopyInto) (om_managedFields x) h6
      in (x\<lparr>om_deletionTimestamp := deletionTimestamp, om_deletionGracePeriodSeconds := deletionGracePeriodSeconds,
            om_labels := labels, om_annotations := annotations, om_ownerReferences := ownerReferences,
            om_finalizers := finalizers, om_managedFields := managedFields\<rparr>, h7))"

definition ListMeta_DeepCopyInto :: "list_meta deep_copy" where
  "ListMeta_DeepCopyInto x h =
     (let (remainingItemCount, h1) = copy_int64 (lm_remainingItemCount x) h
      in (x\<lparr>lm_remainingItemCount := remainingItemCount\<rparr>, h1))"

definition LabelSelectorRequirement_DeepCopyInto :: "requirement_obj deep_copy" where
  "LabelSelectorRequirement_DeepCopyInto x h =
     (let (values, h1) = copy_strings (ro_values x) h in (x\<lparr>ro_values := values\<rparr>, h1))"

definition LabelSelector_DeepCopyInto :: "selector_obj deep_copy" where
  "LabelSelector_DeepCopyInto x h =
     (let (matchLabels, h1) = copy_stringMap (so_matchLabels x) h;
          (matchExpressions, h2) =
            copy_ptr ZeroCell RequirementsCell unRequirements (copy_list LabelSelectorRequirement_DeepCopyInto)
              (so_matchExpressions x) h1
      in (x\<lparr>so_matchLabels := matchLabels, so_matchExpressions := matchExpressions\<rparr>, h2))"

text \<open>The copies of the program's own types.\<close>

definition XPodDisruptionBudgetProbeSpec_DeepCopyInto :: "probe_obj deep_copy" where
  "XPodDisruptionBudgetProbeSpec_DeepCopyInto x h =
     (let (enabled, h1) = copy_bool (po_enabled x) h in (x\<lparr>po_enabled := enabled\<rparr>, h1))"

definition XPodDisruptionBudgetProbeSpec_DeepCopy :: "addr option deep_copy" where
  "XPodDisruptionBudgetProbeSpec_DeepCopy =
     copy_ptr ZeroCell ProbeCell unProbe XPodDisruptionBudgetProbeSpec_DeepCopyInto"

definition XPodDisruptionBudgetSpec_DeepCopyInto :: "spec_obj deep_copy" where
  "XPodDisruptionBudgetSpec_DeepCopyInto x h =
     (let (suspend, h1) = copy_bool (sp_suspend x) h;
          (minAvailable, h2) = copy_intOrString (sp_minAvailable x) h1;
          (selector, h3) = LabelSelector_DeepCopyInto (sp_selector x) h2;
          (maxUnavailable, h4) = copy_intOrString (sp_maxUnavailable x) h3;
          (probe, h5) =
            copy_ptr ZeroCell ProbeCell unProbe XPodDisruptionBudgetProbeSpec_DeepCopyInto (sp_probe x) h4
      in (x\<lparr>sp_suspend := suspend, sp_minAvailable := minAvailable, sp_selector := selector,
            sp_maxUnavailable := maxUnavailable, sp_probe := probe\<rparr>, h5))"

definition XPodDisruptionBudgetSpec_DeepCopy :: "addr option deep_copy" where
  "XPodDisruptionBudgetSpec_DeepCopy = copy_ptr ZeroCell SpecCell unSpec XPodDisruptionBudgetSpec_DeepCopyInto"

definition XPodDisruptionBudgetStatus_DeepCopyInto :: "unit deep_copy" where
  "XPodDisruptionBudgetStatus_DeepCopyInto = copy_value"

definition XPodDisruptionBudgetStatus_DeepCopy :: "addr option deep_copy" where
  "XPodDisruptionBudgetStatus_DeepCopy =
     copy_ptr ZeroCell StatusCell unStatus XPodDisruptionBudgetStatus_DeepCopyInto"

definition XPodDisruptionBudget_DeepCopyInto :: "budget_obj deep_copy" where
  "XPodDisruptionBudget_DeepCopyInto x h =
     (let (meta, h1) = ObjectMeta_DeepCopyInto (bo_meta x) h;
          (spec, h2) = XPodDisruptionBudgetSpec_DeepCopyInto (bo_spec x) h1
      in (x\<lparr>bo_meta := meta, bo_spec := spec\<rparr>, h2))"

definition XPodDisruptionBudget_DeepCopy :: "addr option deep_copy" where
  "XPodDisruptionBudget_DeepCopy = copy_ptr ZeroCell BudgetCell unBudget XPodDisruptionBudget_DeepCopyInto"

definition XPodDisruptionBudgetList_DeepCopyInto :: "budget_list_obj deep_copy" where
  "XPodDisruptionBudgetList_DeepCopyInto x h =
     (let (meta, h1) = ListMeta_DeepCopyInto (bl_meta x) h;
          (items, h2) =
            copy_ptr ZeroCell BudgetsCell unBudgets (copy_list XPodDisruptionBudget_DeepCopyInto) (bl_items x) h1
      in (x\<lparr>bl_meta := meta, bl_items := items\<rparr>, h2))"

definition XPodDisruptionBudgetList_DeepCopy :: "addr option deep_copy" where
  "XPodDisruptionBudgetList_DeepCopy =
     copy_ptr ZeroCell BudgetListCell unBudgetList XPodDisruptionBudgetList_DeepCopyInto"

text \<open>
  \<^verbatim>\<open>runtime.Object\<close>: a value of the interface is nil or a typed pointer. A nil pointer of a type is turned
  into the nil interface.
\<close>

datatype runtime_object = BudgetObject "addr option" | BudgetListObject "addr option"

definition XPodDisruptionBudget_DeepCopyObject :: "addr option \<Rightarrow> cell heap \<Rightarrow> runtime_object option \<times> cell heap" where
  "XPodDisruptionBudget_DeepCopyObject p h =
     (case XPodDisruptionBudget_DeepCopy p h of
        (c, h1) \<Rightarrow> if c \<noteq> None then (Some (BudgetObject c), h1) else (None, h1))"

definition XPodDisruptionBudgetList_DeepCopyObject ::
    "addr option \<Rightarrow> cell heap \<Rightarrow> runtime_object option \<times> cell heap" where
  "XPodDisruptionBudgetList_DeepCopyObject p h =
     (case XPodDisruptionBudgetList_DeepCopy p h of
        (c, h1) \<Rightarrow> if c \<noteq> None then (Some (BudgetListObject c), h1) else (None, h1))"


section \<open>The views of the structs\<close>

definition view_bool :: "(cell, addr option) view" where
  "view_bool = view_ptr unBool (view_leaf OBool)"

definition view_int64 :: "(cell, addr option) view" where
  "view_int64 = view_ptr unInt64 (view_leaf (\<lambda>n. OInt (sint n)))"

definition view_time :: "(cell, addr option) view" where
  "view_time = view_ptr unTime (view_leaf OInt)"

definition view_intOrString :: "(cell, addr option) view" where
  "view_intOrString = view_ptr unIntOrString (view_leaf OIntStr)"

definition view_stringMap :: "(cell, addr option) view" where
  "view_stringMap = view_ptr unMap view_map"

definition view_strings :: "(cell, addr option) view" where
  "view_strings = view_ptr unStrings (view_leaf OTexts)"

definition view_FieldsV1 :: "(cell, fields_obj) view" where
  "view_FieldsV1 = view_struct (\<lambda>_. ONil) fo_raw (view_ptr unBytes (view_leaf OText))"

definition view_ManagedFieldsEntry :: "(cell, managed_obj) view" where
  "view_ManagedFieldsEntry =
     view_struct (\<lambda>x. OTexts [mo_manager x, mo_operation x, mo_apiVersion x, mo_fieldsType x, mo_subresource x])
       (\<lambda>x. (mo_time x, mo_fieldsV1 x)) (view_pair view_time (view_ptr unFields view_FieldsV1))"

definition view_OwnerReference :: "(cell, owner_obj) view" where
  "view_OwnerReference =
     view_struct (\<lambda>x. OTexts [oo_apiVersion x, oo_kind x, oo_name x, oo_uid x])
       (\<lambda>x. (oo_controller x, oo_blockOwnerDeletion x)) (view_pair view_bool view_bool)"

definition view_ObjectMeta :: "(cell, object_meta) view" where
  "view_ObjectMeta =
     view_struct
       (\<lambda>x. OPair (OTexts [om_name x, om_generateName x, om_namespace x, om_selfLink x, om_uid x, om_resourceVersion x])
              (OPair (OInt (sint (om_generation x))) (OInt (om_creationTimestamp x))))
       (\<lambda>x. (om_deletionTimestamp x, om_deletionGracePeriodSeconds x, om_labels x, om_annotations x,
             om_ownerReferences x, om_finalizers x, om_managedFields x))
       (view_pair view_time (view_pair view_int64 (view_pair view_stringMap (view_pair view_stringMap
         (view_pair (view_ptr unOwners (view_list view_OwnerReference)) (view_pair view_strings
           (view_ptr unManaged (view_list view_ManagedFieldsEntry))))))))"

definition view_ListMeta :: "(cell, list_meta) view" where
  "view_ListMeta =
     view_struct (\<lambda>x. OTexts [lm_selfLink x, lm_resourceVersion x, lm_continue x]) lm_remainingItemCount view_int64"

definition view_Requirement :: "(cell, requirement_obj) view" where
  "view_Requirement = view_struct (\<lambda>x. OTexts [ro_key x, ro_operator x]) ro_values view_strings"

definition view_Selector :: "(cell, selector_obj) view" where
  "view_Selector =
     view_struct (\<lambda>_. ONil) (\<lambda>x. (so_matchLabels x, so_matchExpressions x))
       (view_pair view_stringMap (view_ptr unRequirements (view_list view_Requirement)))"

definition view_Probe :: "(cell, probe_obj) view" where
  "view_Probe = view_struct (\<lambda>x. OText (po_endpoint x)) po_enabled view_bool"

definition view_Spec :: "(cell, spec_obj) view" where
  "view_Spec =
     view_struct (\<lambda>_. ONil)
       (\<lambda>x. (sp_suspend x, sp_minAvailable x, sp_selector x, sp_maxUnavailable x, sp_probe x))
       (view_pair view_bool (view_pair view_intOrString (view_pair view_Selector
         (view_pair view_intOrString (view_ptr unProbe view_Probe)))))"

definition view_Budget :: "(cell, budget_obj) view" where
  "view_Budget =
     view_struct (\<lambda>x. OTexts [bo_kind x, bo_apiVersion x]) (\<lambda>x. (bo_meta x, bo_spec x))
       (view_pair view_ObjectMeta view_Spec)"

definition view_BudgetList :: "(cell, budget_list_obj) view" where
  "view_BudgetList =
     view_struct (\<lambda>x. OTexts [bl_kind x, bl_apiVersion x]) (\<lambda>x. (bl_meta x, bl_items x))
       (view_pair view_ListMeta (view_ptr unBudgets (view_list view_Budget)))"


section \<open>Every generated copy keeps the contract\<close>

named_theorems copiers \<open>the copies that keep the contract\<close>

declare copier_value [copiers] copier_map [copiers] copier_pair [copiers] copier_list [copiers]

lemma copy_pointers [copiers]:
  "copier copy_bool view_bool" "copier copy_int64 view_int64" "copier copy_time view_time"
  "copier copy_intOrString view_intOrString" "copier copy_stringMap view_stringMap" "copier copy_strings view_strings"
  "copier copy_bytes (view_ptr unBytes (view_leaf OText))"
  unfolding copy_bool_def view_bool_def copy_int64_def view_int64_def copy_time_def view_time_def
    copy_intOrString_def view_intOrString_def copy_stringMap_def view_stringMap_def copy_strings_def view_strings_def
    copy_bytes_def
  by (intro copier_ptr copiers; simp)+

lemmas copy_pair_simps = copy_pair_def Let_def case_prod_beta

interpretation fields: copier FieldsV1_DeepCopyInto view_FieldsV1
  unfolding view_FieldsV1_def
  by (rule copier_struct [where f = copy_bytes and build = "\<lambda>x p. x\<lparr>fo_raw := p\<rparr>"])
    (intro copiers | simp add: FieldsV1_DeepCopyInto_def copy_pair_simps)+

interpretation managed: copier ManagedFieldsEntry_DeepCopyInto view_ManagedFieldsEntry
  unfolding view_ManagedFieldsEntry_def
proof (rule copier_struct [where build = "\<lambda>x p. x\<lparr>mo_time := fst p, mo_fieldsV1 := snd p\<rparr>"])
  show "copier (copy_pair copy_time (copy_ptr ZeroCell FieldsCell unFields FieldsV1_DeepCopyInto))
      (view_pair view_time (view_ptr unFields view_FieldsV1))"
    by (intro copiers copier_ptr fields.copier_axioms) simp
qed (simp_all add: ManagedFieldsEntry_DeepCopyInto_def copy_pair_simps)

interpretation owner: copier OwnerReference_DeepCopyInto view_OwnerReference
  unfolding view_OwnerReference_def
proof (rule copier_struct [where build = "\<lambda>x p. x\<lparr>oo_controller := fst p, oo_blockOwnerDeletion := snd p\<rparr>"])
  show "copier (copy_pair copy_bool copy_bool) (view_pair view_bool view_bool)" by (intro copiers)
qed (simp_all add: OwnerReference_DeepCopyInto_def copy_pair_simps)

interpretation object_meta: copier ObjectMeta_DeepCopyInto view_ObjectMeta
  unfolding view_ObjectMeta_def
proof (rule copier_struct [where build = "\<lambda>x (dt, gp, ls, as, os, fs, ms).
    x\<lparr>om_deletionTimestamp := dt, om_deletionGracePeriodSeconds := gp, om_labels := ls, om_annotations := as,
      om_ownerReferences := os, om_finalizers := fs, om_managedFields := ms\<rparr>"])
  show "copier (copy_pair copy_time (copy_pair copy_int64 (copy_pair copy_stringMap (copy_pair copy_stringMap
         (copy_pair (copy_ptr ZeroCell OwnersCell unOwners (copy_list OwnerReference_DeepCopyInto)) (copy_pair copy_strings
           (copy_ptr ZeroCell ManagedCell unManaged (copy_list ManagedFieldsEntry_DeepCopyInto))))))))
      (view_pair view_time (view_pair view_int64 (view_pair view_stringMap (view_pair view_stringMap
         (view_pair (view_ptr unOwners (view_list view_OwnerReference)) (view_pair view_strings
           (view_ptr unManaged (view_list view_ManagedFieldsEntry))))))))"
    by (intro copiers copier_ptr owner.copier_axioms managed.copier_axioms; simp)
qed (auto simp: ObjectMeta_DeepCopyInto_def copy_pair_simps)

interpretation list_meta: copier ListMeta_DeepCopyInto view_ListMeta
  unfolding view_ListMeta_def
  by (rule copier_struct [where f = copy_int64 and build = "\<lambda>x p. x\<lparr>lm_remainingItemCount := p\<rparr>"])
    (intro copiers | simp add: ListMeta_DeepCopyInto_def copy_pair_simps)+

interpretation requirement: copier LabelSelectorRequirement_DeepCopyInto view_Requirement
  unfolding view_Requirement_def
  by (rule copier_struct [where f = copy_strings and build = "\<lambda>x p. x\<lparr>ro_values := p\<rparr>"])
    (intro copiers | simp add: LabelSelectorRequirement_DeepCopyInto_def copy_pair_simps)+

interpretation selector: copier LabelSelector_DeepCopyInto view_Selector
  unfolding view_Selector_def
proof (rule copier_struct [where build = "\<lambda>x p. x\<lparr>so_matchLabels := fst p, so_matchExpressions := snd p\<rparr>"])
  show "copier (copy_pair copy_stringMap
        (copy_ptr ZeroCell RequirementsCell unRequirements (copy_list LabelSelectorRequirement_DeepCopyInto)))
      (view_pair view_stringMap (view_ptr unRequirements (view_list view_Requirement)))"
    by (intro copiers copier_ptr requirement.copier_axioms) simp
qed (simp_all add: LabelSelector_DeepCopyInto_def copy_pair_simps)

interpretation probe: copier XPodDisruptionBudgetProbeSpec_DeepCopyInto view_Probe
  unfolding view_Probe_def
  by (rule copier_struct [where f = copy_bool and build = "\<lambda>x p. x\<lparr>po_enabled := p\<rparr>"])
    (intro copiers | simp add: XPodDisruptionBudgetProbeSpec_DeepCopyInto_def copy_pair_simps)+

interpretation spec: copier XPodDisruptionBudgetSpec_DeepCopyInto view_Spec
  unfolding view_Spec_def
proof (rule copier_struct [where build = "\<lambda>x (su, mi, se, ma, pr).
    x\<lparr>sp_suspend := su, sp_minAvailable := mi, sp_selector := se, sp_maxUnavailable := ma, sp_probe := pr\<rparr>"])
  show "copier (copy_pair copy_bool (copy_pair copy_intOrString (copy_pair LabelSelector_DeepCopyInto
         (copy_pair copy_intOrString (copy_ptr ZeroCell ProbeCell unProbe XPodDisruptionBudgetProbeSpec_DeepCopyInto)))))
      (view_pair view_bool (view_pair view_intOrString (view_pair view_Selector
         (view_pair view_intOrString (view_ptr unProbe view_Probe)))))"
    by (intro copiers copier_ptr selector.copier_axioms probe.copier_axioms) simp
qed (auto simp: XPodDisruptionBudgetSpec_DeepCopyInto_def copy_pair_simps)

interpretation budget: copier XPodDisruptionBudget_DeepCopyInto view_Budget
  unfolding view_Budget_def
proof (rule copier_struct [where build = "\<lambda>x p. x\<lparr>bo_meta := fst p, bo_spec := snd p\<rparr>"])
  show "copier (copy_pair ObjectMeta_DeepCopyInto XPodDisruptionBudgetSpec_DeepCopyInto) (view_pair view_ObjectMeta view_Spec)"
    by (intro copiers object_meta.copier_axioms spec.copier_axioms)
qed (simp_all add: XPodDisruptionBudget_DeepCopyInto_def copy_pair_simps)

interpretation budget_list: copier XPodDisruptionBudgetList_DeepCopyInto view_BudgetList
  unfolding view_BudgetList_def
proof (rule copier_struct [where build = "\<lambda>x p. x\<lparr>bl_meta := fst p, bl_items := snd p\<rparr>"])
  show "copier (copy_pair ListMeta_DeepCopyInto
        (copy_ptr ZeroCell BudgetsCell unBudgets (copy_list XPodDisruptionBudget_DeepCopyInto)))
      (view_pair view_ListMeta (view_ptr unBudgets (view_list view_Budget)))"
    by (intro copiers copier_ptr list_meta.copier_axioms budget.copier_axioms) simp
qed (simp_all add: XPodDisruptionBudgetList_DeepCopyInto_def copy_pair_simps)

interpretation budget_pointer: copier XPodDisruptionBudget_DeepCopy "view_ptr unBudget view_Budget"
  unfolding XPodDisruptionBudget_DeepCopy_def by (intro copier_ptr budget.copier_axioms) simp

interpretation budget_list_pointer: copier XPodDisruptionBudgetList_DeepCopy "view_ptr unBudgetList view_BudgetList"
  unfolding XPodDisruptionBudgetList_DeepCopy_def by (intro copier_ptr budget_list.copier_axioms) simp

interpretation spec_pointer: copier XPodDisruptionBudgetSpec_DeepCopy "view_ptr unSpec view_Spec"
  unfolding XPodDisruptionBudgetSpec_DeepCopy_def by (intro copier_ptr spec.copier_axioms) simp

interpretation probe_pointer: copier XPodDisruptionBudgetProbeSpec_DeepCopy "view_ptr unProbe view_Probe"
  unfolding XPodDisruptionBudgetProbeSpec_DeepCopy_def by (intro copier_ptr probe.copier_axioms) simp

interpretation status_pointer: copier XPodDisruptionBudgetStatus_DeepCopy "view_ptr unStatus (view_leaf (\<lambda>_. ONil))"
  unfolding XPodDisruptionBudgetStatus_DeepCopy_def XPodDisruptionBudgetStatus_DeepCopyInto_def
  by (intro copier_ptr copiers) simp


text \<open>The method of the interface, called on a typed pointer, and the view of an interface value.\<close>

definition DeepCopyObject :: "runtime_object \<Rightarrow> cell heap \<Rightarrow> runtime_object option \<times> cell heap" where
  "DeepCopyObject obj =
     (case obj of
        BudgetObject p \<Rightarrow> XPodDisruptionBudget_DeepCopyObject p
      | BudgetListObject p \<Rightarrow> XPodDisruptionBudgetList_DeepCopyObject p)"

definition view_object :: "(cell, runtime_object option) view" where
  "view_object h obj =
     (case obj of
        None \<Rightarrow> Some (ONil, {})
      | Some (BudgetObject p) \<Rightarrow> view_ptr unBudget view_Budget h p
      | Some (BudgetListObject p) \<Rightarrow> view_ptr unBudgetList view_BudgetList h p)"

lemma view_object_wrap:
  "view_object h (if c \<noteq> None then Some (BudgetObject c) else None) = view_ptr unBudget view_Budget h c"
  "view_object h (if c \<noteq> None then Some (BudgetListObject c) else None) = view_ptr unBudgetList view_BudgetList h c"
  by (simp_all add: view_object_def view_ptr_def)

lemma DeepCopyObject_eq:
  "DeepCopyObject (BudgetObject p) h =
     (case XPodDisruptionBudget_DeepCopy p h of (c, h1) \<Rightarrow> (if c \<noteq> None then Some (BudgetObject c) else None, h1))"
  "DeepCopyObject (BudgetListObject p) h =
     (case XPodDisruptionBudgetList_DeepCopy p h of (c, h1) \<Rightarrow> (if c \<noteq> None then Some (BudgetListObject c) else None, h1))"
  by (simp_all add: DeepCopyObject_def XPodDisruptionBudget_DeepCopyObject_def
      XPodDisruptionBudgetList_DeepCopyObject_def split: prod.splits)

text \<open>A budget in the cache: suspended, with a label and a probe that is switched off.\<close>

definition cached_budget :: budget_obj where
  "cached_budget =
     \<lparr>bo_kind = ''XPodDisruptionBudget'', bo_apiVersion = ''x-pdb.form3.tech/v1alpha1'',
      bo_meta = \<lparr>om_name = ''db'', om_generateName = [], om_namespace = ''shop'', om_selfLink = [], om_uid = ''u1'',
        om_resourceVersion = ''7'', om_generation = 1, om_creationTimestamp = 0, om_deletionTimestamp = None,
        om_deletionGracePeriodSeconds = None, om_labels = Some 1, om_annotations = None, om_ownerReferences = None,
        om_finalizers = None, om_managedFields = None\<rparr>,
      bo_spec = \<lparr>sp_suspend = Some 2, sp_minAvailable = None,
        sp_selector = \<lparr>so_matchLabels = Some 1, so_matchExpressions = None\<rparr>,
        sp_maxUnavailable = None, sp_probe = Some 3\<rparr>,
      bo_status = ()\<rparr>"

definition cache :: "cell heap" where
  "cache = \<lparr>cells = [0 \<mapsto> BudgetCell cached_budget, 1 \<mapsto> MapCell [(''app'', ''db'')], 2 \<mapsto> BoolCell True,
     3 \<mapsto> ProbeCell \<lparr>po_enabled = Some 4, po_endpoint = ''probe:8080''\<rparr>, 4 \<mapsto> BoolCell False], lim = 5\<rparr>"

lemmas view_defs = view_Budget_def view_ObjectMeta_def view_Spec_def view_Selector_def view_Probe_def view_struct_def
  view_pair_def view_ptr_def view_bool_def view_int64_def view_time_def view_intOrString_def view_stringMap_def
  view_strings_def view_map_def view_leaf_def


section \<open>Properties\<close>

text \<open>
  C26. A deep copy is a copy and is deep: for a budget or a list of budgets whose pointers lead to cells of
  the right types, \<^verbatim>\<open>DeepCopyObject\<close> returns an object that looks the same through all its pointers (nil
  for nil), leaves the original as it was, and shares no memory with it: whatever is written to a cell of
  the one is not seen through the other.
\<close>

theorem deep_copies_are_independent:
  assumes "heap_ok h" "view_object h (Some obj) = Some (v, R)" "DeepCopyObject obj h = (copy, h')"
  shows "\<exists>R'. view_object h' (Some obj) = Some (v, R) \<and> view_object h' copy = Some (v, R') \<and> R \<inter> R' = {} \<and>
    (\<forall>a c. a \<in> R' \<longrightarrow> view_object (store a c h') (Some obj) = Some (v, R)) \<and>
    (\<forall>a c. a \<in> R \<longrightarrow> view_object (store a c h') copy = Some (v, R'))"
proof (cases obj)
  case (BudgetObject p)
  obtain c where c: "XPodDisruptionBudget_DeepCopy p h = (c, h')" "copy = (if c \<noteq> None then Some (BudgetObject c) else None)"
    using assms(3) BudgetObject by (auto simp: DeepCopyObject_eq(1) split: prod.splits)
  have "view_ptr unBudget view_Budget h p = Some (v, R)" using assms(2) BudgetObject by (simp add: view_object_def)
  from budget_pointer.independent [OF assms(1) this c(1)] show ?thesis
    unfolding c(2) view_object_wrap BudgetObject by (simp add: view_object_def)
next
  case (BudgetListObject p)
  obtain c where c: "XPodDisruptionBudgetList_DeepCopy p h = (c, h')"
    "copy = (if c \<noteq> None then Some (BudgetListObject c) else None)"
    using assms(3) BudgetListObject by (auto simp: DeepCopyObject_eq(2) split: prod.splits)
  have "view_ptr unBudgetList view_BudgetList h p = Some (v, R)" using assms(2) BudgetListObject by (simp add: view_object_def)
  from budget_list_pointer.independent [OF assms(1) this c(1)] show ?thesis
    unfolding c(2) view_object_wrap BudgetListObject by (simp add: view_object_def)
qed

theorem deep_copies_are_independent_witness:
  "\<exists>copy h' v R'. DeepCopyObject (BudgetObject (Some 0)) cache = (copy, h') \<and>
     view_object h' (Some (BudgetObject (Some 0))) = Some (v, {0, 1, 2, 3, 4}) \<and>
     view_object h' copy = Some (v, R') \<and> {0, 1, 2, 3, 4} \<inter> R' = {}"
proof -
  obtain copy h' where cp: "DeepCopyObject (BudgetObject (Some 0)) cache = (copy, h')" by fastforce
  have ok: "heap_ok cache" by (auto simp: heap_ok_def cache_def split: if_splits)
  obtain v where v: "view_object cache (Some (BudgetObject (Some 0))) = Some (v, {0, 1, 2, 3, 4})"
    by (simp add: view_object_def cache_def cached_budget_def view_defs insert_commute)
  obtain R' where "view_object h' (Some (BudgetObject (Some 0))) = Some (v, {0, 1, 2, 3, 4})"
      "view_object h' copy = Some (v, R')" "{0, 1, 2, 3, 4} \<inter> R' = {}"
    using deep_copies_are_independent [OF ok v cp] by (elim exE conjE) (rule that)
  with cp show ?thesis by (intro exI conjI)
qed

end
