(* ===== verification/Metric_Vectors.thy ===== *)
theory Metric_Vectors
  imports Metrics Wire_Coders
begin

text \<open>
  The descriptors of the counters of \<^verbatim>\<open>internal/metrics/metrics.go\<close>, and what the vendored Prometheus client
  does with them as far as it can stop the program: a registration with \<^verbatim>\<open>MustRegister\<close> panics on an
  invalid or a known descriptor, and \<^verbatim>\<open>WithLabelValues\<close> panics on a wrong number of label values and on a
  value that is not UTF-8. The hash of the client is a parameter. Registering the metrics of the gRPC
  middleware is a parameter too.
\<close>

section \<open>Descriptors\<close>

definition xpdbNamespace :: string where "xpdbNamespace = ''xpdb''"
definition labelNamespace :: string where "labelNamespace = ''namespace''"
definition labelResource :: string where "labelResource = ''resource''"
definition labelSubresource :: string where "labelSubresource = ''subresource''"
definition labelOperation :: string where "labelOperation = ''operation''"

definition BuildFQName :: "string \<Rightarrow> string \<Rightarrow> string \<Rightarrow> string" where
  "BuildFQName ns subsystem name =
     (if name = [] then []
      else if ns \<noteq> [] \<and> subsystem \<noteq> [] then ns @ ''_'' @ subsystem @ ''_'' @ name
      else if ns \<noteq> [] then ns @ ''_'' @ name
      else if subsystem \<noteq> [] then subsystem @ ''_'' @ name
      else name)"

definition letter :: "char \<Rightarrow> bool" where
  "letter b \<longleftrightarrow> in_range 0x61 0x7A b \<or> in_range 0x41 0x5A b \<or> b = CHR ''_''"

definition digit :: "char \<Rightarrow> bool" where
  "digit b \<longleftrightarrow> in_range 0x30 0x39 b"

definition IsValidLegacyMetricName :: "string \<Rightarrow> bool" where
  "IsValidLegacyMetricName n =
     (case n of [] \<Rightarrow> False
      | b # bs \<Rightarrow> (letter b \<or> b = CHR '':'') \<and> list_all (\<lambda>b. letter b \<or> b = CHR '':'' \<or> digit b) bs)"

definition checkLabelName :: "string \<Rightarrow> bool" where
  "checkLabelName l =
     (case l of [] \<Rightarrow> False
      | b # bs \<Rightarrow> letter b \<and> list_all (\<lambda>b. letter b \<or> digit b) bs \<and> take 2 l \<noteq> ''__'')"

text \<open>A descriptor without constant labels. An invalid one is kept and reported at registration.\<close>

record desc =
  de_fqName :: string
  de_help :: string
  de_labels :: "string list"
  de_invalid :: bool

definition NewDesc :: "string \<Rightarrow> string \<Rightarrow> string list \<Rightarrow> desc" where
  "NewDesc fqName help labels =
     \<lparr>de_fqName = fqName, de_help = help, de_labels = labels,
      de_invalid = (\<not> (IsValidLegacyMetricName fqName \<and> utf8_Valid fqName \<and> list_all checkLabelName labels \<and>
        distinct labels))\<rparr>"

definition NewCounterVec :: "string \<Rightarrow> string \<Rightarrow> string \<Rightarrow> string list \<Rightarrow> desc" where
  "NewCounterVec ns name help labels = NewDesc (BuildFQName ns [] name) help labels"

definition evictionRejectedCounter :: desc where
  "evictionRejectedCounter = NewCounterVec xpdbNamespace ''pod_eviction_rejected''
     ''Counter that represents the number of eviction which have been rejected through xpdb''
     [labelNamespace, labelResource, labelSubresource, labelOperation]"

definition podMatchingMultipleXPDBs :: desc where
  "podMatchingMultipleXPDBs = NewCounterVec xpdbNamespace ''pod_matches_multiple_xpdbs''
     (''A eviction attempt for a pod has been observed which matches multiple XPDBs. '' @
      ''This is a invalid configuration and must be fixed'')
     [labelNamespace]"

definition lockErrors :: desc where
  "lockErrors = NewCounterVec xpdbNamespace ''lock_errors''
     ''Counter that represents the number of errors when obtaining locks for xpdb.'' [labelNamespace]"

section \<open>Label values\<close>

definition validateLabelValues :: "string list \<Rightarrow> nat \<Rightarrow> bool" where
  "validateLabelValues vals expectedNumberOfValues \<longleftrightarrow>
     length vals = expectedNumberOfValues \<and> list_all utf8_Valid vals"

text \<open>The series of a list of label values, or a panic.\<close>

definition WithLabelValues :: "desc \<Rightarrow> string list \<Rightarrow> string list go" where
  "WithLabelValues d lvs = (if validateLabelValues lvs (length (de_labels d)) then Ok lvs else Panic)"

section \<open>Registration\<close>

text \<open>The registry: the known descriptors and collectors by hash, and the hash of the labels of each name.\<close>

record registry =
  rg_descIDs :: "64 word list"
  rg_dimHashesByName :: "string \<Rightarrow> 64 word option"
  rg_collectorsByID :: "64 word list"

definition desc_id :: "(string list \<Rightarrow> 64 word) \<Rightarrow> desc \<Rightarrow> 64 word" where
  "desc_id xxh d = xxh [de_fqName d]"

definition dimHash :: "(string list \<Rightarrow> 64 word) \<Rightarrow> desc \<Rightarrow> 64 word" where
  "dimHash xxh d = xxh (de_help d # sort (map (\<lambda>l. ''$'' @ l) (de_labels d)))"

text \<open>The loop of \<^verbatim>\<open>Register\<close> over the descriptors of a collector; the flag remembers a known descriptor.\<close>

type_synonym registration = "64 word list \<times> (string \<Rightarrow> 64 word option) \<times> 64 word \<times> bool"

fun register_descs ::
    "(string list \<Rightarrow> 64 word) \<Rightarrow> registry \<Rightarrow> desc list \<Rightarrow> registration \<Rightarrow> go_err + registration" where
  "register_descs xxh r [] acc = Inr acc"
| "register_descs xxh r (d # ds) (newDescIDs, newDims, collectorID, dup) =
     (if de_invalid d then Inl (EMsg ''descriptor is invalid'')
      else
        (let i = desc_id xxh d; h = dimHash xxh d;
             dup' = (dup \<or> i \<in> set (rg_descIDs r));
             ids' = (if i \<in> set newDescIDs then newDescIDs else i # newDescIDs);
             cid' = (if i \<in> set newDescIDs then collectorID else xor collectorID i)
         in case rg_dimHashesByName r (de_fqName d) of
              Some k \<Rightarrow>
                if k \<noteq> h then Inl (EMsg ''previously registered descriptor differs'')
                else register_descs xxh r ds (ids', newDims, cid', dup')
            | None \<Rightarrow>
                (case newDims (de_fqName d) of
                   Some k \<Rightarrow>
                     if k \<noteq> h then Inl (EMsg ''inconsistent descriptors'')
                     else register_descs xxh r ds (ids', newDims, cid', dup')
                 | None \<Rightarrow> register_descs xxh r ds (ids', newDims(de_fqName d \<mapsto> h), cid', dup'))))"

definition Register :: "(string list \<Rightarrow> 64 word) \<Rightarrow> desc list \<Rightarrow> registry \<Rightarrow> go_err + registry" where
  "Register xxh ds r =
     (case register_descs xxh r ds ([], Map.empty, 0, False) of
        Inl e \<Rightarrow> Inl e
      | Inr (newDescIDs, newDims, collectorID, dup) \<Rightarrow>
          if newDescIDs = [] then Inr r
          else if collectorID \<in> set (rg_collectorsByID r) then Inl (EMsg ''duplicate metrics collector registration attempted'')
          else if dup then Inl (EMsg ''descriptor already exists'')
          else Inr \<lparr>rg_descIDs = newDescIDs @ rg_descIDs r, rg_dimHashesByName = rg_dimHashesByName r ++ newDims,
                    rg_collectorsByID = collectorID # rg_collectorsByID r\<rparr>)"

definition MustRegister :: "(string list \<Rightarrow> 64 word) \<Rightarrow> desc list \<Rightarrow> registry \<Rightarrow> registry go" where
  "MustRegister xxh ds r = (case Register xxh ds r of Inl e \<Rightarrow> Panic | Inr r' \<Rightarrow> Ok r')"

text \<open>The initialisation of the package; the gRPC metrics come last.\<close>

definition metrics_init ::
    "(string list \<Rightarrow> 64 word) \<Rightarrow> (registry \<Rightarrow> registry go) \<Rightarrow> registry \<Rightarrow> registry go" where
  "metrics_init xxh registerGrpc r =
     (case MustRegister xxh [podMatchingMultipleXPDBs] r of
        Ok r1 \<Rightarrow>
          (case MustRegister xxh [evictionRejectedCounter] r1 of
             Ok r2 \<Rightarrow>
               (case MustRegister xxh [lockErrors] r2 of Ok r3 \<Rightarrow> registerGrpc r3 | Err e \<Rightarrow> Err e | Panic \<Rightarrow> Panic)
           | Err e \<Rightarrow> Err e | Panic \<Rightarrow> Panic)
      | Err e \<Rightarrow> Err e | Panic \<Rightarrow> Panic)"

section \<open>What is shown\<close>

lemma counter_names:
  "de_fqName evictionRejectedCounter = ''xpdb_pod_eviction_rejected''"
  "de_fqName podMatchingMultipleXPDBs = ''xpdb_pod_matches_multiple_xpdbs''"
  "de_fqName lockErrors = ''xpdb_lock_errors''"
  by code_simp+

lemma counters_valid:
  "\<not> de_invalid evictionRejectedCounter" "\<not> de_invalid podMatchingMultipleXPDBs" "\<not> de_invalid lockErrors"
  by code_simp+

text \<open>The calls of the three observers give as many label values as their counters have labels.\<close>

lemma observed_series:
  "list_all utf8_Valid [ns, resource, subresource, operation] \<Longrightarrow>
     WithLabelValues evictionRejectedCounter [ns, resource, subresource, operation] = Ok [ns, resource, subresource, operation]"
  "utf8_Valid ns \<Longrightarrow> WithLabelValues podMatchingMultipleXPDBs [ns] = Ok [ns]"
  "utf8_Valid ns \<Longrightarrow> WithLabelValues lockErrors [ns] = Ok [ns]"
  by (simp_all add: WithLabelValues_def validateLabelValues_def evictionRejectedCounter_def
      podMatchingMultipleXPDBs_def lockErrors_def NewCounterVec_def NewDesc_def)

lemma register_one:
  assumes "\<not> de_invalid d" "desc_id xxh d \<notin> set (rg_descIDs r)" "desc_id xxh d \<notin> set (rg_collectorsByID r)"
    and "rg_dimHashesByName r (de_fqName d) = None"
  shows "MustRegister xxh [d] r =
     Ok \<lparr>rg_descIDs = desc_id xxh d # rg_descIDs r,
         rg_dimHashesByName = (rg_dimHashesByName r)(de_fqName d \<mapsto> dimHash xxh d),
         rg_collectorsByID = desc_id xxh d # rg_collectorsByID r\<rparr>"
  using assms by (simp add: MustRegister_def Register_def Let_def)

text \<open>A registry that has none of the counters yet, by name or by hash.\<close>

definition unregistered :: "(string list \<Rightarrow> 64 word) \<Rightarrow> registry \<Rightarrow> bool" where
  "unregistered xxh r \<longleftrightarrow>
     (\<forall>d\<in>{podMatchingMultipleXPDBs, evictionRejectedCounter, lockErrors}.
        desc_id xxh d \<notin> set (rg_descIDs r) \<union> set (rg_collectorsByID r) \<and> rg_dimHashesByName r (de_fqName d) = None)"

lemma metrics_init_registers:
  assumes "unregistered xxh r"
    and "inj_on (desc_id xxh) {podMatchingMultipleXPDBs, evictionRejectedCounter, lockErrors}"
  obtains r3 where "metrics_init xxh registerGrpc r = registerGrpc r3"
    and "\<forall>d\<in>{podMatchingMultipleXPDBs, evictionRejectedCounter, lockErrors}.
      desc_id xxh d \<in> set (rg_descIDs r3) \<and> rg_dimHashesByName r3 (de_fqName d) = Some (dimHash xxh d)"
proof -
  have ne: "podMatchingMultipleXPDBs \<noteq> evictionRejectedCounter" "podMatchingMultipleXPDBs \<noteq> lockErrors"
    "evictionRejectedCounter \<noteq> lockErrors" using counter_names by force+
  then have ids: "desc_id xxh podMatchingMultipleXPDBs \<noteq> desc_id xxh evictionRejectedCounter"
    "desc_id xxh podMatchingMultipleXPDBs \<noteq> desc_id xxh lockErrors"
    "desc_id xxh evictionRejectedCounter \<noteq> desc_id xxh lockErrors"
    using assms(2) by (auto simp: inj_on_def)
  have "\<exists>r3. metrics_init xxh registerGrpc r = registerGrpc r3 \<and>
      (\<forall>d\<in>{podMatchingMultipleXPDBs, evictionRejectedCounter, lockErrors}.
        desc_id xxh d \<in> set (rg_descIDs r3) \<and> rg_dimHashesByName r3 (de_fqName d) = Some (dimHash xxh d))"
    using assms(1) ids counters_valid
    by (simp add: metrics_init_def register_one unregistered_def counter_names) (intro exI conjI, rule refl, simp_all)
  then show thesis using that by blast
qed

end
