(* ===== verification/Lease_Separation.thy ===== *)
theory Lease_Separation
  imports Lease_Name
begin

text \<open>
  Which budgets share a lease. The namespace and the printed selector are hashed one after the other, and
  the first 24 bytes of the digest are printed in lower-case base32. Nothing is lost on the way but in the
  hash: the printed form of a valid selector can be read back, and so can the base32 text.
\<close>

section \<open>Characters of valid keys and values\<close>

lemma qname_ext_char_plain:
  "qname_ext_char c \<Longrightarrow> c \<noteq> CHR ''&'' \<and> c \<noteq> CHR '':'' \<and> c \<noteq> CHR '','' \<and> c \<noteq> CHR ''}'' \<and> c \<noteq> CHR '' ''"
  by (auto simp: qname_ext_char_def qname_char_def is_lower_def is_upper_def is_digit_def less_eq_char_def)

lemma dns1123_char_qname: "dns1123_char c \<Longrightarrow> qname_ext_char c"
  by (auto simp: dns1123_char_def qname_ext_char_def qname_char_def)

lemma set_split_on: "set s \<subseteq> insert c (\<Union> (set ` set (split_on c s)))"
proof (induction s)
  case (Cons x xs)
  then show ?case by (cases "split_on c xs") auto
qed simp

lemma qualified_part_chars: "qualified_name_part_errors s = [] \<Longrightarrow> c \<in> set s \<Longrightarrow> qname_ext_char c"
  by (auto simp: qualified_name_part_errors_def qualifiedName_match_def list_all_iff split: if_splits)

lemma subdomain_chars:
  assumes "IsDNS1123Subdomain s = []" "c \<in> set s"
  shows "qname_ext_char c"
proof -
  have m: "list_all dns1123Label_match (split_on CHR ''.'' s)"
    using assms(1) by (auto simp: IsDNS1123Subdomain_def dns1123Subdomain_match_def split: if_splits)
  show ?thesis
  proof (cases "c = CHR ''.''")
    case False
    then obtain l where "l \<in> set (split_on CHR ''.'' s)" "c \<in> set l"
      using set_split_on [of s "CHR ''.''"] assms(2) by auto
    then have "dns1123_char c \<or> c = CHR ''-''" using m by (auto simp: dns1123Label_match_def list_all_iff)
    then show ?thesis using dns1123_char_qname by (auto simp: qname_ext_char_def)
  qed (simp add: qname_ext_char_def)
qed

lemma key_chars:
  assumes "IsQualifiedName k = []" "c \<in> set k"
  shows "qname_ext_char c \<or> c = CHR ''/''"
proof -
  consider n where "split_on CHR ''/'' k = [n]" | p n where "split_on CHR ''/'' k = [p, n]"
    using assms(1) by (auto simp: IsQualifiedName_def split: list.splits)
  then show ?thesis
  proof cases
    case 1
    then show ?thesis
      using assms set_split_on [of k "CHR ''/''"] qualified_part_chars [of n c] by (auto simp: IsQualifiedName_def)
  next
    case 2
    then have "IsDNS1123Subdomain p = []" "qualified_name_part_errors n = []"
      using assms(1) by (auto simp: IsQualifiedName_def split: if_splits)
    then show ?thesis
      using 2 assms(2) set_split_on [of k "CHR ''/''"] qualified_part_chars [of n c] subdomain_chars [of p c] by auto
  qed
qed

definition plain :: "string \<Rightarrow> bool" where
  "plain s \<longleftrightarrow> CHR '':'' \<notin> set s \<and> CHR '','' \<notin> set s \<and> CHR ''}'' \<notin> set s \<and> CHR '' '' \<notin> set s"

lemma plain_key: "IsQualifiedName k = [] \<Longrightarrow> plain k"
  using key_chars [of k] qname_ext_char_plain by (fastforce simp: plain_def)

lemma plain_value: "IsValidLabelValue v = [] \<Longrightarrow> plain v"
  using qname_ext_char_plain
  by (fastforce simp: plain_def IsValidLabelValue_def labelValue_match_def qualifiedName_match_def list_all_iff
      split: if_splits)


section \<open>The printed form can be read back\<close>

lemma terminated_inject:
  assumes "\<And>x. x \<in> set xs \<union> set ys \<Longrightarrow> c \<notin> set x"
    and "concat (map (\<lambda>x. x @ [c]) xs) = concat (map (\<lambda>x. x @ [c]) ys)"
  shows "xs = ys"
  using assms
proof (induction xs arbitrary: ys)
  case Nil
  then show ?case by (cases ys) auto
next
  case (Cons x xs)
  then obtain y ys' where ys: "ys = y # ys'" by (cases ys) auto
  have "x = y \<and> concat (map (\<lambda>x. x @ [c]) xs) = concat (map (\<lambda>x. x @ [c]) ys')"
    by (rule append_sep_inject [where c = c]) (use Cons.prems ys in auto)
  then show ?case using Cons.IH [of ys'] Cons.prems(1) ys by auto
qed

definition label_item :: "dict \<Rightarrow> string \<Rightarrow> string" where
  "label_item d k = k @ '': '' @ set_Get d k"

definition requirement_body :: "label_selector_requirement \<Rightarrow> string" where
  "requirement_body x =
     ''LabelSelectorRequirement{Key:'' @ lsr_key x @ '',Operator:'' @ lsr_operator x @
     '',Values:['' @ join_with '' '' (lsr_values x) @ ''],''"

lemma selector_String_parts:
  "selector_String ps =
     ''&LabelSelector{MatchLabels:map[string]string{'' @
     concat (map (\<lambda>x. x @ '','') (map (label_item (match_labels ps)) (sort (map fst (match_labels ps))))) @
     CHR ''}'' # '',MatchExpressions:[]LabelSelectorRequirement{'' @
     concat (map (\<lambda>x. requirement_body x @ ''},'') (match_expressions ps)) @ ''},}''"
  by (simp add: selector_String_def requirement_String_def requirement_body_def drop_first_def label_item_def comp_def)

definition readable_labels :: "dict \<Rightarrow> bool" where
  "readable_labels d \<longleftrightarrow> (\<forall>(k, v) \<in> set d. plain k \<and> plain v)"

lemma label_item_chars:
  assumes "readable_labels d" "k \<in> fst ` set d"
  shows "CHR '','' \<notin> set (label_item d k)" "CHR ''}'' \<notin> set (label_item d k)" "CHR '':'' \<notin> set k"
proof -
  obtain v where v: "map_of d k = Some v" using assms(2) by (metis map_of_eq_None_iff not_None_eq)
  then have "plain k" "plain v" using assms(1) by (auto simp: readable_labels_def dest!: map_of_SomeD)
  then show "CHR '','' \<notin> set (label_item d k)" "CHR ''}'' \<notin> set (label_item d k)" "CHR '':'' \<notin> set k"
    using v by (auto simp: label_item_def set_Get_def plain_def)
qed

lemma map_eq_inject:
  assumes "map f xs = map g ys" "\<And>x y. x \<in> set xs \<Longrightarrow> y \<in> set ys \<Longrightarrow> f x = g y \<Longrightarrow> x = y \<and> P x"
  shows "xs = ys \<and> (\<forall>x \<in> set xs. P x)"
  using assms
proof (induction xs arbitrary: ys)
  case (Cons x xs)
  then obtain y ys' where ys: "ys = y # ys'" "f x = g y" "map f xs = map g ys'" by (cases ys) auto
  have "x = y \<and> P x" by (rule Cons.prems(2)) (use ys in simp_all)
  moreover have "xs = ys' \<and> (\<forall>x \<in> set xs. P x)"
    by (rule Cons.IH [OF ys(3)], rule Cons.prems(2)) (use ys(1) in simp_all)
  ultimately show ?case using ys(1) by auto
qed simp

lemma map_of_set_Get: "map_of d k = (if k \<in> fst ` set d then Some (set_Get d k) else None)"
proof (cases "map_of d k")
  case None
  then show ?thesis by (simp add: map_of_eq_None_iff)
next
  case (Some v)
  then have "k \<in> fst ` set d" by (metis map_of_eq_None_iff option.distinct(1))
  then show ?thesis using Some by (simp add: set_Get_def)
qed

lemma label_items_inject:
  assumes "readable_labels d" "readable_labels d'"
    and "map (label_item d) (sort (map fst d)) = map (label_item d') (sort (map fst d'))"
  shows "map_of d = map_of d'"
proof -
  have "sort (map fst d) = sort (map fst d') \<and> (\<forall>k \<in> set (sort (map fst d)). set_Get d k = set_Get d' k)"
  proof (rule map_eq_inject [OF assms(3)])
    fix k k'
    assume k: "k \<in> set (sort (map fst d))" "k' \<in> set (sort (map fst d'))" "label_item d k = label_item d' k'"
    have "k = k' \<and> CHR '' '' # set_Get d k = CHR '' '' # set_Get d' k'"
      by (rule append_sep_inject [of "CHR '':''"])
         (use k label_item_chars(3) [OF assms(1), of k] label_item_chars(3) [OF assms(2), of k'] in
           \<open>auto simp: label_item_def\<close>)
    then show "k = k' \<and> set_Get d k = set_Get d' k" by auto
  qed
  then have "set (map fst d) = set (map fst d')" "\<forall>k \<in> set (map fst d). set_Get d k = set_Get d' k"
    by (metis set_sort)+
  then show ?thesis by (auto simp: map_of_set_Get fun_eq_iff)
qed

text \<open>An expression: its key and operator have no comma, its values no space.\<close>

lemma operator_plain: "valid_expression x \<Longrightarrow> plain (lsr_operator x)"
  by (auto simp: valid_expression_def selector_operator_def plain_def split: if_splits)

lemma valid_expressionD:
  assumes "valid_expression x"
  shows "plain (lsr_key x)" "\<And>v. v \<in> set (lsr_values x) \<Longrightarrow> plain v"
    "lsr_values x = [] \<longleftrightarrow> lsr_operator x = ''Exists'' \<or> lsr_operator x = ''DoesNotExist''"
  using assms plain_key plain_value
  by (auto simp: valid_expression_def valid_requirement_def selector_operator_def operator_errors_def split: if_splits)

lemma set_join_with: "set (join_with sep xs) \<subseteq> set sep \<union> \<Union> (set ` set xs)"
  by (induction sep xs rule: join_with.induct) auto

lemma requirement_body_chars:
  assumes "valid_expression x"
  shows "CHR ''}'' \<notin> set (requirement_body x)"
  using operator_plain [OF assms] valid_expressionD(1,2) [OF assms] set_join_with [of "'' ''" "lsr_values x"]
  by (auto simp: requirement_body_def plain_def)

lemma join_space_inject:
  assumes "join_with '' '' xs = join_with '' '' ys" "xs \<noteq> []" "ys \<noteq> []"
    and "\<And>v. v \<in> set xs \<Longrightarrow> plain v" "\<And>v. v \<in> set ys \<Longrightarrow> plain v"
  shows "xs = ys"
proof -
  have "split_on CHR '' '' (join_with '' '' zs) = zs" if "zs \<noteq> []" "\<And>v. v \<in> set zs \<Longrightarrow> plain v" for zs
    by (rule split_join [OF that(1)]) (use that(2) in \<open>simp add: plain_def\<close>)
  from this [OF assms(2,4)] this [OF assms(3,5)] show ?thesis
    unfolding assms(1) by (rule trans [OF sym])
qed

lemma requirement_body_inject:
  assumes "valid_expression x" "valid_expression y" "requirement_body x = requirement_body y"
  shows "x = y"
proof -
  have k: "lsr_key x = lsr_key y \<and> ''Operator:'' @ lsr_operator x @ '',Values:['' @ join_with '' '' (lsr_values x) @ ''],'' =
      ''Operator:'' @ lsr_operator y @ '',Values:['' @ join_with '' '' (lsr_values y) @ ''],''"
    by (rule append_sep_inject [of "CHR '',''"])
       (use assms(3) valid_expressionD(1) [OF assms(1)] valid_expressionD(1) [OF assms(2)] in
         \<open>auto simp: requirement_body_def plain_def\<close>)
  have o: "lsr_operator x = lsr_operator y \<and> ''Values:['' @ join_with '' '' (lsr_values x) @ ''],'' =
      ''Values:['' @ join_with '' '' (lsr_values y) @ ''],''"
    by (rule append_sep_inject [of "CHR '',''"])
       (use k operator_plain [OF assms(1)] operator_plain [OF assms(2)] in \<open>auto simp: plain_def\<close>)
  then have "join_with '' '' (lsr_values x) = join_with '' '' (lsr_values y)" by simp
  then have "lsr_values x = lsr_values y"
    using o valid_expressionD(3) [OF assms(1)] valid_expressionD(3) [OF assms(2)]
      join_space_inject [OF _ _ _ valid_expressionD(2) [OF assms(1)] valid_expressionD(2) [OF assms(2)]]
    by (cases "lsr_values x = []") auto
  then show ?thesis using k o by simp
qed

lemma expressions_inject:
  assumes "\<And>x. x \<in> set xs \<union> set ys \<Longrightarrow> valid_expression x"
    and "concat (map (\<lambda>x. requirement_body x @ ''},'') xs) @ ''},}'' = concat (map (\<lambda>x. requirement_body x @ ''},'') ys) @ ''},}''"
  shows "xs = ys"
  using assms
proof (induction xs arbitrary: ys)
  case Nil
  then show ?case by (cases ys) (auto simp: requirement_body_def)
next
  case (Cons x xs)
  then obtain y ys' where ys: "ys = y # ys'" by (cases ys) (auto simp: requirement_body_def)
  have "requirement_body x = requirement_body y \<and>
      CHR '','' # concat (map (\<lambda>x. requirement_body x @ ''},'') xs) @ ''},}'' =
      CHR '','' # concat (map (\<lambda>x. requirement_body x @ ''},'') ys') @ ''},}''"
    by (rule append_sep_inject [of "CHR ''}''"]) (use Cons.prems ys requirement_body_chars in auto)
  then show ?case
    using Cons.IH [of ys'] Cons.prems(1) ys requirement_body_inject [of x y] by auto
qed

lemma readable_valid: "valid_selector ps \<Longrightarrow> readable_labels (match_labels ps)"
  using plain_key plain_value by (fastforce simp: valid_selector_def readable_labels_def valid_requirement_def)

lemma selector_String_inject:
  assumes "valid_selector ps" "valid_selector ps'" "selector_String ps = selector_String ps'"
  shows "map_of (match_labels ps) = map_of (match_labels ps') \<and> match_expressions ps = match_expressions ps'"
proof -
  let ?items = "\<lambda>d. map (label_item d) (sort (map fst d))"
  let ?L = "\<lambda>ps. concat (map (\<lambda>x. x @ '','') (?items (match_labels ps)))"
  let ?E = "\<lambda>ps. concat (map (\<lambda>x. requirement_body x @ ''},'') (match_expressions ps)) @ ''},}''"
  note r = readable_valid [OF assms(1)] readable_valid [OF assms(2)]
  have "?L ps = ?L ps' \<and> '',MatchExpressions:[]LabelSelectorRequirement{'' @ ?E ps = '',MatchExpressions:[]LabelSelectorRequirement{'' @ ?E ps'"
  proof (rule append_sep_inject [of "CHR ''}''"])
    show "CHR ''}'' \<notin> set (?L ps)" using label_item_chars(2) [OF r(1)] by auto
    show "CHR ''}'' \<notin> set (?L ps')" using label_item_chars(2) [OF r(2)] by auto
    show "?L ps @ CHR ''}'' # '',MatchExpressions:[]LabelSelectorRequirement{'' @ ?E ps =
        ?L ps' @ CHR ''}'' # '',MatchExpressions:[]LabelSelectorRequirement{'' @ ?E ps'"
      using assms(3) unfolding selector_String_parts by (simp only: same_append_eq)
  qed
  then have L: "?L ps = ?L ps'" and E: "?E ps = ?E ps'" by simp_all
  have "?items (match_labels ps) = ?items (match_labels ps')"
    by (rule terminated_inject [OF _ L]) (use label_item_chars(1) [OF r(1)] label_item_chars(1) [OF r(2)] in auto)
  moreover have "match_expressions ps = match_expressions ps'"
    by (rule expressions_inject [OF _ E]) (use assms(1,2) in \<open>auto simp: valid_selector_def\<close>)
  ultimately show ?thesis using label_items_inject [OF r] by blast
qed


section \<open>The base32 text can be read back\<close>

lemma bits_value_snoc: "bits_value (bs @ [b]) = 2 * bits_value bs + (if b then 1 else 0)"
  by (simp add: bits_value_def)

lemma bits_value_less: "bits_value bs < 2 ^ length bs"
proof (induction bs rule: rev_induct)
  case Nil
  then show ?case by (simp add: bits_value_def)
next
  case (snoc b bs)
  then show ?case by (simp add: bits_value_snoc)
qed

lemma bits_value_inject: "length as = length bs \<Longrightarrow> bits_value as = bits_value bs \<Longrightarrow> as = bs"
proof (induction as arbitrary: bs rule: rev_induct)
  case (snoc a as)
  then obtain b bs' where bs: "bs = bs' @ [b]" by (cases bs rule: rev_exhaust) auto
  then have "2 * bits_value as + (if a then 1 else 0) = 2 * bits_value bs' + (if b then 1 else 0)"
    using snoc.prems by (simp add: bits_value_snoc)
  then have "a = b \<and> bits_value as = bits_value bs'" by (auto split: if_splits) presburger+
  then show ?case using snoc bs by simp
qed simp

lemma base32_char_inject:
  assumes "length as = length bs" "length bs \<le> 5" "base32_char as = base32_char bs"
  shows "as = bs"
proof -
  let ?f = "\<lambda>bs. take 5 (bs @ replicate 5 False)"
  have len: "length (?f as) = 5" "length (?f bs) = 5" by simp_all
  then have "bits_value (?f as) < 32" "bits_value (?f bs) < 32"
    using bits_value_less [of "?f as"] bits_value_less [of "?f bs"] by (simp_all only: len) simp_all
  moreover have "distinct base32_alphabet" "length base32_alphabet = 32" by code_simp+
  ultimately have "bits_value (?f as) = bits_value (?f bs)"
    using assms(3) by (simp add: base32_char_def nth_eq_iff_index_eq)
  then have "?f as = ?f bs" by (intro bits_value_inject) simp_all
  then show ?thesis using assms(1,2) by simp
qed

lemma chunks_inject:
  assumes "\<And>a b. length a = length b \<Longrightarrow> length b \<le> n \<Longrightarrow> f a = f b \<Longrightarrow> a = b"
  shows "0 < n \<Longrightarrow> length xs = length ys \<Longrightarrow> map f (chunks n xs) = map f (chunks n ys) \<Longrightarrow> xs = ys"
proof (induction "length xs" arbitrary: xs ys rule: less_induct)
  case less
  show ?case
  proof (cases "xs = []")
    case False
    then have ys: "ys \<noteq> []" using less.prems(2) by auto
    have "f (take n xs) = f (take n ys)" "map f (chunks n (drop n xs)) = map f (chunks n (drop n ys))"
      using less.prems(3) False ys less.prems(1) by (subst (asm) (1 2) chunks.simps, simp)+
    moreover have "length (drop n xs) < length xs" using False less.prems(1) by (cases xs) auto
    ultimately have "take n xs = take n ys" "drop n xs = drop n ys"
      using assms [of "take n xs" "take n ys"] less.hyps [of "drop n xs" "drop n ys"] less.prems by simp_all
    then show ?thesis by (metis append_take_drop_id)
  qed (use less.prems in simp)
qed

lemma byte_bits_inject: "byte_bits a = byte_bits b \<Longrightarrow> a = b"
proof (rule bit_word_eqI)
  fix i
  assume "byte_bits a = byte_bits b" "i < LENGTH(8)"
  then have "i \<in> {0, 1, 2, 3, 4, 5, 6, 7}" by auto
  with \<open>byte_bits a = byte_bits b\<close> show "bit a i = bit b i" by (auto simp: byte_bits_def)
qed

lemma bytes_bits_inject:
  assumes "length as = length bs" "concat (map byte_bits as) = concat (map byte_bits bs)"
  shows "as = bs"
proof -
  have "map byte_bits as = map byte_bits bs"
    using assms by (intro concat_injective) (auto simp: byte_bits_def set_zip)
  then show ?thesis by (rule map_injective) (rule injI, rule byte_bits_inject)
qed

lemma base32_digits_inject:
  assumes "length as = length bs" "base32_digits as = base32_digits bs"
  shows "as = bs"
proof (rule bytes_bits_inject [OF assms(1)])
  show "concat (map byte_bits as) = concat (map byte_bits bs)"
    by (rule chunks_inject [where n = 5 and f = base32_char])
       (use assms base32_char_inject in \<open>simp_all add: base32_digits_def length_bits\<close>)
qed

lemma ToLower_inject:
  assumes "set s \<subseteq> set base32_alphabet" "set t \<subseteq> set base32_alphabet" "ToLower s = ToLower t"
  shows "s = t"
proof (rule map_inj_on)
  have "distinct (map to_lower_char base32_alphabet)" by code_simp
  then have "inj_on to_lower_char (set base32_alphabet)" by (simp add: distinct_map)
  then show "inj_on to_lower_char (set s \<union> set t)" by (rule inj_on_subset) (use assms(1,2) in auto)
qed (use assms(3) in \<open>simp add: ToLower_def\<close>)


section \<open>Properties\<close>

text \<open>Two different texts whose digests agree in the bytes that a lease name keeps.\<close>

definition sha256_collision :: "string \<Rightarrow> string \<Rightarrow> bool" where
  "sha256_collision s t \<longleftrightarrow>
     string_bytes s \<noteq> string_bytes t \<and> take 24 (sha256 (string_bytes s)) = take 24 (sha256 (string_bytes t))"

lemma string_bytes_inject: "string_bytes s = string_bytes t \<Longrightarrow> s = t"
proof -
  have "c = d" if "(of_nat (of_char c) :: 8 word) = of_nat (of_char d)" for c d :: char
  proof -
    have "unat (of_nat (of_char c) :: 8 word) = unat (of_nat (of_char d) :: 8 word)" using that by simp
    then have "(of_char c :: nat) = of_char d" by (simp add: unat_of_nat)
    then show ?thesis by simp
  qed
  then have "inj (\<lambda>c :: char. of_nat (of_char c) :: 8 word)" by (rule injI)
  then show "string_bytes s = string_bytes t \<Longrightarrow> s = t"
    unfolding string_bytes_def by (rule map_injective [rotated])
qed

lemma lease_name_digest:
  "createLeaseNameForSelector ns sel = createLeaseNameForSelector ns' sel' \<longleftrightarrow>
     take 24 (sha256 (string_bytes (lease_hash_input ns sel))) = take 24 (sha256 (string_bytes (lease_hash_input ns' sel')))"
proof -
  let ?d = "\<lambda>ns sel. take 24 (sha256 (string_bytes (lease_hash_input ns sel)))"
  have "base32_digits (?d ns sel) = base32_digits (?d ns' sel')"
    if "createLeaseNameForSelector ns sel = createLeaseNameForSelector ns' sel'"
    by (rule ToLower_inject [OF base32_digits_alphabet base32_digits_alphabet])
       (use that in \<open>simp add: createLeaseNameForSelector_digits\<close>)
  then have "?d ns sel = ?d ns' sel'" if "createLeaseNameForSelector ns sel = createLeaseNameForSelector ns' sel'"
    by (intro base32_digits_inject) (use that in simp_all)
  then show ?thesis by (auto simp: createLeaseNameForSelector_digits)
qed

text \<open>
  C36. Two budgets share a lease exactly when they are about the same pods: for valid selectors and for namespaces
  without an ampersand, two lease names are equal exactly when the namespaces, the sets of labels and the expressions are equal, or
  SHA-256 collides on its first 24 bytes. The namespace and the printed selector are hashed without a separator,
  labels and expressions are printed without quotes, the digest is cut and its base32 text is trimmed and lowered: none of this
  confuses two budgets.
\<close>

theorem lease_name_separates_budgets:
  assumes "valid_selector sel" "valid_selector sel'"
    and "distinct (map fst (match_labels sel))" "distinct (map fst (match_labels sel'))"
    and "CHR ''&'' \<notin> set ns" "CHR ''&'' \<notin> set ns'"
  shows "createLeaseNameForSelector ns sel = createLeaseNameForSelector ns' sel' \<longleftrightarrow>
     ns = ns' \<and> set (match_labels sel) = set (match_labels sel') \<and> match_expressions sel = match_expressions sel' \<or>
     sha256_collision (lease_hash_input ns sel) (lease_hash_input ns' sel')"
proof
  assume "createLeaseNameForSelector ns sel = createLeaseNameForSelector ns' sel'"
  then have d: "take 24 (sha256 (string_bytes (lease_hash_input ns sel))) =
      take 24 (sha256 (string_bytes (lease_hash_input ns' sel')))"
    by (simp add: lease_name_digest)
  have "ns = ns' \<and> set (match_labels sel) = set (match_labels sel') \<and> match_expressions sel = match_expressions sel'"
    if "lease_hash_input ns sel = lease_hash_input ns' sel'"
    using lease_hash_input_inject [OF assms(5,6) that] selector_String_inject [OF assms(1,2)]
      map_of_inject_set [OF assms(3,4)] by blast
  then show "ns = ns' \<and> set (match_labels sel) = set (match_labels sel') \<and> match_expressions sel = match_expressions sel' \<or>
      sha256_collision (lease_hash_input ns sel) (lease_hash_input ns' sel')"
    using d string_bytes_inject by (auto simp: sha256_collision_def)
next
  assume "ns = ns' \<and> set (match_labels sel) = set (match_labels sel') \<and> match_expressions sel = match_expressions sel' \<or>
      sha256_collision (lease_hash_input ns sel) (lease_hash_input ns' sel')"
  then show "createLeaseNameForSelector ns sel = createLeaseNameForSelector ns' sel'"
  proof
    assume same: "ns = ns' \<and> set (match_labels sel) = set (match_labels sel') \<and> match_expressions sel = match_expressions sel'"
    then have "mset (match_labels sel) = mset (match_labels sel')"
      using assms(3,4) by (simp add: distinct_map set_eq_iff_mset_eq_distinct)
    then show ?thesis
      using same lease_name_ignores_label_order [OF assms(4), of sel ns'] by simp
  qed (simp add: lease_name_digest sha256_collision_def)
qed

definition web_selector :: "string list \<Rightarrow> label_selector" where
  "web_selector envs =
     \<lparr>match_labels = [(''tier'', ''1''), (''app'', ''web'')],
      match_expressions = [\<lparr>lsr_key = ''example.com/env'', lsr_operator = ''In'', lsr_values = envs\<rparr>]\<rparr>"

lemma web_selector_valid: "valid_selector (web_selector [''a'', ''b''])" "valid_selector (web_selector [''a-b''])"
proof -
  have "IsQualifiedName ''tier'' = []" "IsQualifiedName ''app'' = []" "IsQualifiedName ''example.com/env'' = []"
    "IsValidLabelValue ''1'' = []" "IsValidLabelValue ''web'' = []" "IsValidLabelValue ''a'' = []"
    "IsValidLabelValue ''b'' = []" "IsValidLabelValue ''a-b'' = []" by code_simp+
  then show "valid_selector (web_selector [''a'', ''b''])" "valid_selector (web_selector [''a-b''])"
    by (simp_all add: valid_selector_def web_selector_def valid_requirement_def valid_expression_def
        operator_errors_def selector_operator_def)
qed

theorem lease_name_separates_budgets_witness:
  "createLeaseNameForSelector ''shop'' (web_selector [''a'', ''b'']) = createLeaseNameForSelector ''shop'' (web_selector [''a-b'']) \<longleftrightarrow>
     sha256_collision (lease_hash_input ''shop'' (web_selector [''a'', ''b''])) (lease_hash_input ''shop'' (web_selector [''a-b'']))"
  using lease_name_separates_budgets [OF web_selector_valid, of "''shop''" "''shop''"] by (simp add: web_selector_def)

end
