(* ===== verification/Spec2Isabelle.thy ===== *)
theory Spec2Isabelle
  imports Webhook_Records Panic_Freedom Mesh_Config Probe_Veto Fleet_Handler Wire_Handler Deep_Copy Metric_Vectors Lease_Separation
begin

text \<open>
  \<^bold>\<open>x-pdb: a pod disruption budget over several clusters.\<close>

  x-pdb is a Kubernetes admission webhook. A workload is spread over several clusters; a pod may be
  evicted or deleted only when enough pods of the workload, counted over all clusters, stay healthy. To
  decide that, the webhook of one cluster finds the budgets (\<^verbatim>\<open>XPodDisruptionBudget\<close>) that select the
  pod, takes a lease for the budget in its own and in every other cluster so that no two disruptions are
  decided at a time, asks every cluster for its expected and healthy pods, compares with the budget, asks
  an optional probe server of the workload, and answers. A refusal gives the lease back; after an
  admission the lease runs out by itself, so that the next decision sees the effect of this one.

  \<^bold>\<open>The parts and their theories\<close> (paths under \<^verbatim>\<open>src/\<close>). One definition stands for one Go function, with the
  Go name; a loop or a stage of a long function is a definition of its own, composed as in the code.

  \<^item> \<open>Prelude\<close>, \<open>Go_Strings\<close>: outcomes of Go calls (\<open>Ok\<close>, \<open>Err\<close>, \<open>Panic\<close>), error values and their text,
    32-bit integers, and the functions of Go's string, number and path packages that the program calls.
  \<^item> \<open>Kube_Types\<close>: pods, owner references, leases, selectors, the resource of
    \<^verbatim>\<open>api/v1alpha1\<close> and the messages of \<^verbatim>\<open>pkg/proto/state/v1\<close>. A pointer is an option, so a nil dereference is
    the outcome \<open>Panic\<close>.
  \<^item> \<open>Label_Selector\<close>, \<open>Intstr\<close>: what the program uses of the vendored \<^verbatim>\<open>apimachinery\<close>: validation and
    matching of label selectors, their printed form, and percentages in double-precision arithmetic.
  \<^item> \<open>Converters\<close>: \<^verbatim>\<open>internal/converters\<close>, selectors to and from messages.
  \<^item> \<open>Lease_Name\<close>: \<^verbatim>\<open>internal/lock/leases.go\<close>, with SHA-256 and base32. \<open>Lease_Separation\<close>: the printed form of a valid
    selector and the base32 text can be read back, so lease names differ as far as SHA-256 does.
  \<^item> \<open>Lease_Api\<close>: the Kubernetes API for leases as a parameter (a record of four requests over an opaque
    state) with the contracts \<open>lease_store\<close> and \<open>served_store\<close>, and the in-memory client of the unit tests as
    an instance.
  \<^item> \<open>Client_Pool\<close>: the caches of gRPC clients (\<^verbatim>\<open>internal/state/client\<close>,
    \<^verbatim>\<open>internal/disruptionprobe/client_pool.go\<close>) under one contract \<open>client_cache\<close>, and the vendored task pool.
  \<^item> \<open>Lock_Service\<close>: \<^verbatim>\<open>internal/lock/service.go\<close>, all four public operations and both remote ones; the abstract
    lock (holder and deadline) and the refinement lemmas.
  \<^item> \<open>Lock_Protocol\<close>: the same local operations one API request at a time, as an inductive step relation over
    any number of holders, with a contract \<open>fresh_store\<close> for resource versions and a server with a revision
    counter as an instance. \<open>Lock_Progress\<close>: the same steps, and that the lock comes free in bounded time.
  \<^item> \<open>Fleet\<close>, \<open>Fleet_Runs\<close>, \<open>Fleet_Progress\<close>, \<open>Fleet_Timing\<close>: the whole system in time, as a step relation over any number of
    requests and clusters: the middle part of \<^verbatim>\<open>Handle\<close>, one copy of the lock protocol for every cluster, counts
    by \<^verbatim>\<open>GetPodCounts\<close> at the moment a cluster is asked, and pods that change by themselves. \<open>fleet_step\<close> has all steps, the delete
    of a lock that has run out and the disruption that is carried out late among them; \<open>timely_step\<close> leaves out the
    late deletes, and \<open>timely_run\<close> is a run of \<open>fleet_step\<close> in which the deletes are in time. The invariants;
    runs of undisturbed requests, which are what the functions of the services compute; that every request can
    be decided in bounded time; how long a request is covered by its locks, and the budget under concurrency. The
    contracts are \<open>stored_fleet\<close> and \<open>live_fleet\<close>, a lease store with fresh versions, and one that answers, in
    every cluster. \<open>Fleet_Handler\<close>: \<open>Handle\<close> is a part of this system: under the contract \<open>installed\<close>, which says how a webhook,
    its mesh and its peers are a fleet, every answer of the handler is the end of a run of the fleet with the same leases.
  \<^item> \<open>Budget\<close>, \<open>Scale_Finder\<close>, \<open>Pdb_Service\<close>: \<^verbatim>\<open>internal/pdb\<close>: readiness and healthy counts, the verdict, the
    expected scale of the controllers, the budgets of a pod, the counts of one and of all clusters. Lists
    of objects come from the contract \<open>cluster_reader\<close>.
  \<^item> \<open>State_Server\<close>: \<^verbatim>\<open>internal/state/server\<close>: the three handlers with panic recovery, \<^verbatim>\<open>Start\<close>, and the mesh of
    clusters in which the remote calls of one cluster are the handlers of another, behind a network that
    may lose requests and replies.
  \<^item> \<open>Wire_Format\<close>, \<open>Wire_Coders\<close>: the vendored protobuf library: \<^verbatim>\<open>encoding/protowire/wire.go\<close> on bytes and 64-bit
    words, and of \<^verbatim>\<open>internal/impl\<close> the coders of the field kinds the messages use and the loops over the fields
    of a message. Every index and slice expression of the readers is checked, and out of range it is a panic. \<open>Wire_Laws\<close>: the law of a field and the contract \<open>message_coder\<close>, from which the round trip of
    a message follows; \<open>Wire_Safety\<close>: arbitrary bytes.
  \<^item> \<open>State_Messages\<close>, \<open>State_Rpc\<close>, \<open>Probe_Rpc\<close>: the messages of \<^verbatim>\<open>pkg/proto/state/v1\<close> and \<^verbatim>\<open>pkg/proto/disruptionprobe/v1\<close>
    as tables of fields, each an instance of \<open>message_coder\<close>, and the generated client and server stubs over
    the coding part of gRPC, each method an instance of the contract \<open>unary_rpc\<close>. \<open>Wire_Handler\<close>: the mesh with these
    stubs in place of the peers' methods, and the handler on it.
  \<^item> \<open>Disruption_Probe\<close>, \<open>Preactivities\<close>, \<open>Metrics\<close>: \<^verbatim>\<open>internal/disruptionprobe/service.go\<close>,
    \<^verbatim>\<open>internal/preactivities\<close>, \<^verbatim>\<open>internal/metrics\<close>. \<open>Metric_Vectors\<close>: the descriptors of the counters and where the
    vendored Prometheus client panics on them.
  \<^item> \<open>Webhook\<close>: \<^verbatim>\<open>internal/webhooks/validation.go\<close>. \<open>Handle\<close> is the whole handler: it takes the environment
    (API servers, network, probe servers), the configuration, the inputs that Go obtains from outside
    (clock readings, a fresh UUID, the order in which parallel calls finish) and the state, and returns
    the response or a panic and the new state (leases, pods, remote clusters, probe clients, events, counters).
    \<open>Webhook_Records\<close>: the events and counters of every outcome, and when a request has to wait.
  \<^item> \<open>Mesh_Release\<close>, \<open>Panic_Freedom\<close>: the handler over the mesh after a refusal and over calls that may fail, and the
    conditions under which nothing panics.
  \<^item> \<open>Deep_Copy\<close>: \<^verbatim>\<open>api/v1alpha1/zz_generated.deepcopy.go\<close>, with pointers, maps and slices as addresses in a heap,
    and a contract \<open>copier\<close> of which every generated copy is an instance.
  \<^item> \<open>Controller_Main\<close>, \<open>Test_Apps\<close>: \<^verbatim>\<open>cmd/controller\<close>, \<^verbatim>\<open>cmd/testapp\<close>, \<^verbatim>\<open>cmd/testdisruptionprobe\<close>. \<open>Mesh_Config\<close>: an
    endpoint that is configured twice keeps the lock from ever being obtained. \<open>Probe_Veto\<close>: the test probe server behind the
    stubs, the codec and the probe service, as the webhook meets it.
  \<^item> \<open>Samples\<close>: a concrete installation of two clusters, on which the theorems of this theory are applied.

  \<^bold>\<open>What is shown.\<close> The main theorem, in this theory, is \<^emph>\<open>safety\<close>: a disruption that is admitted under an
  active budget is one for which, at the end of the handling, the lease is held in every cluster, every
  cluster was counted, the pods that stay healthy are at least the required number, and the probe agreed.
  That theorem is about one request; the theorem on the fleet is about all of them at once: a disruption
  that takes effect within the lease of its request leaves the budget kept, up to pods that were lost without the webhook or by
  late disruptions, as long as no lease is deleted late; and every request can be decided in bounded time by
  steps of its own. The two meet in a refinement: the handler runs as a request of the
  fleet, on every path, so what the fleet guarantees holds of the requests that \<open>Handle\<close> admits.
  Around it: the exact conditions of admission on every path of the handler, release of the lock in every
  cluster on refusal, that the handler always answers, response codes, events and counters, dry-run mode; the decision over all clusters and the
  remote lock over the mesh. The theories of the components show refinement of the abstract lock, mutual
  exclusion and bounded waiting of interleaved lock calls with clock skew and lost replies, exactness of the 32-bit and
  floating-point arithmetic of the verdict, that controllers are counted once, the meaning of selectors,
  validity and separation of lease names, independence of deep copies, the veto of the test probe server and the readiness that the
  test application reports. On
  the wire: a request comes out of the bytes as it went in, so the peer locks the same lease whatever the
  iteration order of the label map; the handler that calls its peers through stubs, codec and bytes is the handler
  that calls their methods, on every path; and no
  bytes from outside panic the decoder. Some theorems are about behaviour the code did not mean to have: a lease that cannot be read
  is deleted, a late delete removes the lease of the next holder, the timeouts of the calls outlast the lease, a
  candidate with a stale readiness is compensated for though it is counted, a remote lock that fails leaves the
  budget locked, a serving error is lost, and dry-run mode refuses, against the help of its flag.

  \<^bold>\<open>Time, order and bounds.\<close> Times are integers in nanoseconds; times that pass through the API are cut to
  microseconds. Every reading of the clock is a separate input. Parallel calls are run in an arbitrary
  order, which is an input too, and statements hold for every order. The network of the mesh does not
  change while one request is handled; in the fleet every call may fail at any moment and pods may change between
  any two steps. An admitted disruption may be carried out at any time: within the locks of its request it is a
  disruption under the budget, after that its pod is booked as lost (\<^verbatim>\<open>docs/src/index.md\<close> chooses the five seconds so that this does
  not happen). That no holder deletes a lease after its own deadline is a hypothesis of the theorems on the fleet, named
  \<open>timely_run\<close>, and part of \<open>fleet_reach\<close>; the code does not ensure it, and two theorems show that lateness of either kind
  does harm. No definition uses fuel: the loops of the program run over finite
  lists or over the bytes of a message, and the recursions are structural or have a measure; the one endless loop, of the test
  application, is a partial function whose value says that it does not return. Counters are
  32-bit words; where a statement needs that they do not overflow it says so.

  \<^bold>\<open>What is not modelled.\<close> Transport (TLS, HTTP/2, compression), watching of certificate files, logging,
  the metrics of the gRPC middleware, registration with the scheme and with the controller manager, and reflection on
  messages. The coders keep no bytes of unknown fields and no size cache: x-pdb reads the former nowhere,
  and the latter holds what the size function computes. A request context is not modelled as data; a cancelled or timed-out call is a failing
  call, with or without effect. Collisions of SHA-256 are not excluded: the theorem on lease names has them as a case.

  \<^bold>\<open>What is left.\<close> The code written by hand is modelled; of what is generated, the accessors and the registration of the
  messages are left, and of the vendored code what the program does not call. The run of the fleet for a
  request of \<open>Handle\<close> is one in which the other requests wait; that the calls of the handler interleave with theirs is a matter of the fleet
  alone, where the same calls are single steps.
\<close>

section \<open>A disruption that is admitted is safe\<close>

text \<open>The lease of a budget names a holder.\<close>

definition holds_lease ::
    "('s \<Rightarrow> object_key \<Rightarrow> lease option) \<Rightarrow> lock_service \<Rightarrow> xpdb \<Rightarrow> string \<Rightarrow> 's \<Rightarrow> bool" where
  "holds_lease stored svc x me s \<longleftrightarrow>
     (\<exists>l. stored s (lock_key svc (xpdb_namespace x) (spec_selector (xpdb_spec x))) = Some l \<and>
          lease_holderIdentity l = Some me)"

lemma LocalLock_holds:
  assumes "lease_store c stored valid" "valid s"
    and "LocalLock c svc clk me (xpdb_namespace x) (spec_selector (xpdb_spec x)) s = (Ok (), s')"
  shows "holds_lease stored svc x me s'"
proof -
  obtain n0 n1 n2 where clk: "clk = (n0, n1, n2)" by (metis surj_pair)
  then show ?thesis unfolding holds_lease_def
    using lease_store.LocalLock_acquired [OF assms(1) _ assms(2)] assms(3) by metis
qed

text \<open>All clusters of an installation have API servers that keep the contract of the lease store.\<close>

definition sound_clusters ::
    "'s mesh \<Rightarrow> string list \<Rightarrow> ('s \<Rightarrow> object_key \<Rightarrow> lease option) \<Rightarrow> ('s \<Rightarrow> bool) \<Rightarrow> (string \<Rightarrow> 's) \<Rightarrow> bool" where
  "sound_clusters m eps stored valid w \<longleftrightarrow>
     (\<forall>e\<in>set eps. lease_store (cl_client (ms_cluster m e)) stored valid \<and> valid (w e))"

text \<open>What the full check establishes over all clusters.\<close>

definition safe_disruption ::
    "('s, string, string \<Rightarrow> 's, 'd, 'v, 'p) webhook_env \<Rightarrow> webhook \<Rightarrow> 's mesh \<Rightarrow> string list
     \<Rightarrow> ('s \<Rightarrow> object_key \<Rightarrow> lease option) \<Rightarrow> pod \<Rightarrow> xpdb \<Rightarrow> string
     \<Rightarrow> ('s, string, string \<Rightarrow> 's, 'd, 'v, 'p) webhook_state
     \<Rightarrow> ('s, string, string \<Rightarrow> 's, 'd, 'v, 'p) webhook_state \<Rightarrow> bool" where
  "safe_disruption env h m eps stored p x me st st' \<longleftrightarrow>
     holds_lease stored (wh_lock h) x me (st_leases st') \<and>
     (\<forall>e\<in>set eps. holds_lease stored (cl_lock (ms_cluster m e)) x me (snd (st_remote st') e)) \<and>
     all_counted m (wh_pdb h) x \<and>
     (sane_budget (xpdb_spec x) \<and> counts_fit m (wh_pdb h) x \<longrightarrow>
        required_healthy (xpdb_spec x) (total_expected m (wh_pdb h) x) \<le>
          total_healthy m (wh_pdb h) x - (if IsPodReady p then 1 else 0)) \<and>
     (\<forall>probe. spec_probe (xpdb_spec x) = Some probe \<and> probe_enabled probe \<noteq> Some False \<longrightarrow>
        probe_consents (we_probe env) probe p x (st_probe st) (st_probe st'))"

lemma checks_passed_safe:
  fixes env :: "('s, string, string \<Rightarrow> 's, 'd, 'v, 'p) webhook_env"
  assumes "checks_passed env h inp p x st st'"
    and "lease_store (we_leases env) stored valid" "valid (st_leases st)"
    and "sound_clusters m eps stored valid (snd (st_remote st))" "we_rpc env = mesh_env m"
    and "configured h inp eps" "honest_pool (fst (st_remote st))"
  shows "safe_disruption env h m eps stored p x (lock_identity h inp p) st st'"
proof -
  let ?me = "lock_identity h inp p" and ?sel = "spec_selector (xpdb_spec x)" and ?ns = "xpdb_namespace x"
  note order = configured_orders [OF assms(6)]
  have eps: "ls_remoteEndpoints (wh_lock h) = eps" "ps_remoteEndpoints (wh_pdb h) = eps"
    using assms(6) by (simp_all add: configured_def)
  obtain pl w where st: "st_remote st = (pl, w)" by fastforce
  obtain s1 pl1 w1 pl2 w2 ps where
    lock: "Lock (we_leases env) (mesh_env m) (wh_lock h) (in_lockClk inp) (in_lockOrder inp) ?me ?ns ?sel
      (st_leases st, (pl, w)) = (Ok (), s1, (pl1, w1))"
    and can: "CanPodBeDisrupted (we_f2i env) (mesh_env m) (wh_pdb h) (in_stateOrder inp) p x (pl1, w1)
      = (Ok True, (pl2, w2))"
    and probe: "if probe_wanted x then probe_CanPodBeDisrupted (we_probe env) p x (st_probe st) = (Inr True, ps)
      else ps = st_probe st"
    and st': "st' = snd (accept h p x (st\<lparr>st_leases := s1, st_remote := (pl2, w2), st_probe := ps\<rparr>))"
    using assms(1,5) st unfolding checks_passed_def by (metis surj_pair)
  have st'_fields: "st_leases st' = s1" "st_remote st' = (pl2, w2)" "st_probe st' = ps"
    by (simp_all add: st' accept_def Eventf_def)
  have honest: "honest_pool pl" using assms(7) st by simp
  have local_lock: "LocalLock (we_leases env) (wh_lock h) (in_lockClk inp) ?me ?ns ?sel (st_leases st) = (Ok (), s1)"
    using lock by (simp add: Lock_Ok)
  have remote: "honest_pool pl1 \<and> (\<forall>e\<in>set eps. LocalLock (cl_client (ms_cluster m e)) (cl_lock (ms_cluster m e))
      (cl_clk (ms_cluster m e)) ?me ?ns ?sel (w e) = (Ok (), w1 e))"
  proof (cases "eps = []")
    case True
    then show ?thesis using lock honest eps by (simp add: Lock_Ok)
  next
    case False
    then have r: "remoteLock (mesh_env m) (wh_lock h) (in_lockOrder inp) ?me ?ns ?sel (pl, w) = (Ok (), (pl1, w1))"
      using lock eps by (simp add: Lock_Ok)
    then show ?thesis using remoteLock_mesh [OF r honest order(1)] remoteLock_honest [OF r honest order(1)]
        order(2) eps(1) by simp
  qed
  have state: "set (in_stateOrder inp) = set (ps_remoteEndpoints (wh_pdb h))" using order(4) eps(2) by simp
  note decision = CanPodBeDisrupted_mesh [OF can conjunct1 [OF remote] order(3) state]
  have "holds_lease stored (wh_lock h) x ?me (st_leases st')"
    using LocalLock_holds [OF assms(2,3) local_lock] by (simp add: st'_fields)
  moreover have "holds_lease stored (cl_lock (ms_cluster m e)) x ?me (snd (st_remote st') e)" if "e \<in> set eps" for e
  proof -
    have "lease_store (cl_client (ms_cluster m e)) stored valid" "valid (w e)"
      using assms(4) st that by (simp_all add: sound_clusters_def)
    moreover have "LocalLock (cl_client (ms_cluster m e)) (cl_lock (ms_cluster m e)) (cl_clk (ms_cluster m e))
        ?me ?ns ?sel (w e) = (Ok (), w2 e)" using remote that decision(1) by simp
    ultimately have "holds_lease stored (cl_lock (ms_cluster m e)) x ?me (w2 e)" by (rule LocalLock_holds)
    then show ?thesis by (simp add: st'_fields)
  qed
  moreover have "probe_consents (we_probe env) pr p x (st_probe st) (st_probe st')"
    if "spec_probe (xpdb_spec x) = Some pr" "probe_enabled pr \<noteq> Some False" for pr
    using probe that probe_CanPodBeDisrupted_True [OF that(1), of "we_probe env" p "st_probe st" ps]
    by (auto simp: probe_wanted_def st'_fields split: option.splits)
  ultimately show ?thesis using decision by (simp add: safe_disruption_def)
qed

text \<open>
  C1. When the webhook admits the disruption of a pod that is not exempt and is selected by budgets
  that are not suspended, exactly one budget selects the pod, and: the lease of this budget is held
  in the name of this request in the local cluster and in every remote cluster, at the end of the
  handling; every cluster has been counted; with sensible values in the budget and counts that fit
  into 32 bits, the pods that stay healthy over all clusters without the candidate are at least as
  many as the budget requires; and the probe of the budget, unless it is disabled, has agreed.
\<close>

theorem admitted_disruption_is_safe:
  assumes "lease_store (we_leases env) stored valid" "valid (st_leases st)"
    and "sound_clusters m eps stored valid (snd (st_remote st))" "we_rpc env = mesh_env m"
    and "configured h inp eps" "honest_pool (fst (st_remote st))"
    and "decodePod env req (st_pods st) = Inr p" "\<not> exempt p"
    and "GetXPdbsForPod (wh_pdb h) p = Inr xs" "xs \<noteq> []" "\<forall>x\<in>set xs. spec_suspend (xpdb_spec x) \<noteq> Some True"
    and "Handle env h inp req st = (Ok resp, st')" "ar_allowed resp"
  shows "\<exists>x. xs = [x] \<and> safe_disruption env h m eps stored p x (lock_identity h inp p) st st'"
proof -
  have "admits env h inp req st st'" using assms(12,13) Handle_allowed by blast
  then obtain x where "xs = [x]" "checks_passed env h inp p x st st'"
    using assms(7-11) by (auto simp: admits_def split: list.splits)
  then show ?thesis using checks_passed_safe [OF _ assms(1-6)] by simp
qed

theorem admitted_disruption_is_safe_witness:
  "\<exists>x. [sample_xpdb] = [x] \<and>
     safe_disruption (sample_env ''True'') (sample_webhook False) (sample_mesh ''True'') [''b:9643''] fake_stored
       (sample_pod ''db-0'' ''True'') x sample_identity sample_state sample_admitted"
proof -
  obtain resp where h: "Handle (sample_env ''True'') (sample_webhook False) sample_inputs sample_request sample_state
     = (Ok resp, sample_admitted)" "ar_allowed resp" using sample_handled by blast
  have "\<exists>x. [sample_xpdb] = [x] \<and>
     safe_disruption (sample_env ''True'') (sample_webhook False) (sample_mesh ''True'') [''b:9643''] fake_stored
       (sample_pod ''db-0'' ''True'') x (lock_identity (sample_webhook False) sample_inputs (sample_pod ''db-0'' ''True''))
       sample_state sample_admitted"
  proof (rule admitted_disruption_is_safe [OF _ _ _ _ _ _ sample_decoded sample_not_exempt(1) _ _ _ h])
    show "lease_store (we_leases (sample_env ''True'')) fake_stored fake_wf"
      using fake.lease_store_axioms by (simp add: sample_env_def)
    show "sound_clusters (sample_mesh ''True'') [''b:9643''] fake_stored fake_wf (snd (st_remote sample_state))"
      using fake.lease_store_axioms
      by (simp add: sound_clusters_def sample_mesh_def sample_cluster_def sample_state_def fake_wf_def)
    show "GetXPdbsForPod (wh_pdb (sample_webhook False)) (sample_pod ''db-0'' ''True'') = Inr [sample_xpdb]"
      using sample_xpdbs by (simp add: sample_webhook_def)
  qed (simp_all add: sample_state_def fake_wf_def sample_env_def configured_def sample_webhook_def sample_inputs_def
      honest_pool_new)
  then show ?thesis by simp
qed

section \<open>The admission webhook\<close>

text \<open>
  C5. The webhook is exact: it lets a request through precisely when the pod cannot be decoded, or is
  exempt (being deleted, disrupted by Kubernetes itself, or on a lost node), or has no pending
  pre-activity and is selected by no budget, by one suspended budget, or by one budget whose lock,
  count and probe all succeeded; and the state it leaves behind is the one of these calls.
\<close>

theorem webhook_admits_exactly:
  "(\<exists>resp. Handle env h inp req st = (Ok resp, st') \<and> ar_allowed resp) \<longleftrightarrow> admits env h inp req st st'"
  by (rule Handle_allowed)

text \<open>One remote cluster after a refusal.\<close>

lemma refused_in_cluster:
  assumes "served_store (we_leases env) stored valid" "valid (st_leases st)"
    and "served_store (cl_client (ms_cluster m e)) stored valid \<and> valid (snd (st_remote st) e)"
    and "we_rpc env = mesh_env m" "configured h inp eps" "mset (in_unlockOrder inp) = mset eps"
    and "honest_pool (fst (st_remote st))" "e \<in> set eps"
    and "handle_xpdb env h inp req p x st = (Ok resp, st')" "\<not> ar_allowed resp"
    and "Lock (we_leases env) (we_rpc env) (wh_lock h) (in_lockClk inp) (in_lockOrder inp) (lock_identity h inp p)
      (xpdb_namespace x) (spec_selector (xpdb_spec x)) (st_leases st, st_remote st) = (Ok (), s1, rs1)"
  shows "stored (snd (st_remote st') e)
    (lock_key (cl_lock (ms_cluster m e)) (xpdb_namespace x) (spec_selector (xpdb_spec x))) = None"
proof -
  let ?me = "lock_identity h inp p" and ?sel = "spec_selector (xpdb_spec x)" and ?ns = "xpdb_namespace x"
  let ?st1 = "st\<lparr>st_leases := s1, st_remote := rs1\<rparr>"
  note order = configured_orders [OF assms(5)]
  have eps: "ls_remoteEndpoints (wh_lock h) = eps" using assms(5) by (simp add: configured_def)
  have unorder: "distinct (in_unlockOrder inp)" "set (in_unlockOrder inp) = set eps"
    using assms(5,6) mset_eq_imp_distinct_iff mset_eq_setD unfolding configured_def by blast+
  obtain pl w pl1 w1 where st: "st_remote st = (pl, w)" "rs1 = (pl1, w1)" by fastforce
  note lock = assms(11) [unfolded assms(4) st]
  have honest: "honest_pool pl" using assms(7) st by simp
  have set_order: "set (in_lockOrder inp) = set (ls_remoteEndpoints (wh_lock h))" using order(2) eps by simp
  have dial1: "dialled pl1 (in_unlockOrder inp)"
    using Lock_dialled [OF lock honest set_order] order(2) unorder(2) by (simp add: dialled_def)
  have reached: "\<forall>e\<in>set (in_unlockOrder inp). ms_request m e = None"
    using Lock_reached [OF lock honest set_order] order(2) unorder(2) by simp
  have "lease_store (we_leases env) stored valid" "lease_store (cl_client (ms_cluster m e)) stored valid"
    using assms(1,3) by (auto simp: served_store_def)
  moreover have "LocalLock (we_leases env) (wh_lock h) (in_lockClk inp) ?me ?ns ?sel (st_leases st) = (Ok (), s1)"
    using lock by (simp add: Lock_Ok)
  moreover have "LocalLock (cl_client (ms_cluster m e)) (cl_lock (ms_cluster m e)) (cl_clk (ms_cluster m e)) ?me ?ns ?sel
      (w e) = (Ok (), w1 e)"
    using lock remoteLock_mesh [OF _ honest order(1) set_order] order(2) assms(8) eps
    by (auto simp: Lock_Ok split: if_splits)
  ultimately have held: "held_by stored (lock_key (wh_lock h) ?ns ?sel) ?me s1" "valid s1"
    "held_by stored (lock_key (cl_lock (ms_cluster m e)) ?ns ?sel) ?me (w1 e)" "valid (w1 e)"
    using LocalLock_held assms(2,3) st by (metis snd_conv)+
  have "handle_budget env h inp req p x ?me ?st1 = (Ok resp, st')"
    using assms(9-11) by (auto simp: handle_xpdb_def Let_def split: if_splits)
  from handle_budget_release [OF this assms(10)] obtain st2 r2 where
    rel: "release env h inp ?me x st2 = (r2, st')" "st_leases st2 = s1"
      "st_remote st2 = snd (CanPodBeDisrupted (we_f2i env) (mesh_env m) (wh_pdb h) (in_stateOrder inp) p x (pl1, w1))"
    using assms(4) st(2) by auto
  obtain v pl2 w2 where can: "CanPodBeDisrupted (we_f2i env) (mesh_env m) (wh_pdb h) (in_stateOrder inp) p x (pl1, w1)
      = (v, (pl2, w2))" by (metis surj_pair)
  have kept: "dialled pl2 (in_unlockOrder inp)" "w2 = w1" using CanPodBeDisrupted_keeps [OF can dial1] by blast+
  obtain r3 s3 pl3 w3 where un: "Unlock (we_leases env) (mesh_env m) (wh_lock h) (in_unlockNow inp) (in_unlockOrder inp)
      ?me ?ns ?sel (s1, (pl2, w1)) = (r3, s3, (pl3, w3))" by (metis surj_pair)
  have "st_remote st' = (pl3, w3)" using rel can kept(2) un assms(4) by (auto simp: release_def)
  moreover have "stored (w3 e) (lock_key (cl_lock (ms_cluster m e)) ?ns ?sel) = None"
    using Unlock_everywhere [OF assms(1) held(2,1) un kept(1) unorder(1) _ _ reached, of e] unorder(2) eps assms(3,8)
      held(3,4) by simp
  ultimately show ?thesis by simp
qed

text \<open>
  C6. A refusal does not keep the budget locked: when the lock was taken and the request is refused,
  by the budget, by the probe or by an error of either, the lease of the budget is gone from the local
  cluster (whose API server answers), whatever the remote clusters answer.
\<close>

theorem refusal_releases_the_lock:
  assumes "served_store (we_leases env) stored valid" "valid (st_leases st)"
    and "decodePod env req (st_pods st) = Inr p" "\<not> exempt p" "\<not> has_preactivity p"
    and "GetXPdbsForPod (wh_pdb h) p = Inr [x]"
    and "Lock (we_leases env) (we_rpc env) (wh_lock h) (in_lockClk inp) (in_lockOrder inp) (lock_identity h inp p)
      (xpdb_namespace x) (spec_selector (xpdb_spec x)) (st_leases st, st_remote st) = (Ok (), s1, rs1)"
    and "Handle env h inp req st = (Ok resp, st')" "\<not> ar_allowed resp"
  shows "stored (st_leases st') (lock_key (wh_lock h) (xpdb_namespace x) (spec_selector (xpdb_spec x))) = None"
  using served_store.handle_xpdb_denied [OF assms(1) refl assms(2) _ assms(9,7)]
    assms(8) Handle_one_xpdb [OF assms(3-6)] by simp

theorem refusal_releases_the_lock_witness:
  "\<exists>st'. Handle (sample_env ''False'') (sample_webhook False) sample_inputs sample_request sample_state
       = (Ok (sample_refusal False), st') \<and>
     fake_stored (st_leases st') (lock_key (wh_lock (sample_webhook False)) ''shop'' sample_selector) = None"
proof -
  obtain st' where h: "Handle (sample_env ''False'') (sample_webhook False) sample_inputs sample_request sample_state
       = (Ok (sample_refusal False), st')" using sample_handled_refused by blast
  have "fake_stored (st_leases st') (lock_key (wh_lock (sample_webhook False)) (xpdb_namespace sample_xpdb)
      (spec_selector (xpdb_spec sample_xpdb))) = None"
  proof (rule refusal_releases_the_lock [OF _ _ sample_decoded sample_not_exempt(1,2) _ _ h])
    show "served_store (we_leases (sample_env ''False'')) fake_stored fake_wf"
      using fake.served_store_axioms by (simp add: sample_env_def)
    show "GetXPdbsForPod (wh_pdb (sample_webhook False)) (sample_pod ''db-0'' ''True'') = Inr [sample_xpdb]"
      using sample_xpdbs by (simp add: sample_webhook_def)
    show "Lock (we_leases (sample_env ''False'')) (we_rpc (sample_env ''False'')) (wh_lock (sample_webhook False))
        (in_lockClk sample_inputs) (in_lockOrder sample_inputs)
        (lock_identity (sample_webhook False) sample_inputs (sample_pod ''db-0'' ''True''))
        (xpdb_namespace sample_xpdb) (spec_selector (xpdb_spec sample_xpdb))
        (st_leases sample_state, st_remote sample_state) =
      (Ok (), locked_by (sample_lock [''b:9643'']) sample_identity ''shop'' sample_selector 1000,
       (sample_pool, sample_locked))"
      using sample_lock_taken [of "''False''"] sample_identity_dry [of False]
      by (simp add: sample_env_def sample_webhook_def sample_inputs_def sample_state_def)
  qed (simp_all add: sample_state_def sample_refusal_def)
  with h show ?thesis by auto
qed

text \<open>
  C7. A refusal frees every cluster: when the lock was taken in all clusters and the request is refused, by
  the budget, by the probe or by an error of either, then at the end no cluster has a lease for the budget
  any more, provided that the API servers answer and that the network that has carried the lock calls
  carries the release as well. It does not matter whether the other clusters could be counted.
\<close>

theorem refusal_frees_every_cluster:
  assumes "served_store (we_leases env) stored valid" "valid (st_leases st)"
    and "\<forall>e\<in>set eps. served_store (cl_client (ms_cluster m e)) stored valid \<and> valid (snd (st_remote st) e)"
    and "we_rpc env = mesh_env m" "configured h inp eps" "mset (in_unlockOrder inp) = mset eps"
    and "honest_pool (fst (st_remote st))"
    and "decodePod env req (st_pods st) = Inr p" "\<not> exempt p" "\<not> has_preactivity p"
    and "GetXPdbsForPod (wh_pdb h) p = Inr [x]"
    and "Lock (we_leases env) (we_rpc env) (wh_lock h) (in_lockClk inp) (in_lockOrder inp) (lock_identity h inp p)
      (xpdb_namespace x) (spec_selector (xpdb_spec x)) (st_leases st, st_remote st) = (Ok (), s1, rs1)"
    and "Handle env h inp req st = (Ok resp, st')" "\<not> ar_allowed resp"
  shows "stored (st_leases st') (lock_key (wh_lock h) (xpdb_namespace x) (spec_selector (xpdb_spec x))) = None \<and>
    (\<forall>e\<in>set eps. stored (snd (st_remote st') e)
       (lock_key (cl_lock (ms_cluster m e)) (xpdb_namespace x) (spec_selector (xpdb_spec x))) = None)"
proof -
  let ?me = "lock_identity h inp p" and ?sel = "spec_selector (xpdb_spec x)" and ?ns = "xpdb_namespace x"
  have handle: "handle_xpdb env h inp req p x st = (Ok resp, st')"
    using assms(13) Handle_one_xpdb [OF assms(8-11)] by simp
  have "stored (st_leases st') (lock_key (wh_lock h) ?ns ?sel) = None"
    using served_store.handle_xpdb_denied [OF assms(1) refl assms(2) handle assms(14,12)] .
  moreover have "stored (snd (st_remote st') e) (lock_key (cl_lock (ms_cluster m e)) ?ns ?sel) = None"
    if "e \<in> set eps" for e
  proof (rule refused_in_cluster [OF assms(1,2) _ assms(4,5,6,7) that])
    show "handle_xpdb env h inp req p x st = (Ok resp, st')" by (rule handle)
  qed (use assms(3,12,14) that in auto)
  ultimately show ?thesis by blast
qed

theorem refusal_frees_every_cluster_witness:
  "\<exists>st'. Handle (sample_env ''False'') (sample_webhook False) sample_inputs sample_request sample_state
       = (Ok (sample_refusal False), st') \<and>
     fake_stored (snd (st_remote st') ''b:9643'') (lock_key (sample_lock []) ''shop'' sample_selector) = None"
proof -
  obtain st' where h: "Handle (sample_env ''False'') (sample_webhook False) sample_inputs sample_request sample_state
       = (Ok (sample_refusal False), st')" using sample_handled_refused by blast
  have "fake_stored (st_leases st') (lock_key (wh_lock (sample_webhook False)) (xpdb_namespace sample_xpdb)
      (spec_selector (xpdb_spec sample_xpdb))) = None \<and>
    (\<forall>e\<in>set [''b:9643'']. fake_stored (snd (st_remote st') e)
       (lock_key (cl_lock (ms_cluster (sample_mesh ''False'') e)) (xpdb_namespace sample_xpdb)
         (spec_selector (xpdb_spec sample_xpdb))) = None)"
  proof (rule refusal_frees_every_cluster [OF _ _ _ _ _ _ _ sample_decoded sample_not_exempt(1,2) _ _ h])
    show "served_store (we_leases (sample_env ''False'')) fake_stored fake_wf"
      using fake.served_store_axioms by (simp add: sample_env_def)
    show "\<forall>e\<in>set [''b:9643'']. served_store (cl_client (ms_cluster (sample_mesh ''False'') e)) fake_stored fake_wf \<and>
        fake_wf (snd (st_remote sample_state) e)"
      using fake.served_store_axioms by (simp add: sample_mesh_def sample_cluster_def sample_state_def)
    show "we_rpc (sample_env ''False'') = mesh_env (sample_mesh ''False'')" by (simp add: sample_env_def)
    show "configured (sample_webhook False) sample_inputs [''b:9643'']"
      by (simp add: configured_def sample_webhook_def sample_inputs_def)
    show "GetXPdbsForPod (wh_pdb (sample_webhook False)) (sample_pod ''db-0'' ''True'') = Inr [sample_xpdb]"
      using sample_xpdbs by (simp add: sample_webhook_def)
    show "Lock (we_leases (sample_env ''False'')) (we_rpc (sample_env ''False'')) (wh_lock (sample_webhook False))
        (in_lockClk sample_inputs) (in_lockOrder sample_inputs)
        (lock_identity (sample_webhook False) sample_inputs (sample_pod ''db-0'' ''True''))
        (xpdb_namespace sample_xpdb) (spec_selector (xpdb_spec sample_xpdb))
        (st_leases sample_state, st_remote sample_state) =
      (Ok (), locked_by (sample_lock [''b:9643'']) sample_identity ''shop'' sample_selector 1000,
       (sample_pool, sample_locked))"
      using sample_lock_taken [of "''False''"] sample_identity_dry [of False]
      by (simp add: sample_env_def sample_webhook_def sample_inputs_def sample_state_def)
  qed (simp_all add: sample_state_def sample_refusal_def sample_inputs_def honest_pool_new)
  with h show ?thesis by (auto simp: sample_mesh_def sample_cluster_def)
qed

text \<open>A lock that has just been taken is safe from everyone else until it runs out.\<close>

lemma LocalLock_then_safe:
  assumes "lease_store c stored valid" "valid s" "LocalLock c svc clk me ns sel s = (Ok (), s1)"
  shows "\<exists>l. stored s1 (lock_key svc ns sel) = Some l \<and> lease_holderIdentity l = Some me \<and>
    (\<forall>n0 n1 n2 other r s'. n1 < lease_until l \<longrightarrow> LocalLock c svc (n0, n1, n2) other ns sel s1 = (r, s') \<longrightarrow>
       (\<exists>e. r = Err e) \<and> stored s' = stored s1)"
proof -
  obtain n0 n1 n2 where clk: "clk = (n0, n1, n2)" by (metis surj_pair)
  note call = assms(3) [unfolded clk]
  obtain l where l: "stored s1 (lock_key svc ns sel) = Some l" "lease_holderIdentity l = Some me" "complete_lease l"
    using lease_store.LocalLock_acquired [OF assms(1) call assms(2)] by (metis complete_lease_def option.distinct(1))
  have "valid s1" using LocalLock_held [OF assms] by blast
  then have "(\<exists>e. r = Err e) \<and> stored s' = stored s1"
    if "b < lease_until l" "LocalLock c svc (a, b, d) other ns sel s1 = (r, s')" for a b d other r s'
    using lease_store.LocalLock_keeps_live [OF assms(1) that(2) _ l(1)] that(1) l(3) by (simp add: live_lease_def)
  then show ?thesis using l(1,2) by blast
qed

text \<open>
  C25. A lock that fails in another cluster leaves the budget locked here: when the local lease was taken
  and a remote one was not, the request is refused, nothing is given back, and until the deadline of
  the lease no request, also not a repetition of this one, gets the lock of this budget in this cluster.
\<close>

theorem failed_lock_blocks_the_budget:
  assumes "lease_store (we_leases env) stored valid" "valid (st_leases st)"
    and "decodePod env req (st_pods st) = Inr p" "\<not> exempt p" "\<not> has_preactivity p"
    and "GetXPdbsForPod (wh_pdb h) p = Inr [x]" "spec_suspend (xpdb_spec x) \<noteq> Some True"
    and "LocalLock (we_leases env) (wh_lock h) (in_lockClk inp) (lock_identity h inp p) (xpdb_namespace x)
      (spec_selector (xpdb_spec x)) (st_leases st) = (Ok (), s1)"
    and "remoteLock (we_rpc env) (wh_lock h) (in_lockOrder inp) (lock_identity h inp p) (xpdb_namespace x)
      (spec_selector (xpdb_spec x)) (st_remote st) = (Err e, rs1)" "ls_remoteEndpoints (wh_lock h) \<noteq> []"
  shows "\<exists>resp st' l. Handle env h inp req st = (Ok resp, st') \<and> \<not> ar_allowed resp \<and>
    stored (st_leases st') (lock_key (wh_lock h) (xpdb_namespace x) (spec_selector (xpdb_spec x))) = Some l \<and>
    lease_holderIdentity l = Some (lock_identity h inp p) \<and>
    (\<forall>n0 n1 n2 other r s'. n1 < lease_until l \<longrightarrow>
       LocalLock (we_leases env) (wh_lock h) (n0, n1, n2) other (xpdb_namespace x) (spec_selector (xpdb_spec x))
         (st_leases st') = (r, s') \<longrightarrow> (\<exists>e. r = Err e) \<and> stored s' = stored (st_leases st'))"
proof -
  have "\<exists>e'. Lock (we_leases env) (we_rpc env) (wh_lock h) (in_lockClk inp) (in_lockOrder inp) (lock_identity h inp p)
      (xpdb_namespace x) (spec_selector (xpdb_spec x)) (st_leases st, st_remote st) = (Err e', s1, rs1)"
    using assms(8-10) by (simp add: Lock_def)
  then obtain resp st' where "handle_xpdb env h inp req p x st = (Ok resp, st')" "\<not> ar_allowed resp" "st_leases st' = s1"
    using assms(7) by (auto simp: handle_xpdb_def Let_def observe_def)
  then show ?thesis
    using LocalLock_then_safe [OF assms(1,2,8)] Handle_one_xpdb [OF assms(3-6)] by metis
qed

text \<open>The sample installation with the other cluster out of reach.\<close>

definition cut_off :: "(tracker, string, string \<Rightarrow> tracker, unit, unit, nat) webhook_env" where
  "cut_off = (sample_env ''True'')\<lparr>we_rpc :=
     mesh_env ((sample_mesh ''True'')\<lparr>ms_request := (\<lambda>e. Some (EMsg ''connection refused''))\<rparr>)\<rparr>"

lemma cut_off_remote:
  "remoteLock (we_rpc cut_off) (sample_lock [''b:9643'']) [''b:9643''] me ns sel (NewClientPool ''/certs'', w) =
     (Err (EJoin [EMsg ''connection refused'']), (sample_pool, w))"
proof -
  have "re_dial (we_rpc cut_off) = re_dial (mesh_env (sample_mesh ''True''))"
    by (simp add: cut_off_def mesh_env_def sample_mesh_def)
  then show ?thesis
    by (simp add: remoteLock_def rpc_task_def sample_dialled pool_Wait_def)
      (simp add: cut_off_def mesh_env_def over_network_def)
qed

theorem failed_lock_blocks_the_budget_witness:
  "\<exists>resp st' l. Handle cut_off (sample_webhook False) sample_inputs sample_request sample_state = (Ok resp, st') \<and>
     \<not> ar_allowed resp \<and> fake_stored (st_leases st') (lock_key (sample_lock [''b:9643'']) ''shop'' sample_selector) = Some l \<and>
     lease_holderIdentity l = Some sample_identity"
proof -
  have "\<exists>resp st' l. Handle cut_off (sample_webhook False) sample_inputs sample_request sample_state = (Ok resp, st') \<and>
      \<not> ar_allowed resp \<and>
      fake_stored (st_leases st') (lock_key (wh_lock (sample_webhook False)) (xpdb_namespace sample_xpdb)
        (spec_selector (xpdb_spec sample_xpdb))) = Some l \<and>
      lease_holderIdentity l = Some (lock_identity (sample_webhook False) sample_inputs (sample_pod ''db-0'' ''True'')) \<and>
      (\<forall>n0 n1 n2 other r s'. n1 < lease_until l \<longrightarrow>
         LocalLock (we_leases cut_off) (wh_lock (sample_webhook False)) (n0, n1, n2) other (xpdb_namespace sample_xpdb)
           (spec_selector (xpdb_spec sample_xpdb)) (st_leases st') = (r, s') \<longrightarrow>
         (\<exists>e. r = Err e) \<and> fake_stored s' = fake_stored (st_leases st'))"
  proof (rule failed_lock_blocks_the_budget [OF _ _ _ sample_not_exempt(1,2)])
    show "lease_store (we_leases cut_off) fake_stored fake_wf"
      using fake.lease_store_axioms by (simp add: cut_off_def sample_env_def)
    show "decodePod cut_off sample_request (st_pods sample_state) = Inr (sample_pod ''db-0'' ''True'')"
      by (simp add: decodePod_def cut_off_def sample_request_def sample_env_def)
    show "GetXPdbsForPod (wh_pdb (sample_webhook False)) (sample_pod ''db-0'' ''True'') = Inr [sample_xpdb]"
      using sample_xpdbs by (simp add: sample_webhook_def)
    show "LocalLock (we_leases cut_off) (wh_lock (sample_webhook False)) (in_lockClk sample_inputs)
        (lock_identity (sample_webhook False) sample_inputs (sample_pod ''db-0'' ''True'')) (xpdb_namespace sample_xpdb)
        (spec_selector (xpdb_spec sample_xpdb)) (st_leases sample_state) =
      (Ok (), locked_by (sample_lock [''b:9643'']) sample_identity ''shop'' sample_selector 1000)"
      using fake_lock_free by (simp add: cut_off_def sample_env_def sample_webhook_def sample_inputs_def sample_state_def
          sample_identity_def)
    show "remoteLock (we_rpc cut_off) (wh_lock (sample_webhook False)) (in_lockOrder sample_inputs)
        (lock_identity (sample_webhook False) sample_inputs (sample_pod ''db-0'' ''True'')) (xpdb_namespace sample_xpdb)
        (spec_selector (xpdb_spec sample_xpdb)) (st_remote sample_state) =
      (Err (EJoin [EMsg ''connection refused'']), (sample_pool, \<lambda>e. Map.empty))"
      using cut_off_remote by (simp add: sample_webhook_def sample_inputs_def sample_state_def)
  qed (simp_all add: sample_state_def sample_webhook_def)
  then obtain resp st' l where r: "Handle cut_off (sample_webhook False) sample_inputs sample_request sample_state = (Ok resp, st')"
      "\<not> ar_allowed resp"
      "fake_stored (st_leases st') (lock_key (wh_lock (sample_webhook False)) (xpdb_namespace sample_xpdb)
        (spec_selector (xpdb_spec sample_xpdb))) = Some l"
      "lease_holderIdentity l = Some (lock_identity (sample_webhook False) sample_inputs (sample_pod ''db-0'' ''True''))"
    by (elim exE conjE) (rule that)
  have "wh_lock (sample_webhook False) = sample_lock [''b:9643'']" by (simp add: sample_webhook_def)
  with r show ?thesis by (intro exI [of _ resp] exI [of _ st'] exI [of _ l]) simp
qed

text \<open>
  C20. Outside dry-run mode, a request is answered with code 429 exactly when its pod is subject to the webhook and
  has to wait: the pod has a pending pre-activity, and has been marked for it, without any lock; or it has no pre-activity and
  one active budget, the lock was taken, and the budget or the probe said no. A pod that is exempt or could not be
  decoded, a mark that could not be stored, budgets that could not be found, none or several budgets, a lock that
  could not be taken, an error while counting or probing, and an acceptance all have other codes.
\<close>

theorem too_many_requests_iff_must_wait:
  assumes "\<not> wh_dryRun h" "Handle env h inp req st = (Ok resp, st')"
  shows "ar_code resp = 429 \<longleftrightarrow> must_wait env h inp req st"
  using assms by (rule Handle_429)

theorem too_many_requests_iff_must_wait_witness:
  "ar_code (sample_refusal False) = 429 \<and>
     must_wait (sample_env ''False'') (sample_webhook False) sample_inputs sample_request sample_state"
proof -
  obtain st' where h: "Handle (sample_env ''False'') (sample_webhook False) sample_inputs sample_request sample_state
       = (Ok (sample_refusal False), st')" using sample_handled_refused by blast
  have "ar_code (sample_refusal False) = 429"
    by (simp add: sample_refusal_def admissionResponse_code sample_webhook_def)
  then show ?thesis using too_many_requests_iff_must_wait [OF _ h] by (simp add: sample_webhook_def)
qed

text \<open>
  C33. Every response carries a code that fits its verdict: 200 exactly when the request is allowed; a
  refusal has code 403, 429 or 500, and in dry-run mode always 403. The handler never ends in an error
  value: it answers or it panics.
\<close>

theorem response_codes:
  assumes "Handle env h inp req st = (out, st')"
  shows "out = Panic \<or>
    (\<exists>resp. out = Ok resp \<and> (ar_code resp = 200 \<longleftrightarrow> ar_allowed resp) \<and>
       ar_code resp \<in> (if wh_dryRun h then {200, 403} else {200, 403, 429, 500}))"
  using built_Handle [of h env inp req st] assms
  by (cases out)
    (auto simp: built_response_def built_outcome_def admissionResponse_def ValidationResponse_def Errored_def
      split: if_splits)

theorem response_codes_witness:
  "\<exists>resp. Handle (sample_env ''True'') (sample_webhook False) sample_inputs sample_request sample_state
       = (Ok resp, sample_admitted) \<and> ar_code resp = 200"
proof -
  obtain resp where h: "Handle (sample_env ''True'') (sample_webhook False) sample_inputs sample_request sample_state
     = (Ok resp, sample_admitted)" "ar_allowed resp" using sample_handled by blast
  then show ?thesis using response_codes [OF h(1)] by auto
qed

text \<open>
  C32. Dry-run mode refuses. The help of the flag (\<^verbatim>\<open>cmd/controller/main.go\<close>) says that in this mode a voluntary
  disruption is never rejected; the code does not do that. The verdict and the state that a request leaves behind are
  the same in both modes, and a disruption that is refused in normal mode is refused in dry-run mode, with
  code 403 whatever the code was.
\<close>

theorem dry_run_still_refuses:
  "verdict (Handle env (h\<lparr>wh_dryRun := True\<rparr>) inp req st) = verdict (Handle env (h\<lparr>wh_dryRun := False\<rparr>) inp req st) \<and>
   (Handle env (h\<lparr>wh_dryRun := False\<rparr>) inp req st = (Ok resp, st') \<and> \<not> ar_allowed resp \<longrightarrow>
      (\<exists>resp'. Handle env (h\<lparr>wh_dryRun := True\<rparr>) inp req st = (Ok resp', st') \<and> \<not> ar_allowed resp' \<and> ar_code resp' = 403))"
proof -
  have same: "verdict (Handle env (h\<lparr>wh_dryRun := False\<rparr>) inp req st) = verdict (Handle env (h\<lparr>wh_dryRun := True\<rparr>) inp req st)"
    by (simp only: Handle_dry)
  moreover have "\<exists>resp'. Handle env (h\<lparr>wh_dryRun := True\<rparr>) inp req st = (Ok resp', st') \<and> \<not> ar_allowed resp' \<and> ar_code resp' = 403"
    if ok: "Handle env (h\<lparr>wh_dryRun := False\<rparr>) inp req st = (Ok resp, st')" and no: "\<not> ar_allowed resp"
  proof -
    obtain resp' where r: "Handle env (h\<lparr>wh_dryRun := True\<rparr>) inp req st = (Ok resp', st')" "\<not> ar_allowed resp'"
      using verdict_eqD [OF same ok] no by auto
    then have "ar_code resp' = 403"
      using built_Handle [of "h\<lparr>wh_dryRun := True\<rparr>" env inp req st]
      by (auto simp: built_response_def admissionResponse_def ValidationResponse_def Errored_def split: if_splits)
    with r show ?thesis by blast
  qed
  ultimately show ?thesis by simp
qed

theorem dry_run_still_refuses_witness:
  "\<exists>resp st'. Handle (sample_env ''False'') (sample_webhook True) sample_inputs sample_request sample_state = (Ok resp, st') \<and>
     \<not> ar_allowed resp \<and> ar_code resp = 403"
proof -
  obtain st' where h: "Handle (sample_env ''False'') (sample_webhook False) sample_inputs sample_request sample_state
       = (Ok (sample_refusal False), st')" using sample_handled_refused by blast
  have dry: "(sample_webhook b)\<lparr>wh_dryRun := b'\<rparr> = sample_webhook b'" for b b' by (simp add: sample_webhook_def)
  have "\<not> ar_allowed (sample_refusal False)" by (simp add: sample_refusal_def)
  with dry_run_still_refuses [of "sample_env ''False''" "sample_webhook False" sample_inputs sample_request sample_state
      "sample_refusal False" st'] h show ?thesis unfolding dry by blast
qed

text \<open>
  C31. The records tell what happened: the events that a request emits and the counters that it increments are exactly
  those of its outcome. Several budgets: one configuration event on the pod and one multiple-budgets count. One active
  budget: a lock that could not be taken gives one lock-error count and no event; a refusal by the budget or by the probe gives one
  blocked event on the budget and one eviction-rejected count of the request's resource, subresource and operation; an admission gives one
  accepted event on the budget and no count. Everything else, errors included, leaves no record.
\<close>

theorem records_match_the_verdict:
  assumes "decodePod env req (st_pods st) = Inr p" "Handle env h inp req st = (Ok resp, st')"
  shows "st_events st' = st_events st @ fst (records_of env h inp req p (ar_allowed resp) st) \<and>
    st_metrics st' = snd (records_of env h inp req p (ar_allowed resp) st) (st_metrics st)"
  using assms by (rule Handle_records)

theorem records_match_the_verdict_witness:
  "st_events sample_admitted = [budget_event XPDBEventReasonAccepted sample_xpdb (sample_pod ''db-0'' ''True'')] \<and>
   st_metrics sample_admitted = no_metrics"
proof -
  let ?p = "sample_pod ''db-0'' ''True''" and ?env = "sample_env ''True''" and ?h = "sample_webhook False"
  obtain resp where h: "Handle ?env ?h sample_inputs sample_request sample_state = (Ok resp, sample_admitted)" "ar_allowed resp"
    using sample_handled by blast
  have lock: "Lock (we_leases ?env) (we_rpc ?env) (wh_lock ?h) (in_lockClk sample_inputs) (in_lockOrder sample_inputs)
      sample_identity ''shop'' sample_selector (st_leases sample_state, st_remote sample_state) =
    (Ok (), locked_by (sample_lock [''b:9643'']) sample_identity ''shop'' sample_selector 1000, (sample_pool, sample_locked))"
    using sample_lock_taken [of "''True''"] by (simp add: sample_env_def sample_webhook_def sample_inputs_def sample_state_def)
  have can: "CanPodBeDisrupted (we_f2i ?env) (we_rpc ?env) (wh_pdb ?h) (in_stateOrder sample_inputs) ?p sample_xpdb
      (sample_pool, sample_locked) = (Ok True, (sample_pool, sample_locked))"
    using sample_decision(1) by (simp add: sample_env_def sample_webhook_def sample_inputs_def)
  have "\<not> lock_fails ?env ?h sample_inputs ?p sample_xpdb sample_state"
    using lock by (simp add: lock_fails_def)
  moreover have "\<not> refuses ?env ?h sample_inputs ?p sample_xpdb sample_state"
    using lock can by (simp add: refuses_def probe_wanted_def)
  moreover have "GetXPdbsForPod (wh_pdb ?h) ?p = Inr [sample_xpdb]" using sample_xpdbs by (simp add: sample_webhook_def)
  ultimately have "records_of ?env ?h sample_inputs sample_request ?p True sample_state =
      ([budget_event XPDBEventReasonAccepted sample_xpdb ?p], id)"
    using sample_not_exempt by (simp add: records_of_def)
  then show ?thesis using records_match_the_verdict [OF sample_decoded h(1)] h(2) by (simp add: sample_state_def)
qed

section \<open>The clusters\<close>

text \<open>
  C12. The decision is made over all clusters: there is one only if this cluster and every remote one
  have been counted, and with a sensible budget and totals that fit into 32 bits it is positive exactly
  when the healthy pods of all clusters together, without the candidate, reach what the budget
  requires of the expected pods of all clusters together. Deciding changes nothing in any cluster.
\<close>

theorem decision_is_over_all_clusters:
  assumes "CanPodBeDisrupted f2i (mesh_env m) svc order p x (pl, w) = (Ok b, (pl', w'))"
    and "honest_pool pl" "distinct order" "set order = set (ps_remoteEndpoints svc)"
    and "sane_budget (xpdb_spec x)" "counts_fit m svc x"
  shows "all_counted m svc x \<and> w' = w \<and>
     (b \<longleftrightarrow> required_healthy (xpdb_spec x) (total_expected m svc x) \<le>
          total_healthy m svc x - (if IsPodReady p then 1 else 0))"
  using CanPodBeDisrupted_mesh [OF assms(1-4)] assms(5,6) by blast

lemma sample_totals:
  "counts_of (sample_pdb eps ''True'') sample_xpdb = (2, 2)" "counts_of (sample_pdb eps ''False'') sample_xpdb = (2, 1)"
  by (simp_all add: counts_of_def sample_counts sample_counts_unready)

theorem decision_is_over_all_clusters_witness:
  "all_counted (sample_mesh ''False'') (sample_pdb [''b:9643''] ''True'') sample_xpdb \<and> sample_locked = sample_locked \<and>
     (False \<longleftrightarrow> required_healthy (xpdb_spec sample_xpdb)
            (total_expected (sample_mesh ''False'') (sample_pdb [''b:9643''] ''True'') sample_xpdb) \<le>
          total_healthy (sample_mesh ''False'') (sample_pdb [''b:9643''] ''True'') sample_xpdb -
            (if IsPodReady (sample_pod ''db-0'' ''True'') then 1 else 0))"
proof (rule decision_is_over_all_clusters [OF sample_decision(2) [of "\<lambda>q. 0"]])
  show "honest_pool sample_pool" by (simp add: honest_pool_def sample_pool_def)
  show "sane_budget (xpdb_spec sample_xpdb)"
    by (simp add: sample_xpdb_def sample_spec_def sane_budget_def sane_value_def one_unavailable_def)
  have remote: "cl_pdb (ms_cluster (sample_mesh ''False'') e) = sample_pdb [] ''False''" for e
    by (simp add: sample_mesh_def sample_cluster_def)
  show "counts_fit (sample_mesh ''False'') (sample_pdb [''b:9643''] ''True'') sample_xpdb"
    by (simp add: counts_fit_def total_expected_def total_healthy_def sample_totals remote)
qed simp_all

text \<open>
  What a peer asks of a state server is what it would do itself: a lock or unlock request built by
  the lock service of another cluster runs the local lock or unlock with the peer's identity, namespace
  and selector, the answer says whether it succeeded, and a panic becomes an error for the peer. A
  request for the counts answers with the counts of this cluster, if there are any.
\<close>

theorem state_server_acts_for_the_peer:
  "stateServer_Lock c svc clk \<lparr>lrq_leaseHolderIdentity = me, lrq_namespace = ns,
       lrq_labelSelector = Some (ConvertLabelSelectorToState sel)\<rparr> s =
     (case LocalLock c svc clk me ns sel s of
        (Ok _, s1) \<Rightarrow> (Inr \<lparr>lrs_acquired = True, lrs_error = []\<rparr>, s1)
      | (Err e, s1) \<Rightarrow> (Inr \<lparr>lrs_acquired = False, lrs_error = Error e\<rparr>, s1)
      | (Panic, s1) \<Rightarrow> (Inl grpcPanicRecoveryHandler, s1)) \<and>
   stateServer_Unlock c svc now \<lparr>urq_leaseHolderIdentity = me, urq_namespace = ns,
       urq_labelSelector = Some (ConvertLabelSelectorToState sel)\<rparr> s =
     (case LocalUnlock c svc now me ns sel s of
        (Ok _, s1) \<Rightarrow> (Inr \<lparr>urs_unlocked = True, urs_error = []\<rparr>, s1)
      | (Err e, s1) \<Rightarrow> (Inr \<lparr>urs_unlocked = False, urs_error = Error e\<rparr>, s1)
      | (Panic, s1) \<Rightarrow> (Inl grpcPanicRecoveryHandler, s1)) \<and>
   (stateServer_GetState psvc \<lparr>grq_namespace = ns, grq_labelSelector = Some (ConvertLabelSelectorToState sel)\<rparr> =
       Inr \<lparr>grs_desiredHealthy = d, grs_healthy = n\<rparr> \<longleftrightarrow> GetPodCounts psvc ns sel = Ok (d, n))"
  by (simp only: stateServer_Lock_converted stateServer_Unlock_converted stateServer_GetState_converted)

text \<open>
  C39. The error of a gRPC server that stops serving is lost: \<^verbatim>\<open>Start\<close> returns the same value, whether
  the server was stopped with its context or failed to serve (\<open>e\<close>). After a successful start this
  value is nil, so the manager cannot tell the failure from an orderly stop.
\<close>

theorem serve_error_is_lost:
  "Server_Start (env\<lparr>se_ended := ServeFailed e\<rparr>) port certsDir = Server_Start (env\<lparr>se_ended := CtxDone\<rparr>) port certsDir"
  using Server_Start_ended [of "env\<lparr>se_ended := ServeFailed e\<rparr>" port certsDir CtxDone] by simp


section \<open>Budgets and counts of a cluster\<close>

text \<open>
  C21. The budgets of a pod are exactly the budgets of its namespace whose selector selects the labels
  of the pod, each once. The call fails if a selector of the namespace is not valid, and on an error of
  the API server.
\<close>

theorem budgets_of_a_pod:
  assumes "cluster_reader (ps_reader svc) pods xpdbs" "rd_XPdbs (ps_reader svc) (pod_namespace p) = Inr items"
  shows "(case GetXPdbsForPod svc p of
      Inr xs \<Rightarrow> (\<forall>x\<in>set items. valid_selector (spec_selector (xpdb_spec x))) \<and>
        mset xs = mset (filter (\<lambda>x. in_namespace (pod_namespace p) (xpdb_namespace x) \<and>
           selects (spec_selector (xpdb_spec x)) (pod_labels p)) xpdbs)
    | Inl e \<Rightarrow> \<exists>x\<in>set items. \<not> valid_selector (spec_selector (xpdb_spec x)))"
  using cluster_reader.xpdbs_selected [OF assms(1), of svc p] assms(2) matching_xpdbs_total [of "pod_labels p" items]
  by (auto simp: GetXPdbsForPod_def split: sum.splits)

theorem budgets_of_a_pod_witness:
  "(case GetXPdbsForPod (sample_pdb [] ''True'') (sample_pod ''db-0'' ''True'') of
      Inr xs \<Rightarrow> (\<forall>x\<in>set [sample_xpdb]. valid_selector (spec_selector (xpdb_spec x))) \<and>
        mset xs = mset (filter (\<lambda>x. in_namespace (pod_namespace (sample_pod ''db-0'' ''True'')) (xpdb_namespace x) \<and>
           selects (spec_selector (xpdb_spec x)) (pod_labels (sample_pod ''db-0'' ''True''))) [sample_xpdb])
    | Inl e \<Rightarrow> \<exists>x\<in>set [sample_xpdb]. \<not> valid_selector (spec_selector (xpdb_spec x)))"
proof (rule budgets_of_a_pod)
  show "cluster_reader (ps_reader (sample_pdb [] ''True''))
      [sample_pod ''db-0'' ''True'', sample_pod ''db-1'' ''True''] [sample_xpdb]"
    using fake_list.cluster_reader_axioms by (simp add: sample_pdb_def sample_reader_def)
  show "rd_XPdbs (ps_reader (sample_pdb [] ''True'')) (pod_namespace (sample_pod ''db-0'' ''True'')) = Inr [sample_xpdb]"
    by (simp add: sample_pdb_def sample_reader_def fake_reader_def fake_List_xpdbs_def in_namespace_def sample_pod_def)
qed

text \<open>
  C22. The counts of a cluster, when there are any, are the number of healthy pods among the pods of the
  namespace that the selector selects, and the sum of the scales of their controllers, each counted
  once.
\<close>

theorem counts_of_a_cluster:
  assumes "cluster_reader (ps_reader svc) pods xpdbs" "GetPodCounts svc ns ls = Ok (expected, healthy)"
    and "length pods < 2 ^ 31"
    and "sel = filter (\<lambda>p. in_namespace ns (pod_namespace p) \<and> selects ls (pod_labels p)) pods"
    and "consistent_controllers (rd_scale (ps_reader svc)) sel rootOf scale"
  shows "sint healthy = int (length (filter healthy_pod sel)) \<and>
     expected = (\<Sum>u\<in>rootOf ` controller_refs sel. scale u)"
  using cluster_reader.counts_exact [OF assms(1,2) refl assms(3)] assms(4,5) by simp

lemma sample_consistent:
  "consistent_controllers sample_scale [sample_pod ''db-0'' ''True'', sample_pod ''db-1'' ''True''] (\<lambda>r. ''u1'') (\<lambda>u. 2)"
proof -
  have "first_controller (finders sample_scale) sample_owner ''shop'' = Ok (Some (''u1'', 2))" by code_simp
  then show ?thesis
    by (auto simp: consistent_controllers_def controller_refs_def GetControllerOf_def sample_pod_def sample_owner_def)
qed

theorem counts_of_a_cluster_witness:
  "sint (2 :: int32) = int (length (filter healthy_pod [sample_pod ''db-0'' ''True'', sample_pod ''db-1'' ''True''])) \<and>
   (2 :: int32) = (\<Sum>u\<in>(\<lambda>r. ''u1'') ` controller_refs [sample_pod ''db-0'' ''True'', sample_pod ''db-1'' ''True'']. 2)"
proof (rule counts_of_a_cluster [where ls = sample_selector and ns = "''shop''" and svc = "sample_pdb [] ''True''"])
  show "cluster_reader (ps_reader (sample_pdb [] ''True''))
      [sample_pod ''db-0'' ''True'', sample_pod ''db-1'' ''True''] [sample_xpdb]"
    using fake_list.cluster_reader_axioms by (simp add: sample_pdb_def sample_reader_def)
  show "GetPodCounts (sample_pdb [] ''True'') ''shop'' sample_selector = Ok (2, 2)" by (rule sample_counts)
  show "[sample_pod ''db-0'' ''True'', sample_pod ''db-1'' ''True''] =
      filter (\<lambda>p. in_namespace ''shop'' (pod_namespace p) \<and> selects sample_selector (pod_labels p))
        [sample_pod ''db-0'' ''True'', sample_pod ''db-1'' ''True'']"
    by (simp add: in_namespace_def selects_def sample_selector_def sample_pod_def)
  show "consistent_controllers (rd_scale (ps_reader (sample_pdb [] ''True'')))
      [sample_pod ''db-0'' ''True'', sample_pod ''db-1'' ''True''] (\<lambda>r. ''u1'') (\<lambda>u. 2)"
    using sample_consistent by (simp add: sample_pdb_def sample_reader_def fake_reader_def)
qed simp

end
